theory Spec2Isabelle
  imports Main
begin

section \<open>Time values and the calendar\<close>

text \<open>
  The scheduler computes with JavaScript \<^verbatim>\<open>Date\<close> objects. A \<^verbatim>\<open>Date\<close> holds a time value:
  an integral number of milliseconds since 1970-01-01T00:00:00Z, or NaN (an invalid
  date). The functions below follow the definitions of the ECMAScript specification
  (Day, DayFromYear, YearFromTime, MonthFromTime, DateFromTime, WeekDay, MakeDay,
  TimeClip), written over day numbers. \<open>YearFromDay\<close> is the executable form of
  "the largest year whose first day is not after the day"; the lemmas
  \<open>YearFromDay_bounds\<close> and \<open>YearFromDay_unique\<close> show that it is that year.
\<close>

definition msPerDay :: int where
  "msPerDay = 86400000"

definition Day :: "int \<Rightarrow> int" where
  "Day t = t div msPerDay"

definition TimeWithinDay :: "int \<Rightarrow> int" where
  "TimeWithinDay t = t mod msPerDay"

definition DayFromYear :: "int \<Rightarrow> int" where
  "DayFromYear y = 365 * (y - 1970) + (y - 1969) div 4 - (y - 1901) div 100 + (y - 1601) div 400"

definition DaysInYear :: "int \<Rightarrow> int" where
  "DaysInYear y = (if y mod 4 \<noteq> 0 then 365 else if y mod 100 \<noteq> 0 then 366
                   else if y mod 400 \<noteq> 0 then 365 else 366)"

lemma div_lower: "0 < (k::int) \<Longrightarrow> k * (x div k) \<le> x"
  using pos_mod_sign [of k x] mult_div_mod_eq [of k x] by linarith

lemma div_upper: "0 < (k::int) \<Longrightarrow> x < k * (x div k) + k"
  using pos_mod_bound [of k x] mult_div_mod_eq [of k x] by linarith

lemma DayFromYear_bounds:
  "146097 * (y - 1970) - 699 \<le> 400 * DayFromYear y"
  "400 * DayFromYear y \<le> 146097 * (y - 1970) + 589"
proof -
  define a where "a = (y - 1969) div 4"
  define b where "b = (y - 1901) div 100"
  define c where "c = (y - 1601) div 400"
  have a: "4 * a \<le> y - 1969" "y - 1969 < 4 * a + 4"
    unfolding a_def by (rule div_lower, simp) (rule div_upper, simp)
  have b: "100 * b \<le> y - 1901" "y - 1901 < 100 * b + 100"
    unfolding b_def by (rule div_lower, simp) (rule div_upper, simp)
  have c: "400 * c \<le> y - 1601" "y - 1601 < 400 * c + 400"
    unfolding c_def by (rule div_lower, simp) (rule div_upper, simp)
  have d: "DayFromYear y = 365 * (y - 1970) + a - b + c"
    by (simp add: DayFromYear_def a_def b_def c_def)
  show "146097 * (y - 1970) - 699 \<le> 400 * DayFromYear y"
    unfolding d using a b c by simp
  show "400 * DayFromYear y \<le> 146097 * (y - 1970) + 589"
    unfolding d using a b c by simp
qed

lemma div_step:
  assumes "1 < (k::int)" "k dvd c - 1"
  shows "(y + 1 - c) div k = (y - c) div k + (if y mod k = 0 then 1 else 0)"
proof -
  obtain m where m: "c - 1 = k * m" using assms(2) by (auto simp: dvd_def)
  define q where "q = (y - c) div k"
  define r where "r = (y - c) mod k"
  have yc: "y - c = k * q + r" by (simp add: q_def r_def)
  have r: "0 \<le> r" "r < k" using assms by (simp_all add: r_def)
  show ?thesis
  proof (cases "r = k - 1")
    case True
    have "y = k * q + (k - 1) + (k * m + 1)" using yc True m by simp
    then have "y = k * (q + m + 1)" by (simp add: algebra_simps)
    then have y0: "y mod k = 0" by simp
    have "y + 1 - c = k * (q + 1)" using yc True by (simp add: algebra_simps)
    then have "(y + 1 - c) div k = q + 1" using assms by simp
    then show ?thesis using y0 by (simp add: q_def)
  next
    case False
    have "y = k * q + r + (k * m + 1)" using yc m by simp
    then have "y = k * (q + m) + (r + 1)" by (simp add: algebra_simps)
    then have "y mod k = (r + 1) mod k" by (metis mod_mult_self4)
    also have "\<dots> = r + 1" using r False by simp
    finally have y0: "y mod k \<noteq> 0" using r by simp
    have "y + 1 - c = k * q + (r + 1)" using yc by simp
    then have "(y + 1 - c) div k = q + (r + 1) div k" using assms 
      by (metis div_mult_self4 less_le_not_le order.strict_trans zero_less_one)
    also have "(r + 1) div k = 0" using r False by simp
    finally show ?thesis using y0 by (simp add: q_def)
  qed
qed

lemma DayFromYear_Suc: "DayFromYear (y + 1) = DayFromYear y + DaysInYear y"
proof -
  have a: "(y + 1 - 1969) div 4 = (y - 1969) div 4 + (if y mod 4 = 0 then 1 else 0)"
    by (rule div_step) simp_all
  have b: "(y + 1 - 1901) div 100 = (y - 1901) div 100 + (if y mod 100 = 0 then 1 else 0)"
    by (rule div_step) simp_all
  have c: "(y + 1 - 1601) div 400 = (y - 1601) div 400 + (if y mod 400 = 0 then 1 else 0)"
    by (rule div_step) simp_all
  have d1: "y mod 400 = 0 \<Longrightarrow> y mod 100 = 0"
    using mod_mod_cancel [of 100 400 y] by simp
  have d2: "y mod 100 = 0 \<Longrightarrow> y mod 4 = 0"
    using mod_mod_cancel [of 4 100 y] by simp
  show ?thesis
    unfolding DayFromYear_def DaysInYear_def a b c using d1 d2 by auto
qed


definition YearFromDay :: "int \<Rightarrow> int" where
  "YearFromDay d = (let y = 1970 + (400 * d) div 146097 in
     if d < DayFromYear y then y - 1
     else if DayFromYear (y + 1) \<le> d then y + 1
     else y)"

lemma DayFromYear_less_Suc: "DayFromYear y < DayFromYear (y + 1)"
  by (simp add: DayFromYear_Suc DaysInYear_def)

lemma DayFromYear_mono: "y \<le> z \<Longrightarrow> DayFromYear y \<le> DayFromYear z"
proof (induction z rule: int_ge_induct)
  case base
  show ?case by simp
next
  case (step i)
  then show ?case using DayFromYear_less_Suc [of i] by simp
qed

lemma DayFromYear_strict_mono: "y < z \<Longrightarrow> DayFromYear y < DayFromYear z"
  using DayFromYear_mono [of "y + 1" z] DayFromYear_less_Suc [of y] by simp

lemma YearFromDay_bounds:
  "DayFromYear (YearFromDay d) \<le> d" "d < DayFromYear (YearFromDay d + 1)"
proof -
  define y where "y = 1970 + (400 * d) div 146097"
  have q: "146097 * (y - 1970) \<le> 400 * d" "400 * d < 146097 * (y - 1970) + 146097"
    using div_lower [of 146097 "400 * d"] div_upper [of 146097 "400 * d"]
    by (simp_all add: y_def)
  have lo: "DayFromYear (y - 1) \<le> d"
    using DayFromYear_bounds(2) [of "y - 1"] q by simp
  have hi: "d < DayFromYear (y + 1 + 1)"
    using DayFromYear_bounds(1) [of "y + 1 + 1"] q by simp
  have e: "YearFromDay d = (if d < DayFromYear y then y - 1
     else if DayFromYear (y + 1) \<le> d then y + 1 else y)"
    by (simp add: YearFromDay_def y_def Let_def)
  show "DayFromYear (YearFromDay d) \<le> d" using lo by (simp add: e)
  show "d < DayFromYear (YearFromDay d + 1)" using hi by (simp add: e)
qed

lemma YearFromDay_unique:
  assumes "DayFromYear y \<le> d" "d < DayFromYear (y + 1)"
  shows "YearFromDay d = y"
proof (rule ccontr)
  assume n: "YearFromDay d \<noteq> y"
  show False
  proof (cases "YearFromDay d < y")
    case True
    then have "DayFromYear (YearFromDay d + 1) \<le> DayFromYear y"
      by (intro DayFromYear_mono) simp
    then show False using YearFromDay_bounds(2) [of d] assms(1) by simp
  next
    case False
    then have "DayFromYear (y + 1) \<le> DayFromYear (YearFromDay d)"
      using n by (intro DayFromYear_mono) simp
    then show False using YearFromDay_bounds(1) [of d] assms(2) by simp
  qed
qed

lemma YearFromDay_le_iff: "YearFromDay d \<le> y \<longleftrightarrow> d < DayFromYear (y + 1)"
proof
  assume "YearFromDay d \<le> y"
  then have "DayFromYear (YearFromDay d + 1) \<le> DayFromYear (y + 1)"
    by (intro DayFromYear_mono) simp
  then show "d < DayFromYear (y + 1)" using YearFromDay_bounds(2) [of d] by simp
next
  assume a: "d < DayFromYear (y + 1)"
  show "YearFromDay d \<le> y"
  proof (rule ccontr)
    assume "\<not> YearFromDay d \<le> y"
    then have "DayFromYear (y + 1) \<le> DayFromYear (YearFromDay d)"
      by (intro DayFromYear_mono) simp
    then show False using YearFromDay_bounds(1) [of d] a by simp
  qed
qed



definition InLeapYear :: "int \<Rightarrow> int" where
  "InLeapYear y = (if DaysInYear y = 366 then 1 else 0)"

definition DayWithinYear :: "int \<Rightarrow> int" where
  "DayWithinYear d = d - DayFromYear (YearFromDay d)"

text \<open>The number of days before month \<open>m\<close> (0 = January) in a year; 12 gives the
  length of the year.\<close>

definition monthStart :: "int \<Rightarrow> int \<Rightarrow> int" where
  "monthStart leap m =
     (if m = 0 then 0 else if m = 1 then 31 else if m = 2 then 59 + leap
      else if m = 3 then 90 + leap else if m = 4 then 120 + leap
      else if m = 5 then 151 + leap else if m = 6 then 181 + leap
      else if m = 7 then 212 + leap else if m = 8 then 243 + leap
      else if m = 9 then 273 + leap else if m = 10 then 304 + leap
      else if m = 11 then 334 + leap else 365 + leap)"

definition MonthFromDay :: "int \<Rightarrow> int" where
  "MonthFromDay d =
     (let w = DayWithinYear d; l = InLeapYear (YearFromDay d) in
      if w < 31 then 0 else if w < 59 + l then 1 else if w < 90 + l then 2
      else if w < 120 + l then 3 else if w < 151 + l then 4 else if w < 181 + l then 5
      else if w < 212 + l then 6 else if w < 243 + l then 7 else if w < 273 + l then 8
      else if w < 304 + l then 9 else if w < 334 + l then 10 else 11)"

definition DateFromDay :: "int \<Rightarrow> int" where
  "DateFromDay d =
     DayWithinYear d - monthStart (InLeapYear (YearFromDay d)) (MonthFromDay d) + 1"

definition WeekDay :: "int \<Rightarrow> int" where
  "WeekDay d = (d + 4) mod 7"

definition DaysInMonth :: "int \<Rightarrow> int \<Rightarrow> int" where
  "DaysInMonth y m = monthStart (InLeapYear y) (m + 1) - monthStart (InLeapYear y) m"

definition MakeDay :: "int \<Rightarrow> int \<Rightarrow> int \<Rightarrow> int" where
  "MakeDay year month dt =
     (let ym = year + month div 12; mn = month mod 12 in
      DayFromYear ym + monthStart (InLeapYear ym) mn + dt - 1)"

text \<open>
  A number that is an integer or NaN is an \<open>int option\<close> (\<open>None\<close> is NaN); so is the
  time value of a \<^verbatim>\<open>Date\<close> (\<open>None\<close> is the invalid date). Arithmetic and comparison
  with NaN give NaN and false, as in the language.
\<close>

type_synonym num = "int option"

type_synonym Date = "int option"

definition nadd :: "num \<Rightarrow> num \<Rightarrow> num" where
  "nadd a b = (case a of None \<Rightarrow> None | Some x \<Rightarrow> (case b of None \<Rightarrow> None | Some y \<Rightarrow> Some (x + y)))"

definition nsub :: "num \<Rightarrow> num \<Rightarrow> num" where
  "nsub a b = (case a of None \<Rightarrow> None | Some x \<Rightarrow> (case b of None \<Rightarrow> None | Some y \<Rightarrow> Some (x - y)))"

definition dle :: "Date \<Rightarrow> Date \<Rightarrow> bool" where
  "dle a b = (case a of None \<Rightarrow> False | Some x \<Rightarrow> (case b of None \<Rightarrow> False | Some y \<Rightarrow> x \<le> y))"

definition dge :: "Date \<Rightarrow> Date \<Rightarrow> bool" where
  "dge a b = (case a of None \<Rightarrow> False | Some x \<Rightarrow> (case b of None \<Rightarrow> False | Some y \<Rightarrow> x \<ge> y))"

definition TimeClip :: "int \<Rightarrow> Date" where
  "TimeClip t = (if \<bar>t\<bar> \<le> 8640000000000000 then Some t else None)"

text \<open>\<^verbatim>\<open>new Date(Date.UTC(y, m, d))\<close>: a year from 0 to 99 stands for 1900 + year.\<close>

definition DateUTC :: "num \<Rightarrow> num \<Rightarrow> num \<Rightarrow> Date" where
  "DateUTC y m dt =
     (case y of None \<Rightarrow> None | Some y' \<Rightarrow>
      (case m of None \<Rightarrow> None | Some m' \<Rightarrow>
       (case dt of None \<Rightarrow> None | Some d' \<Rightarrow>
          (let yr = (if 0 \<le> y' \<and> y' \<le> 99 then 1900 + y' else y') in
           TimeClip (MakeDay yr m' d' * msPerDay)))))"

definition getUTCFullYear :: "Date \<Rightarrow> num" where
  "getUTCFullYear date = map_option (\<lambda>t. YearFromDay (Day t)) date"

definition getUTCMonth :: "Date \<Rightarrow> num" where
  "getUTCMonth date = map_option (\<lambda>t. MonthFromDay (Day t)) date"

definition getUTCDate :: "Date \<Rightarrow> num" where
  "getUTCDate date = map_option (\<lambda>t. DateFromDay (Day t)) date"

definition getUTCDay :: "Date \<Rightarrow> num" where
  "getUTCDay date = map_option (\<lambda>t. WeekDay (Day t)) date"

definition setUTCDate :: "Date \<Rightarrow> num \<Rightarrow> Date" where
  "setUTCDate date dt =
     (case date of None \<Rightarrow> None | Some t \<Rightarrow>
      (case dt of None \<Rightarrow> None | Some n \<Rightarrow>
         TimeClip (MakeDay (YearFromDay (Day t)) (MonthFromDay (Day t)) n * msPerDay
                   + TimeWithinDay t)))"

text \<open>
  What the host environment decides: the offset of local time from UTC, in
  milliseconds, at each time value (\<open>LocalTZA\<close>), and what \<^verbatim>\<open>new Date(string)\<close> gives
  for a string that is not a calendar date in the interchange format
  (\<open>parseFallback\<close>; the language leaves it to the implementation).
\<close>

record platform =
  LocalTZA :: "int \<Rightarrow> int"
  parseFallback :: "string \<Rightarrow> Date"

definition getFullYear :: "platform \<Rightarrow> Date \<Rightarrow> num" where
  "getFullYear P date = map_option (\<lambda>t. YearFromDay (Day (t + LocalTZA P t))) date"

definition getMonth :: "platform \<Rightarrow> Date \<Rightarrow> num" where
  "getMonth P date = map_option (\<lambda>t. MonthFromDay (Day (t + LocalTZA P t))) date"

definition getDate :: "platform \<Rightarrow> Date \<Rightarrow> num" where
  "getDate P date = map_option (\<lambda>t. DateFromDay (Day (t + LocalTZA P t))) date"

subsection \<open>Reading a date string\<close>

definition digitValue :: "char \<Rightarrow> int option" where
  "digitValue c = (let n = (of_char c :: nat) in
     if 48 \<le> n \<and> n \<le> 57 then Some (int n - 48) else None)"

definition digitsValue :: "string \<Rightarrow> int option" where
  "digitsValue cs = foldl (\<lambda>acc c. case acc of None \<Rightarrow> None
       | Some a \<Rightarrow> (case digitValue c of None \<Rightarrow> None | Some v \<Rightarrow> Some (10 * a + v)))
     (Some 0) cs"

text \<open>The time value of \<^verbatim>\<open>YYYY-MM-DDT00:00:00Z\<close> when year, month and day name a day
  of the calendar.\<close>

definition isoDate :: "string \<Rightarrow> int option" where
  "isoDate s =
     (if length s = 20 \<and> s ! 4 = CHR ''-'' \<and> s ! 7 = CHR ''-'' \<and> drop 10 s = ''T00:00:00Z'' then
        (case digitsValue (take 4 s) of None \<Rightarrow> None | Some y \<Rightarrow>
         (case digitsValue (take 2 (drop 5 s)) of None \<Rightarrow> None | Some m \<Rightarrow>
          (case digitsValue (take 2 (drop 8 s)) of None \<Rightarrow> None | Some d \<Rightarrow>
             if 1 \<le> m \<and> m \<le> 12 \<and> 1 \<le> d \<and> d \<le> DaysInMonth y (m - 1)
             then Some (MakeDay y (m - 1) d * msPerDay) else None)))
      else None)"

definition newDate :: "platform \<Rightarrow> string \<Rightarrow> Date" where
  "newDate P s = (case isoDate s of Some t \<Rightarrow> Some t | None \<Rightarrow> parseFallback P s)"

section \<open>The data model\<close>

record Leave =
  leave_start :: string
  leave_end :: string

record Person =
  person_id :: int
  person_name :: string
  person_leave :: "Leave list"

record Holiday =
  holiday_date :: string
  holiday_name :: string

text \<open>\<^verbatim>\<open>assignedTo: number | string | null\<close>.\<close>

datatype assignment = Null | PersonId int | Status string

text \<open>The field \<^verbatim>\<open>notes\<close> is \<open>week_notes\<close> here.\<close>

record Week =
  startDate :: Date
  endDate :: Date
  assignedTo :: assignment
  hasHoliday :: bool
  isHolidayPeriod :: bool
  week_notes :: string

section \<open>Calendar helpers and the holiday period\<close>

definition getMondayBefore :: "Date \<Rightarrow> Date" where
  "getMondayBefore date =
     (let dayOfWeek = getUTCDay date;
          diff = (if dayOfWeek = Some 0 then Some (- 6) else nsub (Some 1) dayOfWeek)
      in setUTCDate date (nadd (getUTCDate date) diff))"

definition getFridayAfter :: "Date \<Rightarrow> Date" where
  "getFridayAfter date =
     (let dayOfWeek = getUTCDay date;
          diff = (if dayOfWeek = Some 6 then Some 6 else nsub (Some 5) dayOfWeek)
      in setUTCDate date (nadd (getUTCDate date) diff))"

text \<open>\<open>None\<close> is the \<^verbatim>\<open>null\<close> returned when a date of the period is invalid.\<close>

definition getHolidayPeriod :: "int \<Rightarrow> (Date \<times> Date) option" where
  "getHolidayPeriod scheduleYear =
     (let christmas = DateUTC (Some scheduleYear) (Some 11) (Some 25);
          newYear = DateUTC (Some (scheduleYear + 1)) (Some 0) (Some 1);
          holidayPeriodStart = getMondayBefore christmas;
          holidayPeriodEnd = getFridayAfter newYear
      in if holidayPeriodStart = None \<or> holidayPeriodEnd = None then None
         else Some (holidayPeriodStart, holidayPeriodEnd))"

definition isWeekInHolidayPeriod :: "Date \<Rightarrow> Date \<Rightarrow> int \<Rightarrow> bool" where
  "isWeekInHolidayPeriod weekStartDate weekEndDate scheduleYear =
     (case getHolidayPeriod scheduleYear of
        None \<Rightarrow> False
      | Some (pstart, pend) \<Rightarrow> dle weekStartDate pend \<and> dge weekEndDate pstart)"

definition weekContainsHoliday :: "platform \<Rightarrow> Date \<Rightarrow> Date \<Rightarrow> Holiday list \<Rightarrow> bool" where
  "weekContainsHoliday P start_date end_date holidayList =
     list_ex (\<lambda>holiday.
        let holidayDate = newDate P (holiday_date holiday @ ''T00:00:00Z'');
            startUTC = DateUTC (getFullYear P start_date) (getMonth P start_date) (getDate P start_date);
            endUTC = DateUTC (getFullYear P end_date) (getMonth P end_date) (getDate P end_date)
        in dge holidayDate startUTC \<and> dle holidayDate endUTC) holidayList"

section \<open>The schedule generator\<close>

text \<open>Comparison of numbers (false when either is NaN) and the remainder \<^verbatim>\<open>%\<close>,
  which takes the sign of the dividend.\<close>

definition ngt :: "num \<Rightarrow> num \<Rightarrow> bool" where
  "ngt a b = (case a of None \<Rightarrow> False | Some x \<Rightarrow> (case b of None \<Rightarrow> False | Some y \<Rightarrow> x > y))"

definition nrem :: "num \<Rightarrow> int \<Rightarrow> num" where
  "nrem a k = map_option (\<lambda>x. if 0 \<le> x then x mod k else - ((- x) mod k)) a"

text \<open>
  The first loop of \<^verbatim>\<open>generateSchedule\<close>: the search for the first day of the start
  month that falls on the start weekday. The loop has no bound of its own (on an
  invalid date it never ends), so the model is a partial function: \<open>None\<close> stands for
  a search that does not return.
\<close>

partial_function (option) findStart :: "int \<Rightarrow> int \<Rightarrow> int \<Rightarrow> Date \<Rightarrow> Date option" where
  "findStart year startMonth startDayOfWeek date =
     (if getUTCDay date \<noteq> Some startDayOfWeek then
        (if ngt (getUTCFullYear (setUTCDate date (nadd (getUTCDate date) (Some 1)))) (Some year)
            \<or> (getUTCFullYear (setUTCDate date (nadd (getUTCDate date) (Some 1))) = Some year
                \<and> ngt (getUTCMonth (setUTCDate date (nadd (getUTCDate date) (Some 1)))) (Some startMonth))
         then Some (setUTCDate (DateUTC (Some year) (Some startMonth) (Some 1))
                 (nadd (getUTCDate (DateUTC (Some year) (Some startMonth) (Some 1)))
                    (nrem (nadd (nsub (Some startDayOfWeek)
                                   (getUTCDay (DateUTC (Some year) (Some startMonth) (Some 1))))
                                (Some 7)) 7)))
         else findStart year startMonth startDayOfWeek
                (setUTCDate date (nadd (getUTCDate date) (Some 1))))
      else Some date)"

lemma MonthFromDay_range: "0 \<le> MonthFromDay d \<and> MonthFromDay d \<le> 11"
  by (simp add: MonthFromDay_def Let_def)

lemma MakeDay_civil:
  "MakeDay (YearFromDay d) (MonthFromDay d) (DateFromDay d + k) = d + k"
proof -
  have "MonthFromDay d div 12 = 0" "MonthFromDay d mod 12 = MonthFromDay d"
    using MonthFromDay_range [of d] by simp_all
  then show ?thesis
    by (simp add: MakeDay_def DateFromDay_def DayWithinYear_def)
qed

lemma Day_TimeWithinDay: "Day t * msPerDay + TimeWithinDay t = t"
  by (simp add: Day_def TimeWithinDay_def)

lemma setUTCDate_shift:
  "setUTCDate (Some t) (nadd (getUTCDate (Some t)) (Some k)) = TimeClip (t + k * msPerDay)"
proof -
  have "(Day t + k) * msPerDay + TimeWithinDay t = t + k * msPerDay"
    using Day_TimeWithinDay [of t] by (simp add: algebra_simps)
  then show ?thesis
    by (simp add: setUTCDate_def nadd_def getUTCDate_def MakeDay_civil)
qed

lemma setUTCDate_None [simp]: "setUTCDate None n = None"
  by (simp add: setUTCDate_def)

text \<open>The second loop: one week for each start date in the year, seven days apart.\<close>

function weeksFrom :: "platform \<Rightarrow> int \<Rightarrow> Holiday list \<Rightarrow> Date \<Rightarrow> Week list" where
  "weeksFrom P year holidayList date =
     (if getUTCFullYear date = Some year then
        \<lparr> startDate = date,
          endDate = setUTCDate date (nadd (getUTCDate date) (Some 6)),
          assignedTo =
            (if isWeekInHolidayPeriod date (setUTCDate date (nadd (getUTCDate date) (Some 6))) year
             then Status ''Holiday Period'' else Null),
          hasHoliday =
            weekContainsHoliday P date (setUTCDate date (nadd (getUTCDate date) (Some 6))) holidayList,
          isHolidayPeriod =
            isWeekInHolidayPeriod date (setUTCDate date (nadd (getUTCDate date) (Some 6))) year,
          week_notes = [] \<rparr>
        # weeksFrom P year holidayList (setUTCDate date (nadd (getUTCDate date) (Some 7)))
      else [])"
  by pat_completeness auto
termination
proof (relation "measure (\<lambda>(P, year, holidayList, date).
          case date of None \<Rightarrow> 0 | Some t \<Rightarrow> nat (DayFromYear (year + 1) * msPerDay - t))")
  show "wf (measure (\<lambda>(P, year, holidayList, date).
          case date of None \<Rightarrow> 0 | Some t \<Rightarrow> nat (DayFromYear (year + 1) * msPerDay - t)))"
    by simp
next
  fix P :: platform and year :: int and holidayList :: "Holiday list" and date :: Date
  assume a: "getUTCFullYear date = Some year"
  then obtain t where t: "date = Some t" "YearFromDay (Day t) = year"
    by (auto simp: getUTCFullYear_def)
  have "Day t < DayFromYear (year + 1)"
    using YearFromDay_bounds(2) [of "Day t"] t by simp
  then have "Day t * msPerDay + msPerDay \<le> DayFromYear (year + 1) * msPerDay"
    by (simp add: msPerDay_def)
  moreover have "t < Day t * msPerDay + msPerDay"
    using Day_TimeWithinDay [of t] by (simp add: TimeWithinDay_def msPerDay_def)
  ultimately have lt: "t < DayFromYear (year + 1) * msPerDay" by simp
  show "((P, year, holidayList, setUTCDate date (nadd (getUTCDate date) (Some 7))),
         P, year, holidayList, date)
        \<in> measure (\<lambda>(P, year, holidayList, date).
          case date of None \<Rightarrow> 0 | Some t \<Rightarrow> nat (DayFromYear (year + 1) * msPerDay - t))"
    using lt by (simp add: t setUTCDate_shift TimeClip_def msPerDay_def)
qed

declare weeksFrom.simps [simp del]

definition generateWeeks ::
  "platform \<Rightarrow> int \<Rightarrow> int \<Rightarrow> int \<Rightarrow> Holiday list \<Rightarrow> Week list option" where
  "generateWeeks P year startMonth startDayOfWeek holidayList =
     (case findStart year startMonth startDayOfWeek (DateUTC (Some year) (Some startMonth) (Some 1)) of
        None \<Rightarrow> None
      | Some date \<Rightarrow> Some (weeksFrom P year holidayList date))"

declare findStart.simps [code]

subsection \<open>Facts about the calendar\<close>

lemma DaysInYear_InLeapYear: "DaysInYear y = 365 + InLeapYear y"
  by (simp add: InLeapYear_def DaysInYear_def)

lemma InLeapYear_cases: "InLeapYear y = 0 \<or> InLeapYear y = 1"
  by (simp add: InLeapYear_def)

lemma month_cases:
  assumes "0 \<le> (m::int)" "m \<le> 11"
  shows "m = 0 \<or> m = 1 \<or> m = 2 \<or> m = 3 \<or> m = 4 \<or> m = 5 \<or> m = 6 \<or> m = 7 \<or> m = 8
         \<or> m = 9 \<or> m = 10 \<or> m = 11"
  using assms by arith

lemma DaysInMonth_bounds:
  assumes "0 \<le> m" "m \<le> 11" "l = 0 \<or> l = 1"
  shows "28 \<le> monthStart l (m + 1) - monthStart l m"
    and "monthStart l (m + 1) - monthStart l m \<le> 31"
    and "0 \<le> monthStart l m" and "monthStart l (m + 1) \<le> 365 + l"
  using month_cases [OF assms(1,2)] assms(3)
  by (elim disjE; simp add: monthStart_def)+

lemma MakeDay_month:
  assumes "0 \<le> m" "m \<le> 11"
  shows "MakeDay y m dt = DayFromYear y + monthStart (InLeapYear y) m + dt - 1"
proof -
  have "m div 12 = 0" "m mod 12 = m" using assms by simp_all
  then show ?thesis by (simp add: MakeDay_def)
qed

lemma month_lookup:
  assumes "0 \<le> m" "m \<le> 11" "l = 0 \<or> l = 1"
    and "monthStart l m \<le> w" "w < monthStart l (m + 1)"
  shows "(if w < 31 then 0 else if w < 59 + l then 1 else if w < 90 + l then 2
      else if w < 120 + l then 3 else if w < 151 + l then 4 else if w < 181 + l then 5
      else if w < 212 + l then 6 else if w < 243 + l then 7 else if w < 273 + l then 8
      else if w < 304 + l then 9 else if w < 334 + l then 10 else (11::int)) = m"
  using month_cases [OF assms(1,2)] assms(3,4,5)
  by (elim disjE) (simp_all add: monthStart_def)

lemma civil_MakeDay:
  assumes "0 \<le> m" "m \<le> 11" "1 \<le> dt" "dt \<le> DaysInMonth y m"
  shows "YearFromDay (MakeDay y m dt) = y"
    and "MonthFromDay (MakeDay y m dt) = m"
    and "DateFromDay (MakeDay y m dt) = dt"
proof -
  define l where "l = InLeapYear y"
  define w where "w = monthStart l m + dt - 1"
  have l: "l = 0 \<or> l = 1" unfolding l_def by (rule InLeapYear_cases)
  have md: "MakeDay y m dt = DayFromYear y + w"
    using MakeDay_month [OF assms(1,2)] by (simp add: w_def l_def)
  have w: "monthStart l m \<le> w" "w < monthStart l (m + 1)"
    using assms(3,4) by (simp_all add: w_def DaysInMonth_def l_def)
  have "0 \<le> w" "w < DaysInYear y"
    using w DaysInMonth_bounds(3,4) [OF assms(1,2) l]
    by (simp_all add: DaysInYear_InLeapYear l_def)
  then show y: "YearFromDay (MakeDay y m dt) = y"
    unfolding md by (intro YearFromDay_unique) (simp_all add: DayFromYear_Suc)
  have dwy: "DayWithinYear (MakeDay y m dt) = w"
    using y by (simp add: DayWithinYear_def md)
  show mo: "MonthFromDay (MakeDay y m dt) = m"
    using month_lookup [OF assms(1,2) l w]
    by (simp only: MonthFromDay_def dwy y Let_def l_def)
  show "DateFromDay (MakeDay y m dt) = dt"
    by (simp add: DateFromDay_def dwy mo y w_def l_def)
qed

lemma MakeDay_add: "MakeDay y m (dt + k) = MakeDay y m dt + k"
  by (simp add: MakeDay_def Let_def)

lemma Day_mult [simp]: "Day (d * msPerDay) = d"
  by (simp add: Day_def msPerDay_def)

lemma TimeWithinDay_mult [simp]: "TimeWithinDay (d * msPerDay) = 0"
  by (simp add: TimeWithinDay_def)

lemma TimeClip_days:
  "TimeClip (d * msPerDay) = (if \<bar>d\<bar> \<le> 100000000 then Some (d * msPerDay) else None)"
  by (simp add: TimeClip_def msPerDay_def abs_le_iff)

text \<open>The years all of whose days, and the week after them, are time values.\<close>

definition yearInRange :: "int \<Rightarrow> bool" where
  "yearInRange y = (- 271820 \<le> y \<and> y \<le> 275759)"

lemma DayFromYear_range:
  assumes "yearInRange y"
  shows "- 99999744 \<le> DayFromYear y" "DayFromYear (y + 1) \<le> 99999744"
proof -
  have "DayFromYear (- 271820) \<le> DayFromYear y"
    using assms by (intro DayFromYear_mono) (simp add: yearInRange_def)
  then show "- 99999744 \<le> DayFromYear y" by (simp add: DayFromYear_def)
  have "DayFromYear (y + 1) \<le> DayFromYear 275760"
    using assms by (intro DayFromYear_mono) (simp add: yearInRange_def)
  then show "DayFromYear (y + 1) \<le> 99999744" by (simp add: DayFromYear_def)
qed

lemma getUTCFullYear_days [simp]: "getUTCFullYear (Some (d * msPerDay)) = Some (YearFromDay d)"
  by (simp add: getUTCFullYear_def)

lemma getUTCMonth_days [simp]: "getUTCMonth (Some (d * msPerDay)) = Some (MonthFromDay d)"
  by (simp add: getUTCMonth_def)

lemma getUTCDate_days [simp]: "getUTCDate (Some (d * msPerDay)) = Some (DateFromDay d)"
  by (simp add: getUTCDate_def)

lemma getUTCDay_days [simp]: "getUTCDay (Some (d * msPerDay)) = Some (WeekDay d)"
  by (simp add: getUTCDay_def)

lemma setUTCDate_days:
  "setUTCDate (Some (d * msPerDay)) (nadd (getUTCDate (Some (d * msPerDay))) (Some k)) =
     (if \<bar>d + k\<bar> \<le> 100000000 then Some ((d + k) * msPerDay) else None)"
proof -
  have "d * msPerDay + k * msPerDay = (d + k) * msPerDay" by (simp add: algebra_simps)
  then show ?thesis by (simp only: setUTCDate_shift TimeClip_days)
qed

lemma setUTCDate_days' [simp]:
  "setUTCDate (Some (d * msPerDay)) (nadd (Some (DateFromDay d)) (Some k)) =
     (if \<bar>d + k\<bar> \<le> 100000000 then Some ((d + k) * msPerDay) else None)"
  using setUTCDate_days [of d k] by simp

lemma day_in_range:
  assumes "yearInRange (YearFromDay d)"
  shows "- 99999744 \<le> d" "d < 99999744"
  using DayFromYear_range [OF assms] YearFromDay_bounds [of d] by simp_all

lemma DateUTC_month:
  assumes "\<not> (0 \<le> y \<and> y \<le> 99)"
  shows "DateUTC (Some y) (Some m) (Some dt) = TimeClip (MakeDay y m dt * msPerDay)"
  using assms by (auto simp: DateUTC_def Let_def)

lemma DateUTC_civil:
  assumes "\<not> (0 \<le> YearFromDay d \<and> YearFromDay d \<le> 99)" "\<bar>d\<bar> \<le> 100000000"
  shows "DateUTC (Some (YearFromDay d)) (Some (MonthFromDay d)) (Some (DateFromDay d)) =
         Some (d * msPerDay)"
  using assms MakeDay_civil [of d 0] by (simp add: DateUTC_month TimeClip_days)

text \<open>A date that is invalid stays invalid, so the search never ends on it.\<close>

lemma findStart_valid:
  assumes "findStart year startMonth startDayOfWeek date = Some r"
  shows "date \<noteq> None"
proof (rule findStart.raw_induct [where P = "\<lambda>y m w d r. d \<noteq> None", OF _ assms])
  fix f :: "int \<Rightarrow> int \<Rightarrow> int \<Rightarrow> Date \<Rightarrow> Date option"
    and y m w :: int and d r' :: Date
  assume ih: "\<And>y' m' w' d' r. f y' m' w' d' = Some r \<Longrightarrow> d' \<noteq> None"
  assume st: "(if getUTCDay d \<noteq> Some w
           then if ngt (getUTCFullYear (setUTCDate d (nadd (getUTCDate d) (Some 1)))) (Some y) \<or>
                   getUTCFullYear (setUTCDate d (nadd (getUTCDate d) (Some 1))) = Some y \<and>
                   ngt (getUTCMonth (setUTCDate d (nadd (getUTCDate d) (Some 1)))) (Some m)
                then Some (setUTCDate (DateUTC (Some y) (Some m) (Some 1))
                        (nadd (getUTCDate (DateUTC (Some y) (Some m) (Some 1)))
                          (nrem (nadd (nsub (Some w) (getUTCDay (DateUTC (Some y) (Some m) (Some 1))))
                              (Some 7)) 7)))
                else f y m w (setUTCDate d (nadd (getUTCDate d) (Some 1)))
           else Some d) = Some r'"
  show "d \<noteq> None"
  proof
    assume n: "d = None"
    from st have "f y m w None = Some r'"
      by (simp add: n getUTCDay_def getUTCFullYear_def ngt_def split: if_splits)
    from ih [OF this] show False by simp
  qed
qed

lemma findStart_invalid: "findStart year startMonth startDayOfWeek None = None"
  using findStart_valid [of year startMonth startDayOfWeek None]
  by (cases "findStart year startMonth startDayOfWeek None") auto

lemma findStart_found:
  "WeekDay d = w \<Longrightarrow> findStart y m w (Some (d * msPerDay)) = Some (Some (d * msPerDay))"
  by (subst findStart.simps) simp

lemma findStart_next:
  assumes "WeekDay d \<noteq> w" "\<bar>d + 1\<bar> \<le> 100000000"
    and "YearFromDay (d + 1) = y" "MonthFromDay (d + 1) = m"
  shows "findStart y m w (Some (d * msPerDay)) = findStart y m w (Some ((d + 1) * msPerDay))"
  by (subst findStart.simps) (simp add: assms ngt_def)

lemma findStart_walk:
  fixes d0 k :: int
  assumes ym: "\<And>i. 0 \<le> i \<Longrightarrow> i \<le> 6 \<Longrightarrow>
      YearFromDay (d0 + i) = y \<and> MonthFromDay (d0 + i) = m \<and> \<bar>d0 + i\<bar> \<le> 100000000"
    and k: "k \<le> 6" "WeekDay (d0 + k) = w"
      "\<And>i. 0 \<le> i \<Longrightarrow> i < k \<Longrightarrow> WeekDay (d0 + i) \<noteq> w"
  shows "0 \<le> j \<Longrightarrow> j \<le> k \<Longrightarrow> nat (k - j) = n \<Longrightarrow>
    findStart y m w (Some ((d0 + j) * msPerDay)) = Some (Some ((d0 + k) * msPerDay))"
proof (induction n arbitrary: j)
  case 0
  then have "j = k" by simp
  then show ?case using k(2) by (simp add: findStart_found)
next
  case (Suc n)
  then have j: "0 \<le> j" "j < k" by simp_all
  have "findStart y m w (Some ((d0 + j) * msPerDay)) =
        findStart y m w (Some ((d0 + j + 1) * msPerDay))"
    using k(3) [OF j] ym [of "j + 1"] j k(1)
    by (intro findStart_next) (simp_all add: add.assoc)
  also have "\<dots> = Some (Some ((d0 + k) * msPerDay))"
    using Suc.IH [of "j + 1"] j Suc.prems by (simp add: add.assoc)
  finally show ?case .
qed

lemma weekday_offset:
  assumes "0 \<le> w" "w \<le> 6"
  shows "WeekDay (d + (w - WeekDay d) mod 7) = w"
    and "0 \<le> i \<Longrightarrow> i < (w - WeekDay d) mod 7 \<Longrightarrow> WeekDay (d + i) \<noteq> w"
proof -
  define a where "a = (d + 4) mod 7"
  have "d + (w - a) mod 7 + 4 = (d + 4) + (w - a) mod 7" by linarith
  then have "(d + (w - a) mod 7 + 4) mod 7 = ((d + 4) + (w - a) mod 7) mod 7"
    by (rule arg_cong)
  also have "\<dots> = ((d + 4) + (w - a)) mod 7" by (rule mod_add_right_eq)
  also have "\<dots> = ((d + 4) mod 7 + (w - a)) mod 7" by (rule mod_add_left_eq [symmetric])
  also have "\<dots> = w mod 7" by (simp add: a_def)
  also have "\<dots> = w" using assms by simp
  finally show "WeekDay (d + (w - WeekDay d) mod 7) = w" by (simp add: WeekDay_def a_def)
  show "WeekDay (d + i) \<noteq> w" if i: "0 \<le> i" "i < (w - WeekDay d) mod 7"
  proof
    assume e: "WeekDay (d + i) = w"
    have "(w - WeekDay d) mod 7 = ((d + i + 4) mod 7 - (d + 4) mod 7) mod 7"
      using e by (simp add: WeekDay_def)
    also have "\<dots> = ((d + i + 4) - (d + 4)) mod 7" by (simp only: mod_diff_eq)
    also have "\<dots> = i mod 7" by simp
    finally have "(w - WeekDay d) mod 7 = i mod 7" .
    moreover have "(w - WeekDay d) mod 7 \<le> 6" by simp
    ultimately show False using i by simp
  qed
qed

lemma month_first_week:
  assumes "0 \<le> m" "m \<le> 11" "0 \<le> i" "i \<le> 6"
  shows "YearFromDay (MakeDay y m 1 + i) = y" "MonthFromDay (MakeDay y m 1 + i) = m"
    "DateFromDay (MakeDay y m 1 + i) = 1 + i"
proof -
  have "28 \<le> DaysInMonth y m"
    unfolding DaysInMonth_def
    by (rule DaysInMonth_bounds(1) [OF assms(1,2) InLeapYear_cases])
  then have "1 + i \<le> DaysInMonth y m" using assms(4) by simp
  then show "YearFromDay (MakeDay y m 1 + i) = y" "MonthFromDay (MakeDay y m 1 + i) = m"
    "DateFromDay (MakeDay y m 1 + i) = 1 + i"
    using civil_MakeDay [OF assms(1,2), of "1 + i" y] assms(3) by (simp_all add: MakeDay_add)
qed

text \<open>In a year of the range that is not one of 0 to 99, the search returns the first
  day of the start month that falls on the start weekday.\<close>

lemma findStart_first:
  assumes "yearInRange y" "\<not> (0 \<le> y \<and> y \<le> 99)" "0 \<le> m" "m \<le> 11" "0 \<le> w" "w \<le> 6"
  shows "findStart y m w (DateUTC (Some y) (Some m) (Some 1)) =
         Some (Some ((MakeDay y m 1 + (w - WeekDay (MakeDay y m 1)) mod 7) * msPerDay))"
proof -
  define d0 where "d0 = MakeDay y m 1"
  define k where "k = (w - WeekDay d0) mod 7"
  have k: "0 \<le> k" "k \<le> 6" by (simp_all add: k_def)
  have ym: "YearFromDay (d0 + i) = y \<and> MonthFromDay (d0 + i) = m \<and> \<bar>d0 + i\<bar> \<le> 100000000"
    if "0 \<le> i" "i \<le> 6" for i
  proof -
    have yy: "YearFromDay (d0 + i) = y" and mm: "MonthFromDay (d0 + i) = m"
      using month_first_week [OF assms(3,4) that] by (simp_all add: d0_def)
    have "yearInRange (YearFromDay (d0 + i))" using yy assms(1) by simp
    from day_in_range [OF this] show ?thesis using yy mm by simp
  qed
  have d: "DateUTC (Some y) (Some m) (Some 1) = Some (d0 * msPerDay)"
    using ym [of 0] by (simp add: DateUTC_month [OF assms(2)] TimeClip_days d0_def)
  have "findStart y m w (Some ((d0 + 0) * msPerDay)) = Some (Some ((d0 + k) * msPerDay))"
    using weekday_offset [OF assms(5,6), where d = d0] k
    by (intro findStart_walk [where n = "nat k"]) (simp_all add: ym k_def)
  then show ?thesis by (simp add: d d0_def k_def)
qed

text \<open>In a year from 0 to 99 the first of the month is read as a day of 1900 + year;
  the search returns then, too.\<close>

lemma findStart_century:
  assumes "0 \<le> y" "y \<le> 99" "0 \<le> m" "m \<le> 11"
  shows "\<exists>r. findStart y m w (DateUTC (Some y) (Some m) (Some 1)) = Some r"
proof -
  define d0 where "d0 = MakeDay (1900 + y) m 1"
  have r: "yearInRange (1900 + y)" using assms by (simp add: yearInRange_def)
  have y0: "YearFromDay d0 = 1900 + y" "YearFromDay (d0 + 1) = 1900 + y"
    using month_first_week(1) [OF assms(3,4), of 0 "1900 + y"]
      month_first_week(1) [OF assms(3,4), of 1 "1900 + y"] by (simp_all add: d0_def)
  have b: "\<bar>d0\<bar> \<le> 100000000" "\<bar>d0 + 1\<bar> \<le> 100000000"
    using day_in_range [of d0] day_in_range [of "d0 + 1"] r y0 by simp_all
  have d: "DateUTC (Some y) (Some m) (Some 1) = Some (d0 * msPerDay)"
    using assms b by (simp add: DateUTC_def TimeClip_days d0_def)
  show ?thesis
    unfolding d
    by (subst findStart.simps) (simp add: b y0 ngt_def assms)
qed

lemma findStart_returns:
  assumes "yearInRange y" "0 \<le> m" "m \<le> 11" "0 \<le> w" "w \<le> 6"
  shows "\<exists>r. findStart y m w (DateUTC (Some y) (Some m) (Some 1)) = Some r"
proof (cases "0 \<le> y \<and> y \<le> 99")
  case True
  then show ?thesis using findStart_century assms by simp
next
  case False
  then show ?thesis using findStart_first [OF assms(1) False assms(2-5)] by simp
qed

section \<open>The fair assignment engine\<close>

text \<open>
  The counters hold numbers: a count, or the \<^verbatim>\<open>-Infinity\<close> that marks a person never
  assigned. The comparator of the sort subtracts them, so its result ranges over the
  integers, both infinities and NaN.
\<close>

datatype jsnum = NaN | NegInfinity | PosInfinity | Finite int

fun jsub :: "jsnum \<Rightarrow> jsnum \<Rightarrow> jsnum" where
  "jsub NaN _ = NaN"
| "jsub _ NaN = NaN"
| "jsub (Finite a) (Finite b) = Finite (a - b)"
| "jsub (Finite a) NegInfinity = PosInfinity"
| "jsub (Finite a) PosInfinity = NegInfinity"
| "jsub NegInfinity NegInfinity = NaN"
| "jsub NegInfinity _ = NegInfinity"
| "jsub PosInfinity PosInfinity = NaN"
| "jsub PosInfinity _ = PosInfinity"

fun isPositive :: "jsnum \<Rightarrow> bool" where
  "isPositive PosInfinity = True"
| "isPositive (Finite n) = (0 < n)"
| "isPositive _ = False"

record Counts =
  total :: int
  holiday :: int
  lastAssigned :: "jsnum option"

type_synonym HolidayCounts = "int \<rightharpoonup> Counts"

text \<open>The comparator of \<^verbatim>\<open>availablePeople.sort\<close>, on the counters of the two people.\<close>

definition compareCounts :: "Counts \<Rightarrow> Counts \<Rightarrow> jsnum" where
  "compareCounts countA countB =
     (if total countA \<noteq> total countB then Finite (total countA - total countB)
      else if holiday countA \<noteq> holiday countB then Finite (holiday countA - holiday countB)
      else jsub (case lastAssigned countA of None \<Rightarrow> NegInfinity | Some v \<Rightarrow> v)
                (case lastAssigned countB of None \<Rightarrow> NegInfinity | Some v \<Rightarrow> v))"

text \<open>
  \<^verbatim>\<open>Array.prototype.sort\<close> is stable, and a comparator result that is NaN counts as
  zero. For a comparator that orders its arguments consistently the sorted array is
  therefore the one a stable insertion sort gives: an element moves behind another
  only when the comparator is positive.
\<close>

fun insertSorted :: "('a \<Rightarrow> 'a \<Rightarrow> jsnum) \<Rightarrow> 'a \<Rightarrow> 'a list \<Rightarrow> 'a list" where
  "insertSorted cmp x [] = [x]"
| "insertSorted cmp x (y # ys) =
     (if isPositive (cmp x y) then y # insertSorted cmp x ys else x # y # ys)"

definition sortStable :: "('a \<Rightarrow> 'a \<Rightarrow> jsnum) \<Rightarrow> 'a list \<Rightarrow> 'a list" where
  "sortStable cmp xs = foldr (insertSorted cmp) xs []"

definition isPersonOnLeave :: "platform \<Rightarrow> Person list \<Rightarrow> int \<Rightarrow> Date \<Rightarrow> Date \<Rightarrow> bool" where
  "isPersonOnLeave P people personId start_date end_date =
     (case find (\<lambda>p. person_id p = personId) people of
        None \<Rightarrow> False
      | Some person \<Rightarrow>
          list_ex (\<lambda>leave.
             let leaveStart = newDate P (leave_start leave @ ''T00:00:00Z'');
                 leaveEnd = newDate P (leave_end leave @ ''T00:00:00Z'');
                 startUTC = DateUTC (getFullYear P start_date) (getMonth P start_date) (getDate P start_date);
                 endUTC = DateUTC (getFullYear P end_date) (getMonth P end_date) (getDate P end_date)
             in dle leaveStart endUTC \<and> dge leaveEnd startUTC) (person_leave person))"

definition initialCounts :: "Person list \<Rightarrow> HolidayCounts" where
  "initialCounts people =
     fold (\<lambda>person counts.
        counts(person_id person \<mapsto> \<lparr> total = 0, holiday = 0, lastAssigned = Some NegInfinity \<rparr>))
       people Map.empty"

definition availablePeople :: "platform \<Rightarrow> Person list \<Rightarrow> Week \<Rightarrow> Person list" where
  "availablePeople P people week =
     filter (\<lambda>person. \<not> isPersonOnLeave P people (person_id person) (startDate week) (endDate week))
       people"

text \<open>
  The body of the \<^verbatim>\<open>map\<close> over the schedule, for the week at position \<open>index\<close>: the
  new week and the counters after it. Reading the counter of a person who has none
  throws a TypeError, which is the result \<open>None\<close>; the comparator reads the counter
  of every available person, and the update reads the counter of the chosen one.
\<close>

definition assignWeek ::
  "platform \<Rightarrow> Person list \<Rightarrow> Holiday list \<Rightarrow> HolidayCounts \<Rightarrow> int \<Rightarrow> Week
     \<Rightarrow> (Week \<times> HolidayCounts) option" where
  "assignWeek P people holidayList counts index week =
     (if isHolidayPeriod week then Some (week, counts)
      else if availablePeople P people week = [] then
        Some (week\<lparr> assignedTo := Status ''No one available'' \<rparr>, counts)
      else
        (case those (map (\<lambda>person. counts (person_id person)) (availablePeople P people week)) of
           None \<Rightarrow> None
         | Some cs \<Rightarrow>
            (case sortStable (\<lambda>a b. compareCounts (snd a) (snd b))
                    (zip (availablePeople P people week) cs) of
               [] \<Rightarrow> None
             | (assignedPerson, c) # _ \<Rightarrow>
                 (let assignedPersonId = person_id assignedPerson;
                      currentWeekHasHoliday =
                        weekContainsHoliday P (startDate week) (endDate week) holidayList
                  in Some (week\<lparr> assignedTo := PersonId assignedPersonId,
                                  hasHoliday := currentWeekHasHoliday \<rparr>,
                           counts(assignedPersonId \<mapsto>
                             \<lparr> total = total c + 1,
                               holiday = (if currentWeekHasHoliday then holiday c + 1 else holiday c),
                               lastAssigned = Some (Finite index) \<rparr>))))))"

fun assignLoop ::
  "platform \<Rightarrow> Person list \<Rightarrow> Holiday list \<Rightarrow> HolidayCounts \<Rightarrow> int \<Rightarrow> Week list
     \<Rightarrow> (Week list \<times> HolidayCounts) option" where
  "assignLoop P people holidayList counts index [] = Some ([], counts)"
| "assignLoop P people holidayList counts index (week # rest) =
     (case assignWeek P people holidayList counts index week of
        None \<Rightarrow> None
      | Some (week', counts') \<Rightarrow>
          (case assignLoop P people holidayList counts' (index + 1) rest of
             None \<Rightarrow> None
           | Some (rest', counts'') \<Rightarrow> Some (week' # rest', counts'')))"

text \<open>The state of the component that the engine reads and writes.\<close>

record State =
  st_year :: int
  st_startDayOfWeek :: int
  st_startMonth :: int
  st_people :: "Person list"
  st_schedule :: "Week list"
  st_holidays :: "Holiday list"
  st_holidayCounts :: HolidayCounts

text \<open>\<^verbatim>\<open>assignPeopleToWeeks\<close> sets the schedule and the counters, without the
  \<^verbatim>\<open>lastAssigned\<close> field.\<close>

definition assignPeopleToWeeks ::
  "platform \<Rightarrow> State \<Rightarrow> Week list \<Rightarrow> Holiday list \<Rightarrow> State option" where
  "assignPeopleToWeeks P st currentSchedule holidayList =
     (case assignLoop P (st_people st) holidayList (initialCounts (st_people st)) 0 currentSchedule of
        None \<Rightarrow> None
      | Some (updatedSchedule, counts) \<Rightarrow>
          Some (st\<lparr> st_schedule := updatedSchedule,
                    st_holidayCounts :=
                      (\<lambda>personId. map_option (\<lambda>c. \<lparr> total = total c, holiday = holiday c,
                                                     lastAssigned = None \<rparr>) (counts personId)) \<rparr>))"

text \<open>\<^verbatim>\<open>generateSchedule\<close>: \<open>None\<close> when the search for the first week never returns
  (or a counter is missing, which \<open>assignLoop_total\<close> excludes).\<close>

definition generateSchedule :: "platform \<Rightarrow> State \<Rightarrow> Holiday list \<Rightarrow> State option" where
  "generateSchedule P st holidayList =
     (case generateWeeks P (st_year st) (st_startMonth st) (st_startDayOfWeek st) holidayList of
        None \<Rightarrow> None
      | Some newSchedule \<Rightarrow> assignPeopleToWeeks P st newSchedule holidayList)"

subsection \<open>The order the engine selects by\<close>

text \<open>
  The selection rule in the words of the specification: a lexicographic order on
  (a) the total of duties, (b) the holiday duties, (c) the index of the last
  assignment, where never assigned (\<^verbatim>\<open>-Infinity\<close>) is before every index.
\<close>

fun jsless :: "jsnum \<Rightarrow> jsnum \<Rightarrow> bool" where
  "jsless NaN _ = False"
| "jsless _ NaN = False"
| "jsless (Finite a) (Finite b) = (a < b)"
| "jsless NegInfinity NegInfinity = False"
| "jsless NegInfinity _ = True"
| "jsless _ NegInfinity = False"
| "jsless PosInfinity _ = False"
| "jsless _ PosInfinity = True"

definition lastIndex :: "Counts \<Rightarrow> jsnum" where
  "lastIndex c = (case lastAssigned c of None \<Rightarrow> NegInfinity | Some v \<Rightarrow> v)"

definition keyLess :: "Counts \<Rightarrow> Counts \<Rightarrow> bool" where
  "keyLess a b =
     (total a < total b
      \<or> (total a = total b
          \<and> (holiday a < holiday b
              \<or> (holiday a = holiday b \<and> jsless (lastIndex a) (lastIndex b)))))"

text \<open>The counters of a run: the last index is \<^verbatim>\<open>-Infinity\<close> or an index.\<close>

definition runCounter :: "Counts \<Rightarrow> bool" where
  "runCounter c = (lastAssigned c = Some NegInfinity \<or> (\<exists>i. lastAssigned c = Some (Finite i)))"

lemma isPositive_jsub: "isPositive (jsub x y) = jsless y x"
  by (cases x; cases y) auto

lemma compareCounts_positive: "isPositive (compareCounts a b) = keyLess b a"
  by (auto simp: compareCounts_def keyLess_def lastIndex_def isPositive_jsub)

lemma keyLess_irrefl: "runCounter a \<Longrightarrow> \<not> keyLess a a"
  by (auto simp: keyLess_def runCounter_def lastIndex_def)

lemma jsless_run_asym:
  assumes "x = NegInfinity \<or> (\<exists>i. x = Finite i)" "y = NegInfinity \<or> (\<exists>i. y = Finite i)"
  shows "jsless x y \<Longrightarrow> \<not> jsless y x"
  using assms by auto

lemma jsless_run_negtrans:
  assumes "x = NegInfinity \<or> (\<exists>i. x = Finite i)" "y = NegInfinity \<or> (\<exists>i. y = Finite i)"
    "z = NegInfinity \<or> (\<exists>i. z = Finite i)"
  shows "\<not> jsless x y \<Longrightarrow> \<not> jsless y z \<Longrightarrow> \<not> jsless x z"
  using assms by auto

lemma lastIndex_run:
  "runCounter c \<Longrightarrow> lastIndex c = NegInfinity \<or> (\<exists>i. lastIndex c = Finite i)"
  by (auto simp: runCounter_def lastIndex_def)

lemma keyLess_asym:
  assumes "runCounter a" "runCounter b" "keyLess a b"
  shows "\<not> keyLess b a"
  using assms(3) jsless_run_asym [OF lastIndex_run [OF assms(1)] lastIndex_run [OF assms(2)]]
  by (auto simp: keyLess_def)

lemma keyLess_negtrans:
  assumes "runCounter a" "runCounter b" "runCounter c" "\<not> keyLess a b" "\<not> keyLess b c"
  shows "\<not> keyLess a c"
proof -
  note j = jsless_run_negtrans [OF lastIndex_run [OF assms(1)] lastIndex_run [OF assms(2)]
      lastIndex_run [OF assms(3)]]
  have 1: "total b \<le> total a" using assms(4) by (auto simp: keyLess_def)
  have 2: "total c \<le> total b" using assms(5) by (auto simp: keyLess_def)
  show ?thesis
  proof (cases "total a = total c")
    case False
    then show ?thesis using 1 2 by (auto simp: keyLess_def)
  next
    case True
    then have t: "total a = total b" "total b = total c" using 1 2 by simp_all
    have 3: "holiday b \<le> holiday a" using assms(4) t by (auto simp: keyLess_def)
    have 4: "holiday c \<le> holiday b" using assms(5) t by (auto simp: keyLess_def)
    show ?thesis
    proof (cases "holiday a = holiday c")
      case False
      then show ?thesis using 3 4 t by (auto simp: keyLess_def)
    next
      case True
      then have h: "holiday a = holiday b" "holiday b = holiday c" using 3 4 by simp_all
      have "\<not> jsless (lastIndex a) (lastIndex b)" using assms(4) t h by (simp add: keyLess_def)
      moreover have "\<not> jsless (lastIndex b) (lastIndex c)"
        using assms(5) t h by (simp add: keyLess_def)
      ultimately have "\<not> jsless (lastIndex a) (lastIndex c)" by (rule j)
      then show ?thesis using t h by (simp add: keyLess_def)
    qed
  qed
qed

subsection \<open>The head of the sorted list\<close>

lemma insertSorted_not_Nil [simp]: "insertSorted cmp x ys \<noteq> []"
  by (cases ys) auto

lemma hd_insertSorted:
  "ys \<noteq> [] \<Longrightarrow> hd (insertSorted cmp x ys) = (if isPositive (cmp x (hd ys)) then hd ys else x)"
  by (cases ys) auto

lemma length_insertSorted [simp]: "length (insertSorted cmp x ys) = Suc (length ys)"
  by (induction ys) auto

lemma length_sortStable [simp]: "length (sortStable cmp xs) = length xs"
  by (induction xs) (auto simp: sortStable_def)

lemma sortStable_Cons: "sortStable cmp (x # xs) = insertSorted cmp x (sortStable cmp xs)"
  by (simp add: sortStable_def)

lemma sortStable_Nil_iff [simp]: "sortStable cmp xs = [] \<longleftrightarrow> xs = []"
  using length_sortStable [of cmp xs] by (metis length_0_conv)

text \<open>
  The first element after the sort is the first element of the list, in the list's
  own order, that no other element is before.
\<close>

lemma hd_sortStable:
  fixes key :: "'a \<Rightarrow> Counts"
  assumes "xs \<noteq> []" "\<forall>x\<in>set xs. runCounter (key x)"
  shows "\<exists>pre post. xs = pre @ hd (sortStable (\<lambda>a b. compareCounts (key a) (key b)) xs) # post
           \<and> (\<forall>q\<in>set pre. keyLess (key (hd (sortStable (\<lambda>a b. compareCounts (key a) (key b)) xs))) (key q))
           \<and> (\<forall>q\<in>set xs. \<not> keyLess (key q) (key (hd (sortStable (\<lambda>a b. compareCounts (key a) (key b)) xs))))"
  using assms
proof (induction xs)
  case Nil
  then show ?case by simp
next
  case (Cons x xs)
  let ?cmp = "\<lambda>a b. compareCounts (key a) (key b)"
  show ?case
  proof (cases "xs = []")
    case True
    have "sortStable ?cmp [x] = [x]" by (simp add: sortStable_def)
    moreover have "[x] = [] @ x # []" by simp
    ultimately show ?thesis using True Cons.prems keyLess_irrefl [of "key x"]
      by (metis empty_iff list.sel(1) list.set(1) set_ConsD)
  next
    case False
    define m where "m = hd (sortStable ?cmp xs)"
    from Cons.IH [OF False] Cons.prems(2)
    obtain pre post where ih: "xs = pre @ m # post" "\<forall>q\<in>set pre. keyLess (key m) (key q)"
      "\<forall>q\<in>set xs. \<not> keyLess (key q) (key m)"
      unfolding m_def by auto
    have rm: "runCounter (key m)" "runCounter (key x)"
      using ih(1) Cons.prems(2) by auto
    have hd: "hd (sortStable ?cmp (x # xs)) = (if keyLess (key m) (key x) then m else x)"
      using False by (simp add: sortStable_Cons hd_insertSorted compareCounts_positive m_def)
    show ?thesis
    proof (cases "keyLess (key m) (key x)")
      case True
      have "x # xs = (x # pre) @ m # post" using ih(1) by simp
      moreover have "\<forall>q\<in>set (x # pre). keyLess (key m) (key q)" using ih(2) True by simp
      moreover have "\<forall>q\<in>set (x # xs). \<not> keyLess (key q) (key m)"
        using ih(3) keyLess_asym [OF rm True] by simp
      ultimately show ?thesis unfolding hd using True by (simp only: if_True) blast
    next
      case F: False
      have "\<not> keyLess (key q) (key x)" if "q \<in> set xs" for q
        using keyLess_negtrans [of "key q" "key m" "key x"] ih(3) F rm that Cons.prems(2)
        by auto
      moreover have "\<not> keyLess (key x) (key x)" using keyLess_irrefl rm by simp
      ultimately have "\<forall>q\<in>set (x # xs). \<not> keyLess (key q) (key x)" by simp
      moreover have "x # xs = [] @ x # xs" by simp
      ultimately show ?thesis unfolding hd using F
        by (simp only: if_False) (metis empty_iff list.set(1))
    qed
  qed
qed

subsection \<open>One week of the run\<close>

text \<open>The invariant of the counters in a run: every person of the roster has a
  counter, and every counter is one of a run.\<close>

definition countersFor :: "Person list \<Rightarrow> HolidayCounts \<Rightarrow> bool" where
  "countersFor people counts =
     ((\<forall>p\<in>set people. \<exists>c. counts (person_id p) = Some c)
      \<and> (\<forall>k c. counts k = Some c \<longrightarrow> runCounter c))"

lemma fold_initial:
  "fold (\<lambda>person counts. counts(person_id person \<mapsto> v)) ps m =
     (\<lambda>k. if k \<in> person_id ` set ps then Some v else m k)"
  by (induction ps arbitrary: m) (auto simp: fun_eq_iff)

lemma initialCounts_eq:
  "initialCounts people =
     (\<lambda>k. if k \<in> person_id ` set people
           then Some \<lparr> total = 0, holiday = 0, lastAssigned = Some NegInfinity \<rparr> else None)"
  by (simp add: initialCounts_def fold_initial)

lemma countersFor_initial: "countersFor people (initialCounts people)"
  by (auto simp: countersFor_def initialCounts_eq runCounter_def)

lemma those_map_Some:
  "\<forall>x\<in>set xs. \<exists>y. f x = Some y \<Longrightarrow> those (map f xs) = Some (map (\<lambda>x. the (f x)) xs)"
  by (induction xs) auto

lemma zip_map_self: "zip xs (map g xs) = map (\<lambda>x. (x, g x)) xs"
  by (induction xs) auto

lemma availablePeople_subset: "set (availablePeople P people week) \<subseteq> set people"
  by (auto simp: availablePeople_def)

lemma assignWeek_blackout:
  "isHolidayPeriod week \<Longrightarrow> assignWeek P people holidayList counts index week = Some (week, counts)"
  by (simp add: assignWeek_def)

lemma assignWeek_unavailable:
  "\<not> isHolidayPeriod week \<Longrightarrow> availablePeople P people week = [] \<Longrightarrow>
   assignWeek P people holidayList counts index week =
     Some (week\<lparr> assignedTo := Status ''No one available'' \<rparr>, counts)"
  by (simp add: assignWeek_def)

lemma assignWeek_chosen:
  assumes nb: "\<not> isHolidayPeriod week" and av: "availablePeople P people week \<noteq> []"
    and inv: "countersFor people counts"
  shows "\<exists>p c pre post.
      availablePeople P people week = pre @ p # post
      \<and> counts (person_id p) = Some c
      \<and> (\<forall>q\<in>set pre. \<forall>cq. counts (person_id q) = Some cq \<longrightarrow> keyLess c cq)
      \<and> (\<forall>q\<in>set (availablePeople P people week).
            \<forall>cq. counts (person_id q) = Some cq \<longrightarrow> \<not> keyLess cq c)
      \<and> assignWeek P people holidayList counts index week =
          Some (week\<lparr> assignedTo := PersonId (person_id p),
                       hasHoliday := weekContainsHoliday P (startDate week) (endDate week) holidayList \<rparr>,
                counts(person_id p \<mapsto>
                  \<lparr> total = total c + 1,
                    holiday = (if weekContainsHoliday P (startDate week) (endDate week) holidayList
                               then holiday c + 1 else holiday c),
                    lastAssigned = Some (Finite index) \<rparr>))"
proof -
  define avail where "avail = availablePeople P people week"
  define g where "g = (\<lambda>p::Person. the (counts (person_id p)))"
  define xs where "xs = map (\<lambda>p. (p, g p)) avail"
  define sorted where "sorted = sortStable (\<lambda>a b. compareCounts (snd a) (snd b)) xs"
  have sub: "set avail \<subseteq> set people" unfolding avail_def by (rule availablePeople_subset)
  have has: "\<forall>p\<in>set avail. \<exists>c. counts (person_id p) = Some c"
    using inv sub by (auto simp: countersFor_def)
  have th: "those (map (\<lambda>person. counts (person_id person)) avail) = Some (map g avail)"
    unfolding g_def by (rule those_map_Some) (rule has)
  have zp: "zip avail (map g avail) = xs" by (simp add: xs_def zip_map_self)
  have ne: "xs \<noteq> []" using av by (simp add: xs_def avail_def)
  have rc: "\<forall>x\<in>set xs. runCounter (snd x)"
    using has inv by (auto simp: xs_def g_def countersFor_def)
  from hd_sortStable [OF ne rc]
  obtain pre' post' where h: "xs = pre' @ hd sorted # post'"
    "\<forall>q\<in>set pre'. keyLess (snd (hd sorted)) (snd q)"
    "\<forall>q\<in>set xs. \<not> keyLess (snd q) (snd (hd sorted))"
    unfolding sorted_def by blast
  obtain p c where pc: "hd sorted = (p, c)" by (cases "hd sorted")
  have sne: "sorted \<noteq> []" using ne by (simp add: sorted_def)
  then obtain rest where srt: "sorted = (p, c) # rest" using pc by (cases sorted) auto
  have "(p, c) \<in> set xs" using h(1) pc by simp
  then have pin: "p \<in> set avail" and cdef: "c = g p" by (auto simp: xs_def)
  have cp: "counts (person_id p) = Some c" using has pin cdef by (auto simp: g_def)
  have "map fst xs = avail" by (simp add: xs_def comp_def)
  then have dec: "avail = map fst pre' @ p # map fst post'" using h(1) pc by (metis fst_conv list.simps(9) map_append)
  have pre'_sub: "set pre' \<subseteq> set xs" using h(1) by auto
  have before: "\<forall>q\<in>set (map fst pre'). \<forall>cq. counts (person_id q) = Some cq \<longrightarrow> keyLess c cq"
  proof (intro ballI allI impI)
    fix q cq assume q: "q \<in> set (map fst pre')" and cq: "counts (person_id q) = Some cq"
    then obtain x where x: "x \<in> set pre'" "fst x = q" by auto
    then have "x \<in> set xs" using pre'_sub by auto
    then have "snd x = g q" using x(2) by (auto simp: xs_def)
    then have "snd x = cq" using cq by (simp add: g_def)
    then show "keyLess c cq" using h(2) x(1) pc by auto
  qed
  have minimal: "\<forall>q\<in>set avail. \<forall>cq. counts (person_id q) = Some cq \<longrightarrow> \<not> keyLess cq c"
  proof (intro ballI allI impI)
    fix q cq assume q: "q \<in> set avail" and cq: "counts (person_id q) = Some cq"
    then have "(q, cq) \<in> set xs" by (auto simp: xs_def g_def)
    then show "\<not> keyLess cq c" using h(3) pc by auto
  qed
  have "assignWeek P people holidayList counts index week =
          Some (week\<lparr> assignedTo := PersonId (person_id p),
                       hasHoliday := weekContainsHoliday P (startDate week) (endDate week) holidayList \<rparr>,
                counts(person_id p \<mapsto>
                  \<lparr> total = total c + 1,
                    holiday = (if weekContainsHoliday P (startDate week) (endDate week) holidayList
                               then holiday c + 1 else holiday c),
                    lastAssigned = Some (Finite index) \<rparr>))"
    using nb av th zp srt
    by (simp add: assignWeek_def avail_def [symmetric] sorted_def [symmetric] Let_def)
  then show ?thesis
    using dec cp before minimal unfolding avail_def by blast
qed

lemma assignWeek_cases:
  assumes "countersFor people counts"
  shows "\<exists>week' counts'. assignWeek P people holidayList counts index week = Some (week', counts')
     \<and> countersFor people counts'
     \<and> startDate week' = startDate week \<and> endDate week' = endDate week
     \<and> isHolidayPeriod week' = isHolidayPeriod week \<and> week_notes week' = week_notes week
     \<and> (isHolidayPeriod week \<longrightarrow> week' = week)"
proof (cases "isHolidayPeriod week")
  case True
  then show ?thesis using assms by (simp add: assignWeek_blackout)
next
  case nb: False
  show ?thesis
  proof (cases "availablePeople P people week = []")
    case True
    then show ?thesis using assms nb by (simp add: assignWeek_unavailable)
  next
    case False
    from assignWeek_chosen [OF nb False assms, of holidayList index]
    obtain p :: Person and c where pc: "counts (person_id p) = Some c"
      "assignWeek P people holidayList counts index week =
          Some (week\<lparr> assignedTo := PersonId (person_id p),
                       hasHoliday := weekContainsHoliday P (startDate week) (endDate week) holidayList \<rparr>,
                counts(person_id p \<mapsto>
                  \<lparr> total = total c + 1,
                    holiday = (if weekContainsHoliday P (startDate week) (endDate week) holidayList
                               then holiday c + 1 else holiday c),
                    lastAssigned = Some (Finite index) \<rparr>))"
      by blast
    have "countersFor people (counts(person_id p \<mapsto>
                  \<lparr> total = total c + 1,
                    holiday = (if weekContainsHoliday P (startDate week) (endDate week) holidayList
                               then holiday c + 1 else holiday c),
                    lastAssigned = Some (Finite index) \<rparr>))"
      using assms by (auto simp: countersFor_def runCounter_def)
    then show ?thesis using pc(2) nb by simp
  qed
qed

subsection \<open>The whole run\<close>

text \<open>What the assignment pass keeps of a week: its dates, its holiday period flag
  and its notes; a week of the holiday period it returns as it is.\<close>

definition keptWeek :: "Week \<Rightarrow> Week \<Rightarrow> bool" where
  "keptWeek week week' =
     (startDate week' = startDate week \<and> endDate week' = endDate week
      \<and> isHolidayPeriod week' = isHolidayPeriod week \<and> week_notes week' = week_notes week
      \<and> (isHolidayPeriod week \<longrightarrow> week' = week))"

lemma assignLoop_run:
  assumes "countersFor people counts"
  shows "\<exists>ws' counts'. assignLoop P people holidayList counts index ws = Some (ws', counts')
     \<and> countersFor people counts' \<and> list_all2 keptWeek ws ws'"
  using assms
proof (induction ws arbitrary: counts index)
  case Nil
  then show ?case by simp
next
  case (Cons week rest)
  from assignWeek_cases [OF Cons.prems, of P holidayList index week]
  obtain week' counts' where w:
    "assignWeek P people holidayList counts index week = Some (week', counts')"
    "countersFor people counts'" "keptWeek week week'"
    unfolding keptWeek_def by blast
  from Cons.IH [OF w(2), of "index + 1"]
  obtain rest' counts'' where r:
    "assignLoop P people holidayList counts' (index + 1) rest = Some (rest', counts'')"
    "countersFor people counts''" "list_all2 keptWeek rest rest'"
    by blast
  show ?case using w r by simp
qed

lemma assignLoop_append:
  "assignLoop P people holidayList counts index (xs @ ys) =
     (case assignLoop P people holidayList counts index xs of
        None \<Rightarrow> None
      | Some (xs', c1) \<Rightarrow>
          (case assignLoop P people holidayList c1 (index + int (length xs)) ys of
             None \<Rightarrow> None
           | Some (ys', c2) \<Rightarrow> Some (xs' @ ys', c2)))"
proof (induction xs arbitrary: counts index)
  case Nil
  show ?case by (simp split: option.splits)
next
  case (Cons x xs)
  show ?case
    by (simp add: Cons.IH add.assoc split: option.splits prod.splits)
qed

lemma assignLoop_length:
  "assignLoop P people holidayList counts index ws = Some (ws', counts') \<Longrightarrow> length ws' = length ws"
  by (induction ws arbitrary: counts index ws') (auto split: option.splits prod.splits)

subsection \<open>The generated weeks\<close>

lemma time_in_range:
  assumes "yearInRange (YearFromDay (Day t))" "0 \<le> k" "k \<le> 7"
  shows "TimeClip (t + k * msPerDay) = Some (t + k * msPerDay)"
proof -
  have d: "- 99999744 \<le> Day t" "Day t < 99999744" using day_in_range [OF assms(1)] by simp_all
  have "Day t * msPerDay \<le> t" "t < Day t * msPerDay + msPerDay"
    using Day_TimeWithinDay [of t] by (simp_all add: TimeWithinDay_def msPerDay_def)
  then have "- 99999744 * msPerDay \<le> t" "t < 99999744 * msPerDay"
    using d by (simp_all add: msPerDay_def)
  then show ?thesis using assms(2,3) by (simp add: TimeClip_def msPerDay_def)
qed

lemma weeksFrom_Some:
  assumes "YearFromDay (Day t) = year" "yearInRange year"
  shows "weeksFrom P year holidayList (Some t) =
    \<lparr> startDate = Some t,
      endDate = Some (t + 6 * msPerDay),
      assignedTo = (if isWeekInHolidayPeriod (Some t) (Some (t + 6 * msPerDay)) year
             then Status ''Holiday Period'' else Null),
      hasHoliday = weekContainsHoliday P (Some t) (Some (t + 6 * msPerDay)) holidayList,
      isHolidayPeriod = isWeekInHolidayPeriod (Some t) (Some (t + 6 * msPerDay)) year,
      week_notes = [] \<rparr>
    # weeksFrom P year holidayList (Some (t + 7 * msPerDay))"
proof -
  have r: "yearInRange (YearFromDay (Day t))" using assms by simp
  show ?thesis
    by (subst weeksFrom.simps)
      (simp add: getUTCFullYear_def assms(1) setUTCDate_shift time_in_range [OF r])
qed

lemma weeksFrom_other:
  "getUTCFullYear date \<noteq> Some year \<Longrightarrow> weeksFrom P year holidayList date = []"
  by (subst weeksFrom.simps) simp

text \<open>The weeks of a year in the range: each starts in the year, ends six days after
  its start, and is followed by the week that starts seven days after it.\<close>

definition weekChain :: "int \<Rightarrow> Week list \<Rightarrow> bool" where
  "weekChain year ws =
     (\<forall>i<length ws. \<exists>t. startDate (ws ! i) = Some t
        \<and> endDate (ws ! i) = Some (t + 6 * msPerDay)
        \<and> getUTCFullYear (startDate (ws ! i)) = Some year
        \<and> (Suc i < length ws \<longrightarrow> startDate (ws ! Suc i) = Some (t + 7 * msPerDay)))"

lemma weekChain_Cons:
  assumes "startDate w = Some t" "endDate w = Some (t + 6 * msPerDay)"
    "getUTCFullYear (Some t) = Some year"
    "ws \<noteq> [] \<Longrightarrow> startDate (hd ws) = Some (t + 7 * msPerDay)" "weekChain year ws"
  shows "weekChain year (w # ws)"
  unfolding weekChain_def
proof (intro allI impI)
  fix i assume i: "i < length (w # ws)"
  show "\<exists>t. startDate ((w # ws) ! i) = Some t
        \<and> endDate ((w # ws) ! i) = Some (t + 6 * msPerDay)
        \<and> getUTCFullYear (startDate ((w # ws) ! i)) = Some year
        \<and> (Suc i < length (w # ws) \<longrightarrow> startDate ((w # ws) ! Suc i) = Some (t + 7 * msPerDay))"
  proof (cases i)
    case 0
    have "ws \<noteq> [] \<Longrightarrow> ws ! 0 = hd ws" by (cases ws) auto
    then show ?thesis using assms(1-4) 0 by auto
  next
    case (Suc j)
    then have "j < length ws" using i by simp
    then show ?thesis using assms(5) Suc unfolding weekChain_def by auto
  qed
qed

lemma weeksFrom_chain:
  "yearInRange year \<Longrightarrow> weekChain year (weeksFrom P year holidayList date)"
proof (induction P year holidayList date rule: weeksFrom.induct)
  case (1 P year holidayList date)
  show ?case
  proof (cases "getUTCFullYear date = Some year")
    case False
    then show ?thesis by (simp add: weeksFrom_other weekChain_def)
  next
    case True
    then obtain t where t: "date = Some t" "YearFromDay (Day t) = year"
      by (auto simp: getUTCFullYear_def)
    have r: "yearInRange year" using "1.prems" .
    have n: "setUTCDate date (nadd (getUTCDate date) (Some 7)) = Some (t + 7 * msPerDay)"
      using t r by (simp add: setUTCDate_shift time_in_range)
    have ih: "weekChain year (weeksFrom P year holidayList (Some (t + 7 * msPerDay)))"
      using "1.IH" [OF True r] n by simp
    have hd: "startDate (hd (weeksFrom P year holidayList (Some (t + 7 * msPerDay)))) =
        Some (t + 7 * msPerDay)"
      if "weeksFrom P year holidayList (Some (t + 7 * msPerDay)) \<noteq> []"
    proof -
      have "getUTCFullYear (Some (t + 7 * msPerDay)) = Some year"
        using that weeksFrom_other by blast
      then have "YearFromDay (Day (t + 7 * msPerDay)) = year" by (simp add: getUTCFullYear_def)
      from weeksFrom_Some [OF this r] show ?thesis by simp
    qed
    show ?thesis
      unfolding t(1) weeksFrom_Some [OF t(2) r]
      by (rule weekChain_Cons [where t = t]) (simp_all add: t getUTCFullYear_def hd ih)
  qed
qed

lemma weeksFrom_period:
  "\<forall>w\<in>set (weeksFrom P year holidayList date).
      isHolidayPeriod w = isWeekInHolidayPeriod (startDate w) (endDate w) year
      \<and> assignedTo w = (if isHolidayPeriod w then Status ''Holiday Period'' else Null)"
proof (induction P year holidayList date rule: weeksFrom.induct)
  case (1 P year holidayList date)
  show ?case
  proof (cases "getUTCFullYear date = Some year")
    case False
    then show ?thesis by (simp add: weeksFrom_other)
  next
    case True
    show ?thesis
      using "1.IH" [OF True] True by (subst weeksFrom.simps) simp
  qed
qed

text \<open>The test of the holiday period, on the two dates the period is made of.\<close>

lemma isWeekInHolidayPeriod_eq:
  "isWeekInHolidayPeriod weekStartDate weekEndDate scheduleYear =
     (dle weekStartDate (getFridayAfter (DateUTC (Some (scheduleYear + 1)) (Some 0) (Some 1)))
      \<and> dge weekEndDate (getMondayBefore (DateUTC (Some scheduleYear) (Some 11) (Some 25))))"
  by (auto simp: isWeekInHolidayPeriod_def getHolidayPeriod_def Let_def dle_def dge_def
      split: option.splits)

text \<open>The generator returns for the start months and weekdays of the calendar, in
  every year of the range.\<close>

lemma generateSchedule_returns:
  assumes "yearInRange (st_year st)" "0 \<le> st_startMonth st" "st_startMonth st \<le> 11"
    "0 \<le> st_startDayOfWeek st" "st_startDayOfWeek st \<le> 6"
  shows "\<exists>date ws' counts'.
      findStart (st_year st) (st_startMonth st) (st_startDayOfWeek st)
        (DateUTC (Some (st_year st)) (Some (st_startMonth st)) (Some 1)) = Some date
      \<and> assignLoop P (st_people st) holidayList (initialCounts (st_people st)) 0
            (weeksFrom P (st_year st) holidayList date) = Some (ws', counts')
      \<and> list_all2 keptWeek (weeksFrom P (st_year st) holidayList date) ws'
      \<and> generateSchedule P st holidayList =
          Some (st\<lparr> st_schedule := ws',
                    st_holidayCounts :=
                      (\<lambda>personId. map_option (\<lambda>c. \<lparr> total = total c, holiday = holiday c,
                                                     lastAssigned = None \<rparr>) (counts' personId)) \<rparr>)"
proof -
  from findStart_returns [OF assms]
  obtain date where d: "findStart (st_year st) (st_startMonth st) (st_startDayOfWeek st)
        (DateUTC (Some (st_year st)) (Some (st_startMonth st)) (Some 1)) = Some date"
    by blast
  from assignLoop_run [OF countersFor_initial, of P "st_people st" holidayList 0
      "weeksFrom P (st_year st) holidayList date"]
  obtain ws' counts' where r:
    "assignLoop P (st_people st) holidayList (initialCounts (st_people st)) 0
            (weeksFrom P (st_year st) holidayList date) = Some (ws', counts')"
    "list_all2 keptWeek (weeksFrom P (st_year st) holidayList date) ws'"
    by blast
  show ?thesis
    using d r by (simp add: generateSchedule_def generateWeeks_def assignPeopleToWeeks_def)
qed

lemma generateSchedule_Some:
  assumes "generateSchedule P st holidayList = Some st'"
  shows "\<exists>date. list_all2 keptWeek (weeksFrom P (st_year st) holidayList date) (st_schedule st')"
proof -
  from assms obtain date where
    "assignPeopleToWeeks P st (weeksFrom P (st_year st) holidayList date) holidayList = Some st'"
    by (auto simp: generateSchedule_def generateWeeks_def split: option.splits)
  then obtain ws' counts' where
    a: "assignLoop P (st_people st) holidayList (initialCounts (st_people st)) 0
            (weeksFrom P (st_year st) holidayList date) = Some (ws', counts')"
    and s: "st_schedule st' = ws'"
    by (auto simp: assignPeopleToWeeks_def split: option.splits prod.splits)
  from assignLoop_run [OF countersFor_initial, of P "st_people st" holidayList 0
      "weeksFrom P (st_year st) holidayList date"] a
  have "list_all2 keptWeek (weeksFrom P (st_year st) holidayList date) ws'" by auto
  then show ?thesis using s by auto
qed

lemma weekChain_kept:
  assumes "list_all2 keptWeek ws ws'" "weekChain year ws"
  shows "weekChain year ws'"
proof -
  have l: "length ws' = length ws" using assms(1) by (simp add: list_all2_lengthD)
  have k: "startDate (ws' ! i) = startDate (ws ! i) \<and> endDate (ws' ! i) = endDate (ws ! i)"
    if "i < length ws" for i
    using list_all2_nthD [OF assms(1) that] by (simp add: keptWeek_def)
  show ?thesis
    unfolding weekChain_def l
  proof (intro allI impI)
    fix i assume i: "i < length ws"
    from assms(2) i obtain t where t: "startDate (ws ! i) = Some t"
      "endDate (ws ! i) = Some (t + 6 * msPerDay)"
      "getUTCFullYear (startDate (ws ! i)) = Some year"
      "Suc i < length ws \<longrightarrow> startDate (ws ! Suc i) = Some (t + 7 * msPerDay)"
      unfolding weekChain_def by blast
    show "\<exists>t. startDate (ws' ! i) = Some t \<and> endDate (ws' ! i) = Some (t + 6 * msPerDay)
        \<and> getUTCFullYear (startDate (ws' ! i)) = Some year
        \<and> (Suc i < length ws \<longrightarrow> startDate (ws' ! Suc i) = Some (t + 7 * msPerDay))"
      using t k [OF i] k [of "Suc i"] by auto
  qed
qed

section \<open>Dates as text\<close>

definition digitChar :: "nat \<Rightarrow> char" where
  "digitChar n = ''0123456789'' ! n"

fun natToString :: "nat \<Rightarrow> string" where
  "natToString n = (if n < 10 then [digitChar n] else natToString (n div 10) @ [digitChar (n mod 10)])"

declare natToString.simps [simp del]

text \<open>\<^verbatim>\<open>String(n)\<close> and \<^verbatim>\<open>n.toString()\<close> for an integer.\<close>

definition intToString :: "int \<Rightarrow> string" where
  "intToString i = (if i < 0 then CHR ''-'' # natToString (nat (- i)) else natToString (nat i))"

text \<open>\<^verbatim>\<open>s.padStart(2, '0')\<close>.\<close>

definition padStart2 :: "string \<Rightarrow> string" where
  "padStart2 s = replicate (2 - length s) CHR ''0'' @ s"

definition formatDateYYYYMMDD :: "Date \<Rightarrow> string" where
  "formatDateYYYYMMDD date =
     (case date of
        None \<Rightarrow> ''Invalid Date''
      | Some t \<Rightarrow>
          intToString (YearFromDay (Day t)) @ ''-''
          @ padStart2 (intToString (MonthFromDay (Day t) + 1)) @ ''-''
          @ padStart2 (intToString (DateFromDay (Day t))))"

lemma weekday_before:
  "(WeekDay d + 6) mod 7 = (if WeekDay d = 0 then 6 else WeekDay d - 1)"
proof (cases "WeekDay d = 0")
  case True
  then show ?thesis by simp
next
  case False
  have w: "1 \<le> WeekDay d" "WeekDay d \<le> 6"
    using False by (simp_all add: WeekDay_def order_less_le)
  have "WeekDay d + 6 = (WeekDay d - 1) + 7" by simp
  then have "(WeekDay d + 6) mod 7 = ((WeekDay d - 1) + 7) mod 7" by (rule arg_cong)
  also have "\<dots> = (WeekDay d - 1) mod 7" by (rule mod_add_self2)
  also have "\<dots> = WeekDay d - 1" using w by simp
  finally show ?thesis using False by simp
qed

lemma getMondayBefore_days:
  "getMondayBefore (Some (d * msPerDay)) =
     (if \<bar>d - (WeekDay d + 6) mod 7\<bar> \<le> 100000000
      then Some ((d - (WeekDay d + 6) mod 7) * msPerDay) else None)"
proof -
  have e: "d + (1 - WeekDay d) = d - (WeekDay d - 1)" by linarith
  show ?thesis
    by (simp add: getMondayBefore_def Let_def nsub_def weekday_before e)
qed

lemma getFridayAfter_days:
  "getFridayAfter (Some (d * msPerDay)) =
     (if \<bar>d + (if WeekDay d = 6 then 6 else 5 - WeekDay d)\<bar> \<le> 100000000
      then Some ((d + (if WeekDay d = 6 then 6 else 5 - WeekDay d)) * msPerDay) else None)"
  by (simp add: getFridayAfter_def Let_def nsub_def)

section \<open>The generated schedule: the year 2025\<close>

lemma DayFromYear_2025:
  "DayFromYear 2025 = 20089" "DayFromYear 2026 = 20454" "DayFromYear 2027 = 20819"
  by (simp_all add: DayFromYear_def)

lemma InLeapYear_2025: "InLeapYear 2025 = 0" "InLeapYear 2026 = 0"
  by (simp_all add: InLeapYear_def DaysInYear_def)

lemma MakeDay_2025:
  "MakeDay 2025 0 dt = 20088 + dt" "MakeDay 2025 11 dt = 20422 + dt" "MakeDay 2026 0 dt = 20453 + dt"
  by (simp_all add: MakeDay_def DayFromYear_2025 InLeapYear_2025 monthStart_def)

lemma YearFromDay_2025: "20089 \<le> d \<Longrightarrow> d < 20454 \<Longrightarrow> YearFromDay d = 2025"
  by (rule YearFromDay_unique) (simp_all add: DayFromYear_2025)

lemma DateUTC_2025:
  "\<bar>dt\<bar> \<le> 1000 \<Longrightarrow> DateUTC (Some 2025) (Some 0) (Some dt) = Some ((20088 + dt) * msPerDay)"
  "\<bar>dt\<bar> \<le> 1000 \<Longrightarrow> DateUTC (Some 2025) (Some 11) (Some dt) = Some ((20422 + dt) * msPerDay)"
  "\<bar>dt\<bar> \<le> 1000 \<Longrightarrow> DateUTC (Some 2026) (Some 0) (Some dt) = Some ((20453 + dt) * msPerDay)"
  by (simp_all add: DateUTC_month MakeDay_2025 TimeClip_days)

lemma civil_2025_01_07:
  "YearFromDay 20095 = 2025" "MonthFromDay 20095 = 0" "DateFromDay 20095 = 7"
  using civil_MakeDay [of 0 7 2025]
  by (simp_all add: MakeDay_2025 DaysInMonth_def monthStart_def)

lemma natToString_digits:
  "natToString (Suc 0) = ''1''" "natToString 7 = ''7''" "natToString 2025 = ''2025''"
  by (simp_all add: natToString.simps digitChar_def)

text \<open>
  C9. With year 2025, start month 0 and start weekday 2 the schedule is not empty and
  its first week starts on 2025-01-07; the holiday period of 2025 is from 2025-12-22,
  the Monday before 2025-12-25, to 2026-01-02, the Friday after 2026-01-01.
\<close>

theorem example_2025:
  "\<exists>st'. generateSchedule P
       \<lparr> st_year = 2025, st_startDayOfWeek = 2, st_startMonth = 0, st_people = people,
         st_schedule = oldSchedule, st_holidays = holidays, st_holidayCounts = oldCounts \<rparr>
       holidayList = Some st'
     \<and> st_schedule st' \<noteq> []
     \<and> startDate (hd (st_schedule st')) = DateUTC (Some 2025) (Some 0) (Some 7)
     \<and> formatDateYYYYMMDD (startDate (hd (st_schedule st'))) = ''2025-01-07''
     \<and> getMondayBefore (DateUTC (Some 2025) (Some 11) (Some 25))
         = DateUTC (Some 2025) (Some 11) (Some 22)
     \<and> getFridayAfter (DateUTC (Some 2026) (Some 0) (Some 1))
         = DateUTC (Some 2026) (Some 0) (Some 2)
     \<and> getHolidayPeriod 2025
         = Some (DateUTC (Some 2025) (Some 11) (Some 22), DateUTC (Some 2026) (Some 0) (Some 2))"
proof -
  define st where "st = \<lparr> st_year = 2025, st_startDayOfWeek = 2, st_startMonth = 0,
     st_people = people, st_schedule = oldSchedule, st_holidays = holidays,
     st_holidayCounts = oldCounts \<rparr>"
  have r: "yearInRange 2025" by (simp add: yearInRange_def)
  have "findStart 2025 0 2 (DateUTC (Some 2025) (Some 0) (Some 1)) =
        Some (Some ((MakeDay 2025 0 1 + (2 - WeekDay (MakeDay 2025 0 1)) mod 7) * msPerDay))"
    by (rule findStart_first) (simp_all add: r)
  then have f: "findStart 2025 0 2 (DateUTC (Some 2025) (Some 0) (Some 1)) =
        Some (Some (20095 * msPerDay))"
    by (simp add: MakeDay_2025 WeekDay_def)
  from generateSchedule_returns [of st P holidayList]
  obtain ws' and counts' :: HolidayCounts where g:
    "list_all2 keptWeek (weeksFrom P 2025 holidayList (Some (20095 * msPerDay))) ws'"
    "generateSchedule P st holidayList =
          Some (st\<lparr> st_schedule := ws',
                    st_holidayCounts :=
                      (\<lambda>personId. map_option (\<lambda>c. \<lparr> total = total c, holiday = holiday c,
                                                     lastAssigned = None \<rparr>) (counts' personId)) \<rparr>)"
    using f r by (auto simp: st_def)
  have y: "YearFromDay (Day (20095 * msPerDay)) = 2025" by (simp add: civil_2025_01_07)
  from g(1) obtain w' rest' where w: "ws' = w' # rest'" "startDate w' = Some (20095 * msPerDay)"
    unfolding weeksFrom_Some [OF y r] by (auto simp: list_all2_Cons1 keptWeek_def)
  have fmt: "formatDateYYYYMMDD (Some (20095 * msPerDay)) = ''2025-01-07''"
    by (simp add: formatDateYYYYMMDD_def civil_2025_01_07 intToString_def natToString_digits
        padStart2_def)
  have mon: "getMondayBefore (DateUTC (Some 2025) (Some 11) (Some 25))
         = DateUTC (Some 2025) (Some 11) (Some 22)"
    by (simp add: DateUTC_2025 getMondayBefore_days WeekDay_def)
  have fri: "getFridayAfter (DateUTC (Some 2026) (Some 0) (Some 1))
         = DateUTC (Some 2026) (Some 0) (Some 2)"
    by (simp add: DateUTC_2025 getFridayAfter_days WeekDay_def)
  have per: "getHolidayPeriod 2025
         = Some (DateUTC (Some 2025) (Some 11) (Some 22), DateUTC (Some 2026) (Some 0) (Some 2))"
    unfolding getHolidayPeriod_def Let_def
    using mon fri by (simp add: DateUTC_2025)
  show ?thesis
    using g(2) w fmt mon fri per unfolding st_def by (simp add: DateUTC_2025)
qed

section \<open>A schedule for December 2025\<close>

text \<open>A platform on UTC whose date parser knows the interchange format only, and a
  roster of three people without leave.\<close>

definition utcPlatform :: platform where
  "utcPlatform = \<lparr> LocalTZA = (\<lambda>t. 0), parseFallback = (\<lambda>s. None) \<rparr>"

definition threePeople :: "Person list" where
  "threePeople =
     [\<lparr> person_id = 1, person_name = ''Person 1'', person_leave = [] \<rparr>,
      \<lparr> person_id = 2, person_name = ''Person 2'', person_leave = [] \<rparr>,
      \<lparr> person_id = 3, person_name = ''Person 3'', person_leave = [] \<rparr>]"

definition decemberState :: State where
  "decemberState =
     \<lparr> st_year = 2025, st_startDayOfWeek = 2, st_startMonth = 11, st_people = threePeople,
       st_schedule = [], st_holidays = [], st_holidayCounts = Map.empty \<rparr>"

definition decemberWeek :: "int \<Rightarrow> assignment \<Rightarrow> bool \<Rightarrow> Week" where
  "decemberWeek d a b =
     \<lparr> startDate = Some (d * msPerDay), endDate = Some ((d + 6) * msPerDay), assignedTo = a,
       hasHoliday = False, isHolidayPeriod = b, week_notes = [] \<rparr>"

lemma YearFromDay_2026: "20454 \<le> d \<Longrightarrow> d < 20819 \<Longrightarrow> YearFromDay d = 2026"
  by (rule YearFromDay_unique) (simp_all add: DayFromYear_2025)

lemma days_add: "a * msPerDay + b * msPerDay = (a + b) * msPerDay"
  by (simp add: algebra_simps)

lemma period_2025:
  "getMondayBefore (DateUTC (Some 2025) (Some 11) (Some 25)) = Some (20444 * msPerDay)"
  "getFridayAfter (DateUTC (Some 2026) (Some 0) (Some 1)) = Some (20455 * msPerDay)"
  by (simp_all add: DateUTC_2025 getMondayBefore_days getFridayAfter_days WeekDay_def)

lemma dle_days [simp]: "dle (Some (a * msPerDay)) (Some (b * msPerDay)) = (a \<le> b)"
  by (simp add: dle_def msPerDay_def)

lemma dge_days [simp]: "dge (Some (a * msPerDay)) (Some (b * msPerDay)) = (a \<ge> b)"
  by (simp add: dge_def msPerDay_def)

lemma december_weeks:
  "weeksFrom P 2025 [] (Some (20424 * msPerDay)) =
     [decemberWeek 20424 Null False, decemberWeek 20431 Null False,
      decemberWeek 20438 (Status ''Holiday Period'') True,
      decemberWeek 20445 (Status ''Holiday Period'') True,
      decemberWeek 20452 (Status ''Holiday Period'') True]"
proof -
  have r: "yearInRange 2025" by (simp add: yearInRange_def)
  have y: "YearFromDay (Day (d * msPerDay)) = 2025" if "20089 \<le> d" "d < 20454" for d
    using that by (simp add: YearFromDay_2025)
  have stop: "weeksFrom P 2025 [] (Some (20459 * msPerDay)) = []"
    by (rule weeksFrom_other) (simp add: YearFromDay_2026)
  have step: "weeksFrom P 2025 [] (Some (d * msPerDay)) =
      decemberWeek d (if d \<le> 20455 \<and> 20444 \<le> d + 6 then Status ''Holiday Period'' else Null)
                     (d \<le> 20455 \<and> 20444 \<le> d + 6)
      # weeksFrom P 2025 [] (Some ((d + 7) * msPerDay))"
    if "20089 \<le> d" "d < 20454" for d
    unfolding weeksFrom_Some [OF y [OF that] r]
    by (simp add: decemberWeek_def isWeekInHolidayPeriod_eq period_2025 days_add
        weekContainsHoliday_def)
  show ?thesis
    by (simp add: step stop)
qed

lemma december_start:
  "findStart 2025 11 2 (DateUTC (Some 2025) (Some 11) (Some 1)) = Some (Some (20424 * msPerDay))"
proof -
  have "findStart 2025 11 2 (DateUTC (Some 2025) (Some 11) (Some 1)) =
        Some (Some ((MakeDay 2025 11 1 + (2 - WeekDay (MakeDay 2025 11 1)) mod 7) * msPerDay))"
    by (rule findStart_first) (simp_all add: yearInRange_def)
  then show ?thesis by (simp add: MakeDay_2025 WeekDay_def)
qed

lemma no_leave [simp]:
  "isPersonOnLeave P threePeople k start_date end_date = False"
  by (simp add: isPersonOnLeave_def threePeople_def split: option.splits)

lemma december_run:
  "assignLoop P threePeople [] (initialCounts threePeople) 0
     [decemberWeek 20424 Null False, decemberWeek 20431 Null False,
      decemberWeek 20438 (Status ''Holiday Period'') True,
      decemberWeek 20445 (Status ''Holiday Period'') True,
      decemberWeek 20452 (Status ''Holiday Period'') True] =
   Some ([decemberWeek 20424 (PersonId 1) False, decemberWeek 20431 (PersonId 2) False,
          decemberWeek 20438 (Status ''Holiday Period'') True,
          decemberWeek 20445 (Status ''Holiday Period'') True,
          decemberWeek 20452 (Status ''Holiday Period'') True],
         (initialCounts threePeople)
           (1 \<mapsto> \<lparr> total = 1, holiday = 0, lastAssigned = Some (Finite 0) \<rparr>,
            2 \<mapsto> \<lparr> total = 1, holiday = 0, lastAssigned = Some (Finite 1) \<rparr>))"
proof -
  have av: "availablePeople P threePeople w = threePeople" for w
    by (simp add: availablePeople_def)
  have th: "those (map (\<lambda>person. c (person_id person)) threePeople) = Some [x, y, z]"
    if "c 1 = Some x" "c 2 = Some y" "c 3 = Some z" for c :: HolidayCounts and x y z
    using that by (simp add: threePeople_def)
  have zp: "zip threePeople [x, y, z] =
    [(\<lparr> person_id = 1, person_name = ''Person 1'', person_leave = [] \<rparr>, x),
     (\<lparr> person_id = 2, person_name = ''Person 2'', person_leave = [] \<rparr>, y),
     (\<lparr> person_id = 3, person_name = ''Person 3'', person_leave = [] \<rparr>, z)]"
    for x y z :: Counts
    by (simp add: threePeople_def)
  have ne: "threePeople \<noteq> []" by (simp add: threePeople_def)
  have ic: "initialCounts threePeople 1 = Some \<lparr> total = 0, holiday = 0, lastAssigned = Some NegInfinity \<rparr>"
    "initialCounts threePeople 2 = Some \<lparr> total = 0, holiday = 0, lastAssigned = Some NegInfinity \<rparr>"
    "initialCounts threePeople 3 = Some \<lparr> total = 0, holiday = 0, lastAssigned = Some NegInfinity \<rparr>"
    by (simp_all add: initialCounts_eq threePeople_def)
  have a1: "assignWeek P threePeople [] (initialCounts threePeople) 0 (decemberWeek 20424 Null False)
      = Some (decemberWeek 20424 (PersonId 1) False,
              (initialCounts threePeople)(1 \<mapsto> \<lparr> total = 1, holiday = 0, lastAssigned = Some (Finite 0) \<rparr>))"
    by (simp add: assignWeek_def av ne th [OF ic] zp sortStable_def compareCounts_def
          decemberWeek_def weekContainsHoliday_def)
  define c1 where "c1 = (initialCounts threePeople)
      (1 \<mapsto> \<lparr> total = 1, holiday = 0, lastAssigned = Some (Finite 0) \<rparr>)"
  have ic1: "c1 1 = Some \<lparr> total = 1, holiday = 0, lastAssigned = Some (Finite 0) \<rparr>"
    "c1 2 = Some \<lparr> total = 0, holiday = 0, lastAssigned = Some NegInfinity \<rparr>"
    "c1 3 = Some \<lparr> total = 0, holiday = 0, lastAssigned = Some NegInfinity \<rparr>"
    by (simp_all add: c1_def ic)
  have "assignWeek P threePeople [] c1 1 (decemberWeek 20431 Null False)
      = Some (decemberWeek 20431 (PersonId 2) False,
              c1(2 \<mapsto> \<lparr> total = 1, holiday = 0, lastAssigned = Some (Finite 1) \<rparr>))"
    by (simp add: assignWeek_def av ne th [OF ic1] zp sortStable_def compareCounts_def
          decemberWeek_def weekContainsHoliday_def)
  note a2 = this [unfolded c1_def]
  have hp: "assignWeek P threePeople [] c i (decemberWeek d a True) = Some (decemberWeek d a True, c)"
    for c i d a
    by (simp add: assignWeek_def decemberWeek_def)
  show ?thesis
    by (simp add: a1 a2 hp)
qed

lemma december_schedule:
  "\<exists>counts. generateSchedule P decemberState [] =
     Some (decemberState\<lparr> st_schedule :=
        [decemberWeek 20424 (PersonId 1) False, decemberWeek 20431 (PersonId 2) False,
         decemberWeek 20438 (Status ''Holiday Period'') True,
         decemberWeek 20445 (Status ''Holiday Period'') True,
         decemberWeek 20452 (Status ''Holiday Period'') True],
        st_holidayCounts := counts \<rparr>)"
  by (simp add: generateSchedule_def generateWeeks_def assignPeopleToWeeks_def
      decemberState_def december_start december_weeks december_run del: assignLoop.simps)

section \<open>The generated weeks are contiguous\<close>

text \<open>
  C3, as the code has it. For every year from -271820 to 275759 (the years all of
  whose days, and the six days after them, the \<^verbatim>\<open>Date\<close> type holds), every start month
  from 0 to 11 and every start weekday from 0 to 6, the generator returns, and in the
  schedule it sets every week starts on a valid date in the configured year, ends
  exactly six days after its start, and is followed by a week that starts exactly
  seven days after it: the start dates increase strictly, without gaps or overlaps.
\<close>

theorem contiguous_weeks:
  assumes "- 271820 \<le> st_year st" "st_year st \<le> 275759"
    and "0 \<le> st_startMonth st" "st_startMonth st \<le> 11"
    and "0 \<le> st_startDayOfWeek st" "st_startDayOfWeek st \<le> 6"
  shows "\<exists>st'. generateSchedule P st holidayList = Some st'
    \<and> (\<forall>i<length (st_schedule st'). \<exists>t.
          startDate (st_schedule st' ! i) = Some t
          \<and> endDate (st_schedule st' ! i) = Some (t + 6 * msPerDay)
          \<and> getUTCFullYear (startDate (st_schedule st' ! i)) = Some (st_year st)
          \<and> (Suc i < length (st_schedule st') \<longrightarrow>
                startDate (st_schedule st' ! Suc i) = Some (t + 7 * msPerDay)))"
proof -
  have r: "yearInRange (st_year st)" using assms(1,2) by (simp add: yearInRange_def)
  from generateSchedule_returns [OF r assms(3-6), of P holidayList]
  obtain date ws' and counts' :: HolidayCounts where g:
    "list_all2 keptWeek (weeksFrom P (st_year st) holidayList date) ws'"
    "generateSchedule P st holidayList =
          Some (st\<lparr> st_schedule := ws',
                    st_holidayCounts :=
                      (\<lambda>personId. map_option (\<lambda>c. \<lparr> total = total c, holiday = holiday c,
                                                     lastAssigned = None \<rparr>) (counts' personId)) \<rparr>)"
    by blast
  have "weekChain (st_year st) ws'"
    using weekChain_kept [OF g(1) weeksFrom_chain [OF r]] .
  then show ?thesis using g(2) by (simp add: weekChain_def)
qed

theorem contiguous_weeks_witness:
  "\<exists>st'. generateSchedule utcPlatform decemberState [] = Some st'
     \<and> map startDate (st_schedule st') =
         [Some (20424 * msPerDay), Some (20431 * msPerDay), Some (20438 * msPerDay),
          Some (20445 * msPerDay), Some (20452 * msPerDay)]
     \<and> map endDate (st_schedule st') =
         [Some (20430 * msPerDay), Some (20437 * msPerDay), Some (20444 * msPerDay),
          Some (20451 * msPerDay), Some (20458 * msPerDay)]
     \<and> (\<forall>i<length (st_schedule st'). \<exists>t.
          startDate (st_schedule st' ! i) = Some t
          \<and> endDate (st_schedule st' ! i) = Some (t + 6 * msPerDay)
          \<and> getUTCFullYear (startDate (st_schedule st' ! i)) = Some (st_year decemberState)
          \<and> (Suc i < length (st_schedule st') \<longrightarrow>
                startDate (st_schedule st' ! Suc i) = Some (t + 7 * msPerDay)))"
proof -
  have a: "- 271820 \<le> st_year decemberState" "st_year decemberState \<le> 275759"
    "0 \<le> st_startMonth decemberState" "st_startMonth decemberState \<le> 11"
    "0 \<le> st_startDayOfWeek decemberState" "st_startDayOfWeek decemberState \<le> 6"
    by (simp_all add: decemberState_def)
  from contiguous_weeks [OF a, of utcPlatform "[]"]
  obtain st' where s: "generateSchedule utcPlatform decemberState [] = Some st'
    \<and> (\<forall>i<length (st_schedule st'). \<exists>t.
          startDate (st_schedule st' ! i) = Some t
          \<and> endDate (st_schedule st' ! i) = Some (t + 6 * msPerDay)
          \<and> getUTCFullYear (startDate (st_schedule st' ! i)) = Some (st_year decemberState)
          \<and> (Suc i < length (st_schedule st') \<longrightarrow>
                startDate (st_schedule st' ! Suc i) = Some (t + 7 * msPerDay)))"
    by (rule exE)
  from december_schedule [of utcPlatform] obtain counts where
    d: "generateSchedule utcPlatform decemberState [] =
     Some (decemberState\<lparr> st_schedule :=
        [decemberWeek 20424 (PersonId 1) False, decemberWeek 20431 (PersonId 2) False,
         decemberWeek 20438 (Status ''Holiday Period'') True,
         decemberWeek 20445 (Status ''Holiday Period'') True,
         decemberWeek 20452 (Status ''Holiday Period'') True],
        st_holidayCounts := counts \<rparr>)"
    by (rule exE)
  have e: "st_schedule st' =
        [decemberWeek 20424 (PersonId 1) False, decemberWeek 20431 (PersonId 2) False,
         decemberWeek 20438 (Status ''Holiday Period'') True,
         decemberWeek 20445 (Status ''Holiday Period'') True,
         decemberWeek 20452 (Status ''Holiday Period'') True]"
  proof -
    from s have "generateSchedule utcPlatform decemberState [] = Some st'" by (rule conjunct1)
    with d have "st' = decemberState\<lparr> st_schedule :=
        [decemberWeek 20424 (PersonId 1) False, decemberWeek 20431 (PersonId 2) False,
         decemberWeek 20438 (Status ''Holiday Period'') True,
         decemberWeek 20445 (Status ''Holiday Period'') True,
         decemberWeek 20452 (Status ''Holiday Period'') True],
        st_holidayCounts := counts \<rparr>" by simp
    then show ?thesis by simp
  qed
  have m: "map startDate (st_schedule st') =
         [Some (20424 * msPerDay), Some (20431 * msPerDay), Some (20438 * msPerDay),
          Some (20445 * msPerDay), Some (20452 * msPerDay)]"
    "map endDate (st_schedule st') =
         [Some (20430 * msPerDay), Some (20437 * msPerDay), Some (20444 * msPerDay),
          Some (20451 * msPerDay), Some (20458 * msPerDay)]"
    unfolding e by (simp_all add: decemberWeek_def)
  note c = conjI [OF s [THEN conjunct1] conjI [OF m(1) conjI [OF m(2) s [THEN conjunct2]]]]
  show ?thesis by (rule exI [where x = st']) (rule c)
qed

text \<open>
  The claim as written, for every year, fails: the year 275761 is beyond the range
  of \<^verbatim>\<open>Date\<close>, the first of January is an invalid date, and the search for the first
  week never returns.
\<close>

theorem contiguous_weeks_counterexample:
  "generateSchedule utcPlatform
     \<lparr> st_year = 275761, st_startDayOfWeek = 2, st_startMonth = 0, st_people = threePeople,
       st_schedule = [], st_holidays = [], st_holidayCounts = Map.empty \<rparr> [] = None"
proof -
  have "DateUTC (Some 275761) (Some 0) (Some 1) = None"
    by (simp add: DateUTC_def MakeDay_def DayFromYear_def InLeapYear_def DaysInYear_def
        monthStart_def TimeClip_def msPerDay_def)
  then show ?thesis
    by (simp add: generateSchedule_def generateWeeks_def findStart_invalid)
qed

section \<open>The weeks of the holiday period\<close>

text \<open>
  C4. In every schedule the generator sets, a week is flagged as in the holiday
  period iff its start is not after the Friday after January 1 of the next year and
  its end is not before the Monday before December 25 of the year; every flagged week
  is assigned the sentinel \<^verbatim>\<open>"Holiday Period"\<close>, so the assignment pass has given it
  to no person. The generator returns for every year of the range.
\<close>

theorem holiday_period_weeks:
  "(yearInRange (st_year st) \<and> 0 \<le> st_startMonth st \<and> st_startMonth st \<le> 11
      \<and> 0 \<le> st_startDayOfWeek st \<and> st_startDayOfWeek st \<le> 6
     \<longrightarrow> (\<exists>st'. generateSchedule P st holidayList = Some st'))
   \<and> (\<forall>st'. generateSchedule P st holidayList = Some st' \<longrightarrow>
        (\<forall>w\<in>set (st_schedule st').
           (isHolidayPeriod w \<longleftrightarrow>
              dle (startDate w) (getFridayAfter (DateUTC (Some (st_year st + 1)) (Some 0) (Some 1)))
              \<and> dge (endDate w) (getMondayBefore (DateUTC (Some (st_year st)) (Some 11) (Some 25))))
           \<and> (isHolidayPeriod w \<longrightarrow> assignedTo w = Status ''Holiday Period'')))"
proof (intro conjI impI allI ballI)
  assume "yearInRange (st_year st) \<and> 0 \<le> st_startMonth st \<and> st_startMonth st \<le> 11
      \<and> 0 \<le> st_startDayOfWeek st \<and> st_startDayOfWeek st \<le> 6"
  then show "\<exists>st'. generateSchedule P st holidayList = Some st'"
    using generateSchedule_returns [of st P holidayList] by blast
next
  fix st' w
  assume g: "generateSchedule P st holidayList = Some st'" and w: "w \<in> set (st_schedule st')"
  from generateSchedule_Some [OF g] obtain date where
    k: "list_all2 keptWeek (weeksFrom P (st_year st) holidayList date) (st_schedule st')"
    by blast
  from w obtain i where i: "i < length (st_schedule st')" "st_schedule st' ! i = w"
    by (auto simp: in_set_conv_nth)
  define w0 where "w0 = weeksFrom P (st_year st) holidayList date ! i"
  have l: "i < length (weeksFrom P (st_year st) holidayList date)"
    using i(1) list_all2_lengthD [OF k] by simp
  have kw: "keptWeek w0 w" using list_all2_nthD [OF k l] i(2) by (simp add: w0_def)
  have "w0 \<in> set (weeksFrom P (st_year st) holidayList date)" using l by (simp add: w0_def)
  then have p: "isHolidayPeriod w0 = isWeekInHolidayPeriod (startDate w0) (endDate w0) (st_year st)"
    "assignedTo w0 = (if isHolidayPeriod w0 then Status ''Holiday Period'' else Null)"
    using weeksFrom_period [of P "st_year st" holidayList date] by auto
  show "isHolidayPeriod w \<longleftrightarrow>
      dle (startDate w) (getFridayAfter (DateUTC (Some (st_year st + 1)) (Some 0) (Some 1)))
      \<and> dge (endDate w) (getMondayBefore (DateUTC (Some (st_year st)) (Some 11) (Some 25)))"
    using kw p(1) by (simp add: keptWeek_def isWeekInHolidayPeriod_eq)
  show "assignedTo w = Status ''Holiday Period''" if "isHolidayPeriod w"
    using kw p(2) that by (auto simp: keptWeek_def)
qed

theorem holiday_period_weeks_witness:
  "\<exists>st'. generateSchedule utcPlatform decemberState [] = Some st'
     \<and> map isHolidayPeriod (st_schedule st') = [False, False, True, True, True]
     \<and> map assignedTo (st_schedule st') =
         [PersonId 1, PersonId 2, Status ''Holiday Period'', Status ''Holiday Period'',
          Status ''Holiday Period'']
     \<and> getFridayAfter (DateUTC (Some (st_year decemberState + 1)) (Some 0) (Some 1))
         = Some (20455 * msPerDay)
     \<and> getMondayBefore (DateUTC (Some (st_year decemberState)) (Some 11) (Some 25))
         = Some (20444 * msPerDay)
     \<and> (\<forall>w\<in>set (st_schedule st').
           (isHolidayPeriod w \<longleftrightarrow>
              dle (startDate w) (getFridayAfter (DateUTC (Some (st_year decemberState + 1)) (Some 0) (Some 1)))
              \<and> dge (endDate w) (getMondayBefore (DateUTC (Some (st_year decemberState)) (Some 11) (Some 25))))
           \<and> (isHolidayPeriod w \<longrightarrow> assignedTo w = Status ''Holiday Period''))"
proof -
  from december_schedule [of utcPlatform] obtain counts where
    d: "generateSchedule utcPlatform decemberState [] =
     Some (decemberState\<lparr> st_schedule :=
        [decemberWeek 20424 (PersonId 1) False, decemberWeek 20431 (PersonId 2) False,
         decemberWeek 20438 (Status ''Holiday Period'') True,
         decemberWeek 20445 (Status ''Holiday Period'') True,
         decemberWeek 20452 (Status ''Holiday Period'') True],
        st_holidayCounts := counts \<rparr>)"
    by (rule exE)
  define st' where "st' = decemberState\<lparr> st_schedule :=
        [decemberWeek 20424 (PersonId 1) False, decemberWeek 20431 (PersonId 2) False,
         decemberWeek 20438 (Status ''Holiday Period'') True,
         decemberWeek 20445 (Status ''Holiday Period'') True,
         decemberWeek 20452 (Status ''Holiday Period'') True],
        st_holidayCounts := counts \<rparr>"
  have g: "generateSchedule utcPlatform decemberState [] = Some st'"
    using d by (simp add: st'_def)
  have m: "map isHolidayPeriod (st_schedule st') = [False, False, True, True, True]"
    "map assignedTo (st_schedule st') =
         [PersonId 1, PersonId 2, Status ''Holiday Period'', Status ''Holiday Period'',
          Status ''Holiday Period'']"
    by (simp_all add: st'_def decemberWeek_def)
  have p: "getFridayAfter (DateUTC (Some (st_year decemberState + 1)) (Some 0) (Some 1))
         = Some (20455 * msPerDay)"
     "getMondayBefore (DateUTC (Some (st_year decemberState)) (Some 11) (Some 25))
         = Some (20444 * msPerDay)"
    by (simp_all add: decemberState_def period_2025)
  have b: "\<forall>w\<in>set (st_schedule st').
           (isHolidayPeriod w \<longleftrightarrow>
              dle (startDate w) (getFridayAfter (DateUTC (Some (st_year decemberState + 1)) (Some 0) (Some 1)))
              \<and> dge (endDate w) (getMondayBefore (DateUTC (Some (st_year decemberState)) (Some 11) (Some 25))))
           \<and> (isHolidayPeriod w \<longrightarrow> assignedTo w = Status ''Holiday Period'')"
    by (rule holiday_period_weeks [of decemberState utcPlatform "[]", THEN conjunct2,
          THEN spec, THEN mp, OF g])
  note c = conjI [OF g conjI [OF m(1) conjI [OF m(2) conjI [OF p(1) conjI [OF p(2) b]]]]]
  show ?thesis by (rule exI [where x = st']) (rule c)
qed

section \<open>The week-by-week selection\<close>

lemma assignLoop_prefix:
  assumes run: "assignLoop P people holidayList counts0 0 ws = Some (ws', final)"
    and inv: "countersFor people counts0" and i: "i < length ws"
  shows "\<exists>before week' after.
      assignLoop P people holidayList counts0 0 (take i ws) = Some (take i ws', before)
      \<and> countersFor people before
      \<and> assignWeek P people holidayList before (int i) (ws ! i) = Some (week', after)
      \<and> ws' ! i = week'
      \<and> assignLoop P people holidayList counts0 0 (take (Suc i) ws) = Some (take (Suc i) ws', after)"
proof -
  from assignLoop_run [OF inv, of P holidayList 0 "take i ws"]
  obtain xs' before where p: "assignLoop P people holidayList counts0 0 (take i ws) = Some (xs', before)"
    "countersFor people before"
    by blast
  have lx: "length xs' = i" using assignLoop_length [OF p(1)] i by simp
  from assignWeek_cases [OF p(2), of P holidayList "int i" "ws ! i"]
  obtain week' after where w: "assignWeek P people holidayList before (int i) (ws ! i) = Some (week', after)"
    "countersFor people after"
    by blast
  from assignLoop_run [OF w(2), of P holidayList "int i + 1" "drop (Suc i) ws"]
  obtain rest' final' where r:
    "assignLoop P people holidayList after (int i + 1) (drop (Suc i) ws) = Some (rest', final')"
    by blast
  have li: "min (length ws) i = i" using i by simp
  have split: "ws = take i ws @ (ws ! i # drop (Suc i) ws)"
    using i by (simp add: id_take_nth_drop [symmetric])
  have "assignLoop P people holidayList counts0 0 (take i ws @ (ws ! i # drop (Suc i) ws))
      = Some (xs' @ week' # rest', final')"
    unfolding assignLoop_append using p(1) w(1) r by (simp add: li)
  then have ws': "ws' = xs' @ week' # rest'" using run split by simp
  have t1: "take i ws' = xs'" using lx ws' by simp
  have n: "ws' ! i = week'" using lx ws' by (simp add: nth_append)
  have t2: "take (Suc i) ws' = xs' @ [week']" using lx ws' by simp
  have "take (Suc i) ws = take i ws @ [ws ! i]" using i by (simp add: take_Suc_conv_app_nth)
  then have "assignLoop P people holidayList counts0 0 (take (Suc i) ws) = Some (xs' @ [week'], after)"
    using p(1) w(1) by (simp add: assignLoop_append li)
  then show ?thesis using p w(1) t1 n t2 by simp
qed

text \<open>
  The selection among the people \<^verbatim>\<open>isPersonOnLeave\<close> lets through. A run of the
  assignment pass over any list of weeks returns. For every week of the list that is
  not of the holiday period and for which \<^verbatim>\<open>availablePeople\<close> is not empty, with the
  counters as the weeks before it left them (\<open>before\<close>): the person assigned is one of
  them, \<open>p\<close>, whose key (total, holiday duties, index of the last assignment) the key
  of no other of them is before, and every one of them earlier in the roster has a
  key strictly after \<open>p\<close>'s; the week is assigned to \<open>p\<close> and its holiday flag is what
  \<^verbatim>\<open>weekContainsHoliday\<close> gives; and the counters after the week are the counters
  before it with \<open>p\<close>'s total incremented, \<open>p\<close>'s holiday count incremented iff
  \<^verbatim>\<open>weekContainsHoliday\<close> holds of the week, and \<open>p\<close>'s last index set to the position
  of the week. Both \<^verbatim>\<open>isPersonOnLeave\<close> and \<^verbatim>\<open>weekContainsHoliday\<close> read the week
  through the local time zone: see the sections on leave and on the selection behind
  UTC below.
\<close>

lemma selection_rule:
  "\<exists>ws' final.
     assignLoop P people holidayList (initialCounts people) 0 ws = Some (ws', final)
     \<and> length ws' = length ws
     \<and> (\<forall>i<length ws. \<not> isHolidayPeriod (ws ! i) \<longrightarrow> availablePeople P people (ws ! i) \<noteq> [] \<longrightarrow>
          (\<exists>before p c pre post.
             assignLoop P people holidayList (initialCounts people) 0 (take i ws)
               = Some (take i ws', before)
             \<and> availablePeople P people (ws ! i) = pre @ p # post
             \<and> before (person_id p) = Some c
             \<and> (\<forall>q\<in>set (availablePeople P people (ws ! i)).
                   \<exists>cq. before (person_id q) = Some cq \<and> \<not> keyLess cq c)
             \<and> (\<forall>q\<in>set pre. \<exists>cq. before (person_id q) = Some cq \<and> keyLess c cq)
             \<and> ws' ! i = (ws ! i)\<lparr> assignedTo := PersonId (person_id p),
                   hasHoliday := weekContainsHoliday P (startDate (ws ! i)) (endDate (ws ! i)) holidayList \<rparr>
             \<and> assignLoop P people holidayList (initialCounts people) 0 (take (Suc i) ws)
               = Some (take (Suc i) ws',
                   before(person_id p \<mapsto>
                     \<lparr> total = total c + 1,
                       holiday = (if weekContainsHoliday P (startDate (ws ! i)) (endDate (ws ! i)) holidayList
                                  then holiday c + 1 else holiday c),
                       lastAssigned = Some (Finite (int i)) \<rparr>))))"
proof -
  from assignLoop_run [OF countersFor_initial, of P people holidayList 0 ws]
  obtain ws' final where run:
    "assignLoop P people holidayList (initialCounts people) 0 ws = Some (ws', final)"
    by blast
  have len: "length ws' = length ws" using assignLoop_length [OF run] .
  have step: "\<exists>before p c pre post.
             assignLoop P people holidayList (initialCounts people) 0 (take i ws)
               = Some (take i ws', before)
             \<and> availablePeople P people (ws ! i) = pre @ p # post
             \<and> before (person_id p) = Some c
             \<and> (\<forall>q\<in>set (availablePeople P people (ws ! i)).
                   \<exists>cq. before (person_id q) = Some cq \<and> \<not> keyLess cq c)
             \<and> (\<forall>q\<in>set pre. \<exists>cq. before (person_id q) = Some cq \<and> keyLess c cq)
             \<and> ws' ! i = (ws ! i)\<lparr> assignedTo := PersonId (person_id p),
                   hasHoliday := weekContainsHoliday P (startDate (ws ! i)) (endDate (ws ! i)) holidayList \<rparr>
             \<and> assignLoop P people holidayList (initialCounts people) 0 (take (Suc i) ws)
               = Some (take (Suc i) ws',
                   before(person_id p \<mapsto>
                     \<lparr> total = total c + 1,
                       holiday = (if weekContainsHoliday P (startDate (ws ! i)) (endDate (ws ! i)) holidayList
                                  then holiday c + 1 else holiday c),
                       lastAssigned = Some (Finite (int i)) \<rparr>))"
    if i: "i < length ws" and nb: "\<not> isHolidayPeriod (ws ! i)"
      and av: "availablePeople P people (ws ! i) \<noteq> []" for i
  proof -
    from assignLoop_prefix [OF run countersFor_initial i]
    obtain before week' after where b:
      "assignLoop P people holidayList (initialCounts people) 0 (take i ws) = Some (take i ws', before)"
      "countersFor people before"
      "assignWeek P people holidayList before (int i) (ws ! i) = Some (week', after)"
      "ws' ! i = week'"
      "assignLoop P people holidayList (initialCounts people) 0 (take (Suc i) ws)
         = Some (take (Suc i) ws', after)"
      by blast
    from assignWeek_chosen [OF nb av b(2), of holidayList "int i"]
    obtain p c pre post where ch:
      "availablePeople P people (ws ! i) = pre @ p # post"
      "before (person_id p) = Some c"
      "\<forall>q\<in>set pre. \<forall>cq. before (person_id q) = Some cq \<longrightarrow> keyLess c cq"
      "\<forall>q\<in>set (availablePeople P people (ws ! i)).
            \<forall>cq. before (person_id q) = Some cq \<longrightarrow> \<not> keyLess cq c"
      "assignWeek P people holidayList before (int i) (ws ! i) =
          Some ((ws ! i)\<lparr> assignedTo := PersonId (person_id p),
                       hasHoliday := weekContainsHoliday P (startDate (ws ! i)) (endDate (ws ! i)) holidayList \<rparr>,
                before(person_id p \<mapsto>
                  \<lparr> total = total c + 1,
                    holiday = (if weekContainsHoliday P (startDate (ws ! i)) (endDate (ws ! i)) holidayList
                               then holiday c + 1 else holiday c),
                    lastAssigned = Some (Finite (int i)) \<rparr>))"
      by blast
    have has: "\<exists>cq. before (person_id q) = Some cq"
      if "q \<in> set (availablePeople P people (ws ! i))" for q
      using that availablePeople_subset [of P people "ws ! i"] b(2)
      by (auto simp: countersFor_def)
    have m1: "\<forall>q\<in>set (availablePeople P people (ws ! i)).
                   \<exists>cq. before (person_id q) = Some cq \<and> \<not> keyLess cq c"
      using has ch(4) by blast
    have "set pre \<subseteq> set (availablePeople P people (ws ! i))" using ch(1) by auto
    then have m2: "\<forall>q\<in>set pre. \<exists>cq. before (person_id q) = Some cq \<and> keyLess c cq"
      using has ch(3) by blast
    have w': "ws' ! i = (ws ! i)\<lparr> assignedTo := PersonId (person_id p),
                   hasHoliday := weekContainsHoliday P (startDate (ws ! i)) (endDate (ws ! i)) holidayList \<rparr>"
      using b(3,4) ch(5) by simp
    have af: "assignLoop P people holidayList (initialCounts people) 0 (take (Suc i) ws)
               = Some (take (Suc i) ws',
                   before(person_id p \<mapsto>
                     \<lparr> total = total c + 1,
                       holiday = (if weekContainsHoliday P (startDate (ws ! i)) (endDate (ws ! i)) holidayList
                                  then holiday c + 1 else holiday c),
                       lastAssigned = Some (Finite (int i)) \<rparr>))"
      using b(3,5) ch(5) by simp
    note c = conjI [OF b(1) conjI [OF ch(1) conjI [OF ch(2) conjI [OF m1 conjI [OF m2 conjI [OF w' af]]]]]]
    show ?thesis
      by (rule exI [where x = before], rule exI [where x = p], rule exI [where x = c],
          rule exI [where x = pre], rule exI [where x = post]) (rule c)
  qed
  show ?thesis
    apply (rule exI [where x = ws'], rule exI [where x = final])
    apply (intro conjI allI impI)
      apply (rule run)
     apply (rule len)
    apply (rule step)
      apply assumption+
    done
qed

text \<open>The second week of December 2025 goes to the second person, the first person
  having one duty by then.\<close>

lemma selection_rule_example:
  "\<exists>ws' final before p c pre post.
     assignLoop utcPlatform threePeople [] (initialCounts threePeople) 0
        [decemberWeek 20424 Null False, decemberWeek 20431 Null False,
         decemberWeek 20438 (Status ''Holiday Period'') True] = Some (ws', final)
     \<and> person_id p = 2 \<and> total c = 0 \<and> map person_id pre = [1]
     \<and> assignLoop utcPlatform threePeople [] (initialCounts threePeople) 0
          (take 1 [decemberWeek 20424 Null False, decemberWeek 20431 Null False,
                   decemberWeek 20438 (Status ''Holiday Period'') True])
          = Some (take 1 ws', before)
     \<and> availablePeople utcPlatform threePeople (decemberWeek 20431 Null False) = pre @ p # post
     \<and> before (person_id p) = Some c
     \<and> (\<forall>q\<in>set (availablePeople utcPlatform threePeople (decemberWeek 20431 Null False)).
           \<exists>cq. before (person_id q) = Some cq \<and> \<not> keyLess cq c)
     \<and> (\<forall>q\<in>set pre. \<exists>cq. before (person_id q) = Some cq \<and> keyLess c cq)
     \<and> ws' ! 1 = decemberWeek 20431 (PersonId 2) False"
proof -
  define ws where "ws = [decemberWeek 20424 Null False, decemberWeek 20431 Null False,
         decemberWeek 20438 (Status ''Holiday Period'') True]"
  have i: "1 < length ws" by (simp add: ws_def)
  have w1: "ws ! 1 = decemberWeek 20431 Null False" by (simp add: ws_def)
  have nb: "\<not> isHolidayPeriod (ws ! 1)" unfolding w1 by (simp add: decemberWeek_def)
  have avl: "availablePeople utcPlatform threePeople (ws ! 1) = threePeople"
    by (simp add: availablePeople_def)
  have av: "availablePeople utcPlatform threePeople (ws ! 1) \<noteq> []"
    unfolding avl by (simp add: threePeople_def)
  from selection_rule [of utcPlatform threePeople "[]" ws]
  obtain ws' final where run:
    "assignLoop utcPlatform threePeople [] (initialCounts threePeople) 0 ws = Some (ws', final)"
    and every: "\<forall>i<length ws. \<not> isHolidayPeriod (ws ! i) \<longrightarrow> availablePeople utcPlatform threePeople (ws ! i) \<noteq> [] \<longrightarrow>
          (\<exists>before p c pre post.
             assignLoop utcPlatform threePeople [] (initialCounts threePeople) 0 (take i ws)
               = Some (take i ws', before)
             \<and> availablePeople utcPlatform threePeople (ws ! i) = pre @ p # post
             \<and> before (person_id p) = Some c
             \<and> (\<forall>q\<in>set (availablePeople utcPlatform threePeople (ws ! i)).
                   \<exists>cq. before (person_id q) = Some cq \<and> \<not> keyLess cq c)
             \<and> (\<forall>q\<in>set pre. \<exists>cq. before (person_id q) = Some cq \<and> keyLess c cq)
             \<and> ws' ! i = (ws ! i)\<lparr> assignedTo := PersonId (person_id p),
                   hasHoliday := weekContainsHoliday utcPlatform (startDate (ws ! i)) (endDate (ws ! i)) [] \<rparr>
             \<and> assignLoop utcPlatform threePeople [] (initialCounts threePeople) 0 (take (Suc i) ws)
               = Some (take (Suc i) ws',
                   before(person_id p \<mapsto>
                     \<lparr> total = total c + 1,
                       holiday = (if weekContainsHoliday utcPlatform (startDate (ws ! i)) (endDate (ws ! i)) []
                                  then holiday c + 1 else holiday c),
                       lastAssigned = Some (Finite (int i)) \<rparr>)))"
    by blast
  from every [rule_format, OF i nb av]
  obtain before p c pre post where s:
    "assignLoop utcPlatform threePeople [] (initialCounts threePeople) 0 (take 1 ws)
               = Some (take 1 ws', before)"
    "availablePeople utcPlatform threePeople (ws ! 1) = pre @ p # post"
    "before (person_id p) = Some c"
    "\<forall>q\<in>set (availablePeople utcPlatform threePeople (ws ! 1)).
                   \<exists>cq. before (person_id q) = Some cq \<and> \<not> keyLess cq c"
    "\<forall>q\<in>set pre. \<exists>cq. before (person_id q) = Some cq \<and> keyLess c cq"
    "ws' ! 1 = (ws ! 1)\<lparr> assignedTo := PersonId (person_id p),
                   hasHoliday := weekContainsHoliday utcPlatform (startDate (ws ! 1)) (endDate (ws ! 1)) [] \<rparr>"
    by blast
  have av1: "availablePeople utcPlatform threePeople w = threePeople" for w
    by (simp add: availablePeople_def)
  have th: "those (map (\<lambda>person. (initialCounts threePeople) (person_id person)) threePeople)
     = Some [\<lparr> total = 0, holiday = 0, lastAssigned = Some NegInfinity \<rparr>,
             \<lparr> total = 0, holiday = 0, lastAssigned = Some NegInfinity \<rparr>,
             \<lparr> total = 0, holiday = 0, lastAssigned = Some NegInfinity \<rparr>]"
    by (simp add: initialCounts_eq threePeople_def)
  have first: "assignLoop utcPlatform threePeople [] (initialCounts threePeople) 0 (take 1 ws)
      = Some ([decemberWeek 20424 (PersonId 1) False],
              (initialCounts threePeople)(1 \<mapsto> \<lparr> total = 1, holiday = 0, lastAssigned = Some (Finite 0) \<rparr>))"
    unfolding ws_def
    by (simp add: assignWeek_def av1 th)
       (simp add: threePeople_def sortStable_def compareCounts_def decemberWeek_def
          weekContainsHoliday_def)
  have b: "before = (initialCounts threePeople)(1 \<mapsto> \<lparr> total = 1, holiday = 0, lastAssigned = Some (Finite 0) \<rparr>)"
    using s(1) first by simp
  have pin: "p \<in> set threePeople" using s(2) avl by (metis in_set_conv_decomp)
  have tot: "\<forall>q\<in>set threePeople. \<exists>cq. before (person_id q) = Some cq \<and> \<not> keyLess cq c"
    using s(4) avl by simp
  have p2: "person_id p = 2 \<and> total c = 0 \<and> map person_id pre = [1]"
  proof -
    have c2: "before 2 = Some \<lparr> total = 0, holiday = 0, lastAssigned = Some NegInfinity \<rparr>"
      "before 3 = Some \<lparr> total = 0, holiday = 0, lastAssigned = Some NegInfinity \<rparr>"
      "before 1 = Some \<lparr> total = 1, holiday = 0, lastAssigned = Some (Finite 0) \<rparr>"
      by (simp_all add: b initialCounts_eq threePeople_def)
    have n1: "person_id p \<noteq> 1"
    proof
      assume "person_id p = 1"
      then have "c = \<lparr> total = 1, holiday = 0, lastAssigned = Some (Finite 0) \<rparr>"
        using s(3) c2 by simp
      moreover have "\<not> keyLess \<lparr> total = 0, holiday = 0, lastAssigned = Some NegInfinity \<rparr> c"
        using tot c2 by (auto simp: threePeople_def)
      ultimately show False by (simp add: keyLess_def)
    qed
    define A where "A = \<lparr> person_id = 1, person_name = ''Person 1'', person_leave = [] \<rparr>"
    define B where "B = \<lparr> person_id = 2, person_name = ''Person 2'', person_leave = [] \<rparr>"
    define C where "C = \<lparr> person_id = 3, person_name = ''Person 3'', person_leave = [] \<rparr>"
    have ids: "person_id A = 1" "person_id B = 2" "person_id C = 3"
      by (simp_all add: A_def B_def C_def)
    have dec: "[A, B, C] = pre @ p # post"
      using s(2) avl by (simp add: threePeople_def A_def B_def C_def)
    then consider (first) "pre = []" "p = A" | (second) "pre = [A]" "p = B"
      | (third) "pre = [A, B]" "p = C"
      by (auto simp: Cons_eq_append_conv)
    then show ?thesis
    proof cases
      case first
      then show ?thesis using n1 ids by simp
    next
      case second
      then show ?thesis using s(3) c2 ids by auto
    next
      case third
      define z where "z = \<lparr> total = 0, holiday = 0, lastAssigned = Some NegInfinity \<rparr>"
      have cz: "c = z" using s(3) c2 ids third by (simp add: z_def)
      have "B \<in> set pre" using third by simp
      then obtain cq where cq: "before (person_id B) = Some cq" "keyLess c cq"
        using s(5) by blast
      have "cq = z" using cq(1) c2 ids by (simp add: z_def)
      then have "keyLess z z" using cq(2) cz by simp
      then have False by (simp add: keyLess_def lastIndex_def z_def)
      then show ?thesis ..
    qed
  qed
  have w': "ws' ! 1 = decemberWeek 20431 (PersonId 2) False"
    using s(6) [unfolded w1] p2 by (simp add: decemberWeek_def weekContainsHoliday_def)
  note c = conjI [OF run [unfolded ws_def] conjI [OF p2 [THEN conjunct1]
      conjI [OF p2 [THEN conjunct2, THEN conjunct1] conjI [OF p2 [THEN conjunct2, THEN conjunct2]
      conjI [OF s(1) [unfolded ws_def] conjI [OF s(2) [unfolded w1] conjI [OF s(3)
      conjI [OF s(4) [unfolded w1] conjI [OF s(5) w']]]]]]]]]
  show ?thesis
    by (rule exI [where x = ws'], rule exI [where x = final], rule exI [where x = before],
        rule exI [where x = p], rule exI [where x = c], rule exI [where x = pre],
        rule exI [where x = post]) (rule c)
qed

section \<open>Leave and the local time zone\<close>

text \<open>
  \<^verbatim>\<open>isPersonOnLeave\<close> and \<^verbatim>\<open>weekContainsHoliday\<close> rebuild the dates of the week from
  their local year, month and day. The dates of a week are midnights UTC. Where local
  time is at or ahead of UTC the rebuilt date is the date itself; where local time is
  behind UTC it is the day before.
\<close>

lemma Day_west:
  assumes "- msPerDay \<le> a" "a < 0"
  shows "Day (d * msPerDay + a) = d - 1"
proof -
  have "d * msPerDay + a = (d - 1) * msPerDay + (msPerDay + a)" by (simp add: algebra_simps)
  moreover have "0 \<le> msPerDay + a" "msPerDay + a < msPerDay" using assms by simp_all
  ultimately show ?thesis
    unfolding Day_def
    by (metis div_mult_self3 div_pos_pos_trivial add.commute add_0 msPerDay_def
        zero_neq_numeral)
qed

lemma Day_east:
  assumes "0 \<le> a" "a < msPerDay"
  shows "Day (d * msPerDay + a) = d"
  using assms unfolding Day_def
  by (metis div_mult_self3 div_pos_pos_trivial add.commute add_0 msPerDay_def
      zero_neq_numeral)

lemma local_date_west:
  assumes "- msPerDay \<le> LocalTZA P (d * msPerDay)" "LocalTZA P (d * msPerDay) < 0"
    and "\<not> (0 \<le> YearFromDay (d - 1) \<and> YearFromDay (d - 1) \<le> 99)" "\<bar>d - 1\<bar> \<le> 100000000"
  shows "DateUTC (getFullYear P (Some (d * msPerDay))) (getMonth P (Some (d * msPerDay)))
           (getDate P (Some (d * msPerDay))) = Some ((d - 1) * msPerDay)"
  using DateUTC_civil [OF assms(3,4)]
  by (simp add: getFullYear_def getMonth_def getDate_def Day_west [OF assms(1,2)])

lemma local_date_east:
  assumes "0 \<le> LocalTZA P (d * msPerDay)" "LocalTZA P (d * msPerDay) < msPerDay"
    and "\<not> (0 \<le> YearFromDay d \<and> YearFromDay d \<le> 99)" "\<bar>d\<bar> \<le> 100000000"
  shows "DateUTC (getFullYear P (Some (d * msPerDay))) (getMonth P (Some (d * msPerDay)))
           (getDate P (Some (d * msPerDay))) = Some (d * msPerDay)"
  using DateUTC_civil [OF assms(3,4)]
  by (simp add: getFullYear_def getMonth_def getDate_def Day_east [OF assms(1,2)])

text \<open>A platform five hours behind UTC, and a roster of one person who is on leave
  on 2025-12-08.\<close>

definition westPlatform :: platform where
  "westPlatform = \<lparr> LocalTZA = (\<lambda>t. - 18000000), parseFallback = (\<lambda>s. None) \<rparr>"

definition personOnLeave :: Person where
  "personOnLeave =
     \<lparr> person_id = 1, person_name = ''Person 1'',
       person_leave = [\<lparr> leave_start = ''2025-12-08'', leave_end = ''2025-12-08'' \<rparr>] \<rparr>"

definition leaveState :: State where
  "leaveState =
     \<lparr> st_year = 2025, st_startDayOfWeek = 2, st_startMonth = 11, st_people = [personOnLeave],
       st_schedule = [], st_holidays = [], st_holidayCounts = Map.empty \<rparr>"

lemma leave_date: "newDate P ''2025-12-08T00:00:00Z'' = Some (20430 * msPerDay)"
  by (simp add: newDate_def isoDate_def digitsValue_def digitValue_def DaysInMonth_def
      monthStart_def InLeapYear_2025 MakeDay_2025)

lemma west_week:
  assumes "20090 \<le> d" "d < 20454"
  shows "DateUTC (getFullYear westPlatform (Some (d * msPerDay)))
           (getMonth westPlatform (Some (d * msPerDay)))
           (getDate westPlatform (Some (d * msPerDay))) = Some ((d - 1) * msPerDay)"
  using assms
  by (intro local_date_west) (simp_all add: westPlatform_def msPerDay_def YearFromDay_2025)

lemma civil_2025_12:
  assumes "1 \<le> dt" "dt \<le> 31"
  shows "YearFromDay (20422 + dt) = 2025" "MonthFromDay (20422 + dt) = 11"
    "DateFromDay (20422 + dt) = dt"
  using civil_MakeDay [of 11 dt 2025] assms
  by (simp_all add: MakeDay_2025 DaysInMonth_def monthStart_def InLeapYear_2025)

text \<open>
  C2 fails on the code. Five hours behind UTC, the person on leave on 2025-12-08 is
  assigned the week from 2025-12-02 to 2025-12-08: the week is compared as 2025-12-01
  to 2025-12-07, which the leave does not overlap.
\<close>

theorem leave_day_assigned:
  "\<exists>st'. generateSchedule westPlatform leaveState [] = Some st'
     \<and> st_schedule st' \<noteq> []
     \<and> formatDateYYYYMMDD (startDate (hd (st_schedule st'))) = ''2025-12-02''
     \<and> formatDateYYYYMMDD (endDate (hd (st_schedule st'))) = ''2025-12-08''
     \<and> assignedTo (hd (st_schedule st')) = PersonId 1
     \<and> person_leave personOnLeave = [\<lparr> leave_start = ''2025-12-08'', leave_end = ''2025-12-08'' \<rparr>]
     \<and> newDate westPlatform ''2025-12-08T00:00:00Z'' = endDate (hd (st_schedule st'))
     \<and> \<not> isPersonOnLeave westPlatform [personOnLeave] 1
           (startDate (hd (st_schedule st'))) (endDate (hd (st_schedule st')))"
proof -
  define rest where "rest = [decemberWeek 20431 Null False,
      decemberWeek 20438 (Status ''Holiday Period'') True,
      decemberWeek 20445 (Status ''Holiday Period'') True,
      decemberWeek 20452 (Status ''Holiday Period'') True]"
  have weeks: "weeksFrom westPlatform 2025 [] (Some (20424 * msPerDay)) =
      decemberWeek 20424 Null False # rest"
    by (simp add: december_weeks rest_def)
  have nl: "\<not> isPersonOnLeave westPlatform [personOnLeave] 1
      (Some (20424 * msPerDay)) (Some (20430 * msPerDay))"
    by (simp add: isPersonOnLeave_def personOnLeave_def leave_date west_week)
  have av: "availablePeople westPlatform [personOnLeave] (decemberWeek 20424 Null False)
      = [personOnLeave]"
    using nl by (simp add: availablePeople_def decemberWeek_def personOnLeave_def)
  have ic: "initialCounts [personOnLeave] 1 =
      Some \<lparr> total = 0, holiday = 0, lastAssigned = Some NegInfinity \<rparr>"
    by (simp add: initialCounts_eq personOnLeave_def)
  have pid: "person_id personOnLeave = 1" by (simp add: personOnLeave_def)
  have a1: "assignWeek westPlatform [personOnLeave] [] (initialCounts [personOnLeave]) 0
        (decemberWeek 20424 Null False)
      = Some (decemberWeek 20424 (PersonId 1) False,
              (initialCounts [personOnLeave])
                (1 \<mapsto> \<lparr> total = 1, holiday = 0, lastAssigned = Some (Finite 0) \<rparr>))"
    by (simp add: assignWeek_def av pid ic sortStable_def)
       (simp add: decemberWeek_def weekContainsHoliday_def)
  have "countersFor [personOnLeave] ((initialCounts [personOnLeave])
                (1 \<mapsto> \<lparr> total = 1, holiday = 0, lastAssigned = Some (Finite 0) \<rparr>))"
    using assignWeek_cases [OF countersFor_initial, of westPlatform "[personOnLeave]" "[]" 0
        "decemberWeek 20424 Null False"] a1
    by auto
  from assignLoop_run [OF this, of westPlatform "[]" 1 rest]
  obtain rest' counts' where r: "assignLoop westPlatform [personOnLeave] []
       ((initialCounts [personOnLeave])
                (1 \<mapsto> \<lparr> total = 1, holiday = 0, lastAssigned = Some (Finite 0) \<rparr>)) 1 rest
       = Some (rest', counts')"
    by blast
  define st' where "st' = leaveState\<lparr> st_schedule := decemberWeek 20424 (PersonId 1) False # rest',
     st_holidayCounts := (\<lambda>personId. map_option (\<lambda>c. \<lparr> total = total c, holiday = holiday c,
                                                     lastAssigned = None \<rparr>) (counts' personId)) \<rparr>"
  have g: "generateSchedule westPlatform leaveState [] = Some st'"
    by (simp add: generateSchedule_def generateWeeks_def assignPeopleToWeeks_def leaveState_def
        december_start weeks a1 r st'_def)
  have h: "hd (st_schedule st') = decemberWeek 20424 (PersonId 1) False"
    by (simp add: st'_def)
  have n: "st_schedule st' \<noteq> []" by (simp add: st'_def)
  have dg: "natToString 2 = ''2''" "natToString 8 = ''8''" "natToString 12 = ''12''"
    by (simp_all add: natToString.simps digitChar_def)
  have f1: "formatDateYYYYMMDD (startDate (hd (st_schedule st'))) = ''2025-12-02''"
    using civil_2025_12 [of 2]
    by (simp add: h decemberWeek_def formatDateYYYYMMDD_def intToString_def natToString_digits
        dg padStart2_def)
  have f2: "formatDateYYYYMMDD (endDate (hd (st_schedule st'))) = ''2025-12-08''"
    using civil_2025_12 [of 8]
    by (simp add: h decemberWeek_def formatDateYYYYMMDD_def intToString_def natToString_digits
        dg padStart2_def)
  have a: "assignedTo (hd (st_schedule st')) = PersonId 1" by (simp add: h decemberWeek_def)
  have l: "person_leave personOnLeave = [\<lparr> leave_start = ''2025-12-08'', leave_end = ''2025-12-08'' \<rparr>]"
    by (simp add: personOnLeave_def)
  have e: "newDate westPlatform ''2025-12-08T00:00:00Z'' = endDate (hd (st_schedule st'))"
    by (simp add: h decemberWeek_def leave_date)
  have nl': "\<not> isPersonOnLeave westPlatform [personOnLeave] 1
           (startDate (hd (st_schedule st'))) (endDate (hd (st_schedule st')))"
    using nl by (simp add: h decemberWeek_def)
  note c = conjI [OF g conjI [OF n conjI [OF f1 conjI [OF f2 conjI [OF a conjI [OF l conjI [OF e nl']]]]]]]
  show ?thesis by (rule exI [where x = st']) (rule c)
qed

section \<open>The selection behind UTC\<close>

text \<open>A second person without leave, and a holiday on 2025-12-01, the day before the
  first week of the December schedule.\<close>

definition personFree :: Person where
  "personFree = \<lparr> person_id = 2, person_name = ''Person 2'', person_leave = [] \<rparr>"

definition holidayBefore :: Holiday where
  "holidayBefore = \<lparr> holiday_date = ''2025-12-01'', holiday_name = ''Day before'' \<rparr>"

definition twoPeopleState :: State where
  "twoPeopleState =
     \<lparr> st_year = 2025, st_startDayOfWeek = 2, st_startMonth = 11,
       st_people = [personOnLeave, personFree],
       st_schedule = [], st_holidays = [holidayBefore], st_holidayCounts = Map.empty \<rparr>"

lemma holiday_date: "newDate P ''2025-12-01T00:00:00Z'' = Some (20423 * msPerDay)"
  by (simp add: newDate_def isoDate_def digitsValue_def digitValue_def DaysInMonth_def
      monthStart_def InLeapYear_2025 MakeDay_2025)

lemma year_after_99: "0 \<le> d \<Longrightarrow> \<not> (0 \<le> YearFromDay d \<and> YearFromDay d \<le> 99)"
  by (simp add: YearFromDay_le_iff DayFromYear_def)

lemma west_day:
  assumes "1 \<le> d" "d \<le> 100000000"
  shows "DateUTC (getFullYear westPlatform (Some (d * msPerDay)))
           (getMonth westPlatform (Some (d * msPerDay)))
           (getDate westPlatform (Some (d * msPerDay))) = Some ((d - 1) * msPerDay)"
  using assms
  by (intro local_date_west year_after_99) (simp_all add: westPlatform_def msPerDay_def)

text \<open>The weeks of December 2025 as the generator flags them five hours behind UTC:
  the first week, from 2025-12-02, has the holiday flag for the holiday of 2025-12-01.\<close>

definition westWeek :: "int \<Rightarrow> assignment \<Rightarrow> bool \<Rightarrow> bool \<Rightarrow> Week" where
  "westWeek d a h b =
     \<lparr> startDate = Some (d * msPerDay), endDate = Some ((d + 6) * msPerDay), assignedTo = a,
       hasHoliday = h, isHolidayPeriod = b, week_notes = [] \<rparr>"

lemma west_holiday:
  assumes "1 \<le> d" "d \<le> 99999000"
  shows "weekContainsHoliday westPlatform (Some (d * msPerDay)) (Some ((d + 6) * msPerDay))
           [holidayBefore] = (d - 1 \<le> 20423 \<and> 20423 \<le> d + 5)"
proof -
  have a: "DateUTC (getFullYear westPlatform (Some (d * msPerDay)))
           (getMonth westPlatform (Some (d * msPerDay)))
           (getDate westPlatform (Some (d * msPerDay))) = Some ((d - 1) * msPerDay)"
    using assms by (intro west_day) simp_all
  have b: "DateUTC (getFullYear westPlatform (Some ((d + 6) * msPerDay)))
           (getMonth westPlatform (Some ((d + 6) * msPerDay)))
           (getDate westPlatform (Some ((d + 6) * msPerDay))) = Some ((d + 6 - 1) * msPerDay)"
    using assms by (intro west_day) simp_all
  show ?thesis
    unfolding weekContainsHoliday_def
    by (simp add: Let_def holidayBefore_def holiday_date a b)
qed

lemma west_weeks:
  "weeksFrom westPlatform 2025 [holidayBefore] (Some (20424 * msPerDay)) =
     [westWeek 20424 Null True False, westWeek 20431 Null False False,
      westWeek 20438 (Status ''Holiday Period'') False True,
      westWeek 20445 (Status ''Holiday Period'') False True,
      westWeek 20452 (Status ''Holiday Period'') False True]"
proof -
  have r: "yearInRange 2025" by (simp add: yearInRange_def)
  have y: "YearFromDay (Day (d * msPerDay)) = 2025" if "20089 \<le> d" "d < 20454" for d
    using that by (simp add: YearFromDay_2025)
  have stop: "weeksFrom westPlatform 2025 [holidayBefore] (Some (20459 * msPerDay)) = []"
    by (rule weeksFrom_other) (simp add: YearFromDay_2026)
  have step: "weeksFrom westPlatform 2025 [holidayBefore] (Some (d * msPerDay)) =
      westWeek d (if d \<le> 20455 \<and> 20444 \<le> d + 6 then Status ''Holiday Period'' else Null)
                 (d - 1 \<le> 20423 \<and> 20423 \<le> d + 5)
                 (d \<le> 20455 \<and> 20444 \<le> d + 6)
      # weeksFrom westPlatform 2025 [holidayBefore] (Some ((d + 7) * msPerDay))"
    if "20089 \<le> d" "d < 20454" for d
  proof -
    have h: "weekContainsHoliday westPlatform (Some (d * msPerDay)) (Some ((d + 6) * msPerDay))
           [holidayBefore] = (d - 1 \<le> 20423 \<and> 20423 \<le> d + 5)"
      using that by (intro west_holiday) simp_all
    show ?thesis
      unfolding weeksFrom_Some [OF y [OF that] r]
      by (simp add: westWeek_def isWeekInHolidayPeriod_eq period_2025 days_add h)
  qed
  show ?thesis
    by (simp add: step stop)
qed

lemma west_leave:
  assumes "1 \<le> d" "d \<le> 99999000"
  shows "isPersonOnLeave westPlatform [personOnLeave, personFree] k
           (Some (d * msPerDay)) (Some ((d + 6) * msPerDay))
         = (k = 1 \<and> 20430 \<le> d + 5 \<and> d - 1 \<le> 20430)"
proof -
  have a: "DateUTC (getFullYear westPlatform (Some (d * msPerDay)))
           (getMonth westPlatform (Some (d * msPerDay)))
           (getDate westPlatform (Some (d * msPerDay))) = Some ((d - 1) * msPerDay)"
    using assms by (intro west_day) simp_all
  have b: "DateUTC (getFullYear westPlatform (Some ((d + 6) * msPerDay)))
           (getMonth westPlatform (Some ((d + 6) * msPerDay)))
           (getDate westPlatform (Some ((d + 6) * msPerDay))) = Some ((d + 6 - 1) * msPerDay)"
    using assms by (intro west_day) simp_all
  show ?thesis
    unfolding isPersonOnLeave_def
    by (simp add: Let_def personOnLeave_def personFree_def leave_date a b)
qed

lemma west_run:
  "assignLoop westPlatform [personOnLeave, personFree] [holidayBefore]
     (initialCounts [personOnLeave, personFree]) 0
     [westWeek 20424 Null True False, westWeek 20431 Null False False,
      westWeek 20438 (Status ''Holiday Period'') False True,
      westWeek 20445 (Status ''Holiday Period'') False True,
      westWeek 20452 (Status ''Holiday Period'') False True] =
   Some ([westWeek 20424 (PersonId 1) True False, westWeek 20431 (PersonId 2) False False,
          westWeek 20438 (Status ''Holiday Period'') False True,
          westWeek 20445 (Status ''Holiday Period'') False True,
          westWeek 20452 (Status ''Holiday Period'') False True],
         (initialCounts [personOnLeave, personFree])
           (1 \<mapsto> \<lparr> total = 1, holiday = 1, lastAssigned = Some (Finite 0) \<rparr>,
            2 \<mapsto> \<lparr> total = 1, holiday = 0, lastAssigned = Some (Finite 1) \<rparr>))"
proof -
  define people where "people = [personOnLeave, personFree]"
  define z where "z = \<lparr> total = 0, holiday = 0, lastAssigned = Some NegInfinity \<rparr>"
  have ids: "person_id personOnLeave = 1" "person_id personFree = 2"
    by (simp_all add: personOnLeave_def personFree_def)
  have l1: "\<not> isPersonOnLeave westPlatform [personOnLeave, personFree] k
      (Some (20424 * msPerDay)) (Some (20430 * msPerDay))" for k
    using west_leave [of 20424 k] by simp
  have l2: "isPersonOnLeave westPlatform [personOnLeave, personFree] k
      (Some (20431 * msPerDay)) (Some (20437 * msPerDay)) = (k = 1)" for k
    using west_leave [of 20431 k] by simp
  have av1: "availablePeople westPlatform people (westWeek 20424 Null True False) = people"
    by (simp add: availablePeople_def westWeek_def people_def l1 ids)
  have av2: "availablePeople westPlatform people (westWeek 20431 Null False False) = [personFree]"
    by (simp add: availablePeople_def westWeek_def people_def l2 ids)
  have hw: "isHolidayPeriod (westWeek d a h b) = b" "startDate (westWeek d a h b) = Some (d * msPerDay)"
    "endDate (westWeek d a h b) = Some ((d + 6) * msPerDay)" for d a h b
    by (simp_all add: westWeek_def)
  have ne: "people \<noteq> []" by (simp add: people_def)
  have th: "those (map (\<lambda>person. c (person_id person)) people) = Some [x, y]"
    if "c 1 = Some x" "c 2 = Some y" for c :: HolidayCounts and x y
    using that by (simp add: people_def ids)
  have ic: "initialCounts people 1 = Some z" "initialCounts people 2 = Some z"
    by (simp_all add: initialCounts_eq people_def ids z_def)
  have h1: "weekContainsHoliday westPlatform (Some (20424 * msPerDay)) (Some (20430 * msPerDay))
           [holidayBefore]"
    using west_holiday [of 20424] by simp
  have h2: "\<not> weekContainsHoliday westPlatform (Some (20431 * msPerDay)) (Some (20437 * msPerDay))
           [holidayBefore]"
    using west_holiday [of 20431] by simp
  have s1: "sortStable (\<lambda>a b. compareCounts (snd a) (snd b)) (zip people [z, z])
      = [(personOnLeave, z), (personFree, z)]"
    by (simp add: people_def sortStable_def compareCounts_def z_def)
  have a1: "assignWeek westPlatform people [holidayBefore] (initialCounts people) 0
        (westWeek 20424 Null True False)
      = Some (westWeek 20424 (PersonId 1) True False,
              (initialCounts people)(1 \<mapsto> \<lparr> total = 1, holiday = 1, lastAssigned = Some (Finite 0) \<rparr>))"
    by (simp add: assignWeek_def hw av1 ne th [of "initialCounts people" z z, OF ic] s1 ids h1)
       (simp add: westWeek_def z_def)
  define c1 where "c1 = (initialCounts people)
      (1 \<mapsto> \<lparr> total = 1, holiday = 1, lastAssigned = Some (Finite 0) \<rparr>)"
  have ic1: "c1 2 = Some z" by (simp add: c1_def ic)
  have "assignWeek westPlatform people [holidayBefore] c1 1 (westWeek 20431 Null False False)
      = Some (westWeek 20431 (PersonId 2) False False,
              c1(2 \<mapsto> \<lparr> total = 1, holiday = 0, lastAssigned = Some (Finite 1) \<rparr>))"
    by (simp add: assignWeek_def hw av2 ic1 sortStable_def ids h2)
       (simp add: westWeek_def z_def)
  note a2 = this [unfolded c1_def]
  have hp: "assignWeek westPlatform people [holidayBefore] c i (westWeek d a h True)
      = Some (westWeek d a h True, c)" for c i d a h
    by (simp add: assignWeek_def westWeek_def)
  show ?thesis
    unfolding people_def [symmetric]
    by (simp add: a1 a2 hp)
qed

text \<open>
  C1 fails on the code, by the local reading of the week of the section on leave.
  Five hours behind UTC, with person 1 on leave on 2025-12-08, person 2 never on
  leave, both without a duty yet, and one holiday, on 2025-12-01: the week from
  2025-12-02 to 2025-12-08 is assigned to person 1, who is on leave on its last day,
  and not to person 2, the one person available for it; and person 1 is counted a
  holiday duty for it, and the week flagged, though the holiday is the day before
  the week.
\<close>

theorem shifted_week_selection:
  "\<exists>st'. generateSchedule westPlatform twoPeopleState [holidayBefore] = Some st'
     \<and> map (\<lambda>w. (formatDateYYYYMMDD (startDate w), formatDateYYYYMMDD (endDate w),
                  assignedTo w, hasHoliday w)) (take 2 (st_schedule st'))
         = [(''2025-12-02'', ''2025-12-08'', PersonId 1, True),
            (''2025-12-09'', ''2025-12-15'', PersonId 2, False)]
     \<and> st_holidayCounts st' 1 = Some \<lparr> total = 1, holiday = 1, lastAssigned = None \<rparr>
     \<and> st_holidayCounts st' 2 = Some \<lparr> total = 1, holiday = 0, lastAssigned = None \<rparr>
     \<and> map person_leave (st_people twoPeopleState)
         = [[\<lparr> leave_start = ''2025-12-08'', leave_end = ''2025-12-08'' \<rparr>], []]
     \<and> map holiday_date [holidayBefore] = [''2025-12-01'']"
proof -
  define st' where "st' = twoPeopleState\<lparr> st_schedule :=
         [westWeek 20424 (PersonId 1) True False, westWeek 20431 (PersonId 2) False False,
          westWeek 20438 (Status ''Holiday Period'') False True,
          westWeek 20445 (Status ''Holiday Period'') False True,
          westWeek 20452 (Status ''Holiday Period'') False True],
       st_holidayCounts := (\<lambda>personId. map_option
           (\<lambda>c. \<lparr> total = total c, holiday = holiday c, lastAssigned = None \<rparr>)
           (((initialCounts [personOnLeave, personFree])
              (1 \<mapsto> \<lparr> total = 1, holiday = 1, lastAssigned = Some (Finite 0) \<rparr>,
               2 \<mapsto> \<lparr> total = 1, holiday = 0, lastAssigned = Some (Finite 1) \<rparr>)) personId)) \<rparr>"
  have g: "generateSchedule westPlatform twoPeopleState [holidayBefore] = Some st'"
    by (simp add: generateSchedule_def generateWeeks_def assignPeopleToWeeks_def
        twoPeopleState_def december_start west_weeks west_run st'_def del: assignLoop.simps)
  have dg: "natToString 2 = ''2''" "natToString 8 = ''8''" "natToString 9 = ''9''"
    "natToString 12 = ''12''" "natToString 15 = ''15''"
    by (simp_all add: natToString.simps digitChar_def)
  have f: "formatDateYYYYMMDD (Some ((20422 + dt) * msPerDay)) =
      ''2025-12-'' @ padStart2 (natToString (nat dt))" if "1 \<le> dt" "dt \<le> 31" for dt
    using civil_2025_12 [OF that] that
    by (simp add: formatDateYYYYMMDD_def intToString_def natToString_digits dg padStart2_def)
  have m: "map (\<lambda>w. (formatDateYYYYMMDD (startDate w), formatDateYYYYMMDD (endDate w),
                  assignedTo w, hasHoliday w)) (take 2 (st_schedule st'))
         = [(''2025-12-02'', ''2025-12-08'', PersonId 1, True),
            (''2025-12-09'', ''2025-12-15'', PersonId 2, False)]"
    using f [of 2] f [of 8] f [of 9] f [of 15]
    by (simp add: st'_def westWeek_def dg padStart2_def)
  have c1: "st_holidayCounts st' 1 = Some \<lparr> total = 1, holiday = 1, lastAssigned = None \<rparr>"
    by (simp add: st'_def)
  have c2: "st_holidayCounts st' 2 = Some \<lparr> total = 1, holiday = 0, lastAssigned = None \<rparr>"
    by (simp add: st'_def)
  have l: "map person_leave (st_people twoPeopleState)
         = [[\<lparr> leave_start = ''2025-12-08'', leave_end = ''2025-12-08'' \<rparr>], []]"
    by (simp add: twoPeopleState_def personOnLeave_def personFree_def)
  have h: "map holiday_date [holidayBefore] = [''2025-12-01'']"
    by (simp add: holidayBefore_def)
  note c = conjI [OF g conjI [OF m conjI [OF c1 conjI [OF c2 conjI [OF l h]]]]]
  show ?thesis by (rule exI [where x = st']) (rule c)
qed

section \<open>The recount of the assignments\<close>

text \<open>\<^verbatim>\<open>recalculateAssignments\<close>: the counters start at zero for every person of the
  roster, and every week whose assignment is a number with a counter adds to it.\<close>

definition recountWeek :: "Week \<Rightarrow> HolidayCounts \<Rightarrow> HolidayCounts" where
  "recountWeek week counts =
     (case assignedTo week of
        PersonId personId \<Rightarrow>
          (case counts personId of
             None \<Rightarrow> counts
           | Some c \<Rightarrow>
               counts(personId \<mapsto>
                 c\<lparr> total := total c + 1,
                    holiday := (if hasHoliday week then holiday c + 1 else holiday c) \<rparr>))
      | _ \<Rightarrow> counts)"

definition recalculateAssignments :: "State \<Rightarrow> State" where
  "recalculateAssignments st =
     st\<lparr> st_holidayCounts :=
       fold recountWeek (st_schedule st)
         (fold (\<lambda>person counts.
                  counts(person_id person \<mapsto> \<lparr> total = 0, holiday = 0, lastAssigned = None \<rparr>))
            (st_people st) Map.empty) \<rparr>"

text \<open>The numbers of weeks, and of weeks with a holiday, assigned to a person.\<close>

definition dutiesOf :: "int \<Rightarrow> Week list \<Rightarrow> int" where
  "dutiesOf k ws = int (length (filter (\<lambda>w. assignedTo w = PersonId k) ws))"

definition holidayDutiesOf :: "int \<Rightarrow> Week list \<Rightarrow> int" where
  "holidayDutiesOf k ws = int (length (filter (\<lambda>w. assignedTo w = PersonId k \<and> hasHoliday w) ws))"

lemma fold_recountWeek:
  "fold recountWeek ws m k =
     (case m k of
        None \<Rightarrow> None
      | Some c \<Rightarrow> Some (c\<lparr> total := total c + dutiesOf k ws,
                            holiday := holiday c + holidayDutiesOf k ws \<rparr>))"
proof (induction ws arbitrary: m)
  case Nil
  show ?case by (simp add: dutiesOf_def holidayDutiesOf_def split: option.splits)
next
  case (Cons w ws)
  show ?case
    by (simp add: Cons.IH)
       (auto simp: recountWeek_def dutiesOf_def holidayDutiesOf_def
          split: assignment.splits option.splits)
qed

text \<open>
  C6. The recount changes nothing of the state but the counters; the counters it
  sets are, for every person of the roster, the number of weeks whose assignment is
  that person and the number of those weeks whose holiday flag is set, and no counter
  for anyone else; and running it twice gives the state that running it once gives.
\<close>

theorem recount_idempotent:
  "st_schedule (recalculateAssignments st) = st_schedule st
   \<and> st_people (recalculateAssignments st) = st_people st
   \<and> recalculateAssignments st = st\<lparr> st_holidayCounts := st_holidayCounts (recalculateAssignments st) \<rparr>
   \<and> st_holidayCounts (recalculateAssignments st) =
       (\<lambda>k. if k \<in> person_id ` set (st_people st)
            then Some \<lparr> total = dutiesOf k (st_schedule st),
                        holiday = holidayDutiesOf k (st_schedule st),
                        lastAssigned = None \<rparr>
            else None)
   \<and> recalculateAssignments (recalculateAssignments st) = recalculateAssignments st"
  by (simp add: recalculateAssignments_def fold_recountWeek fold_initial fun_eq_iff)

section \<open>The CSV codec\<close>

text \<open>
  Strings are lists of characters; a character stands for a code unit below 256.
  The functions below are the string methods the codec calls, on such strings.
\<close>

definition LF :: char where "LF = CHR 0x0A"

definition CR :: char where "CR = CHR 0x0D"

definition DQUOTE :: char where "DQUOTE = CHR 0x22"

definition COMMA :: char where "COMMA = CHR 0x2C"

text \<open>\<^verbatim>\<open>xs.join(sep)\<close>.\<close>

fun joinWith :: "string \<Rightarrow> string list \<Rightarrow> string" where
  "joinWith sep [] = []"
| "joinWith sep [x] = x"
| "joinWith sep (x # y # ys) = x @ sep @ joinWith sep (y # ys)"

text \<open>\<^verbatim>\<open>s.split(/\r?\n/)\<close>: a line ends at a line feed, or at a carriage return
  that a line feed follows. The second argument is the line read so far.\<close>

fun splitLinesFrom :: "string \<Rightarrow> string \<Rightarrow> string list" where
  "splitLinesFrom [] cur = [cur]"
| "splitLinesFrom (c # cs) cur =
     (if c = LF then cur # splitLinesFrom cs []
      else (case cs of
              [] \<Rightarrow> splitLinesFrom cs (cur @ [c])
            | d # ds \<Rightarrow>
                if c = CR \<and> d = LF then cur # splitLinesFrom ds []
                else splitLinesFrom cs (cur @ [c])))"

definition splitLines :: "string \<Rightarrow> string list" where
  "splitLines s = splitLinesFrom s []"

text \<open>\<^verbatim>\<open>s.split(',')\<close>.\<close>

fun splitCommaFrom :: "string \<Rightarrow> string \<Rightarrow> string list" where
  "splitCommaFrom [] cur = [cur]"
| "splitCommaFrom (c # cs) cur =
     (if c = COMMA then cur # splitCommaFrom cs [] else splitCommaFrom cs (cur @ [c]))"

text \<open>\<^verbatim>\<open>s.trim()\<close>: white space and line terminators below 256.\<close>

definition isWhiteSpace :: "char \<Rightarrow> bool" where
  "isWhiteSpace c = ((of_char c :: nat) \<in> {9, 10, 11, 12, 13, 32, 160})"

definition trim :: "string \<Rightarrow> string" where
  "trim s = rev (dropWhile isWhiteSpace (rev (dropWhile isWhiteSpace s)))"

text \<open>\<^verbatim>\<open>s.toLowerCase()\<close>, on the letters below 256: the capital letters from A to
  Z and from 0xC0 to 0xDE (but the multiplication sign 0xD7) have the small letters
  32 above them.\<close>

definition upperLetters :: string where
  "upperLetters = ''ABCDEFGHIJKLMNOPQRSTUVWXYZ'' @
     [CHR 0xC0, CHR 0xC1, CHR 0xC2, CHR 0xC3, CHR 0xC4, CHR 0xC5, CHR 0xC6, CHR 0xC7,
     CHR 0xC8, CHR 0xC9, CHR 0xCA, CHR 0xCB, CHR 0xCC, CHR 0xCD, CHR 0xCE, CHR 0xCF,
     CHR 0xD0, CHR 0xD1, CHR 0xD2, CHR 0xD3, CHR 0xD4, CHR 0xD5, CHR 0xD6, CHR 0xD8,
     CHR 0xD9, CHR 0xDA, CHR 0xDB, CHR 0xDC, CHR 0xDD, CHR 0xDE]"

definition lowerLetters :: string where
  "lowerLetters = ''abcdefghijklmnopqrstuvwxyz'' @
     [CHR 0xE0, CHR 0xE1, CHR 0xE2, CHR 0xE3, CHR 0xE4, CHR 0xE5, CHR 0xE6, CHR 0xE7,
     CHR 0xE8, CHR 0xE9, CHR 0xEA, CHR 0xEB, CHR 0xEC, CHR 0xED, CHR 0xEE, CHR 0xEF,
     CHR 0xF0, CHR 0xF1, CHR 0xF2, CHR 0xF3, CHR 0xF4, CHR 0xF5, CHR 0xF6, CHR 0xF8,
     CHR 0xF9, CHR 0xFA, CHR 0xFB, CHR 0xFC, CHR 0xFD, CHR 0xFE]"

definition lowerChar :: "char \<Rightarrow> char" where
  "lowerChar c = (case map_of (zip upperLetters lowerLetters) c of None \<Rightarrow> c | Some d \<Rightarrow> d)"

definition toLowerCase :: "string \<Rightarrow> string" where
  "toLowerCase s = map lowerChar s"

definition CSV_HEADERS :: "string list" where
  "CSV_HEADERS = [''Week Start Date'', ''Week End Date'', ''Assigned To'', ''Holidays'', ''Notes'']"

subsection \<open>Encoding\<close>

definition escapeCSV :: "string \<Rightarrow> string" where
  "escapeCSV str =
     (if COMMA \<in> set str \<or> LF \<in> set str \<or> DQUOTE \<in> set str
      then [DQUOTE] @ concat (map (\<lambda>c. if c = DQUOTE then [DQUOTE, DQUOTE] else [c]) str) @ [DQUOTE]
      else str)"

definition getPersonName :: "Person list \<Rightarrow> assignment \<Rightarrow> string" where
  "getPersonName people a =
     (case a of
        PersonId n \<Rightarrow>
          (case find (\<lambda>p. person_id p = n) people of
             Some person \<Rightarrow> person_name person
           | None \<Rightarrow> ''Unknown Person'')
      | Status s \<Rightarrow> s
      | Null \<Rightarrow> ''Unassigned'')"

definition getHolidaysInWeek :: "platform \<Rightarrow> Holiday list \<Rightarrow> Date \<Rightarrow> Date \<Rightarrow> Holiday list" where
  "getHolidaysInWeek P holidays start_date end_date =
     (if holidays = [] then []
      else if start_date = None \<or> end_date = None then []
      else filter (\<lambda>holiday.
             let holidayDate = newDate P (holiday_date holiday @ ''T00:00:00Z'');
                 startUTC = DateUTC (getFullYear P start_date) (getMonth P start_date) (getDate P start_date);
                 endUTC = DateUTC (getFullYear P end_date) (getMonth P end_date) (getDate P end_date)
             in dge holidayDate startUTC \<and> dle holidayDate endUTC) holidays)"

text \<open>The text of the holidays of a week, one line for each holiday.\<close>

definition holidaysStr :: "platform \<Rightarrow> State \<Rightarrow> Week \<Rightarrow> string" where
  "holidaysStr P st week =
     joinWith [LF]
       (map (\<lambda>h. holiday_date h @ '': '' @ holiday_name h)
          (getHolidaysInWeek P (st_holidays st) (startDate week) (endDate week)))"

definition exportRow :: "platform \<Rightarrow> State \<Rightarrow> Week \<Rightarrow> string" where
  "exportRow P st week =
     (let startDateStr = formatDateYYYYMMDD (startDate week);
          endDateStr = formatDateYYYYMMDD (endDate week);
          assignedName = getPersonName (st_people st) (assignedTo week);
          notesStr = week_notes week
      in joinWith [COMMA]
           [escapeCSV startDateStr, escapeCSV endDateStr, escapeCSV assignedName,
            escapeCSV (holidaysStr P st week), escapeCSV notesStr])"

text \<open>The text \<^verbatim>\<open>exportScheduleCSV\<close> downloads; \<open>None\<close> when the schedule is empty
  and nothing is exported.\<close>

definition exportScheduleCSV :: "platform \<Rightarrow> State \<Rightarrow> string option" where
  "exportScheduleCSV P st =
     (if st_schedule st = [] then None
      else Some (joinWith [LF] (joinWith [COMMA] CSV_HEADERS # map (exportRow P st) (st_schedule st))))"

subsection \<open>Decoding\<close>

text \<open>\<^verbatim>\<open>str.replace(/""/g, '"')\<close>.\<close>

fun unDouble :: "string \<Rightarrow> string" where
  "unDouble (a # b # cs) =
     (if a = DQUOTE \<and> b = DQUOTE then DQUOTE # unDouble cs else a # unDouble (b # cs))"
| "unDouble cs = cs"

definition unescapeCSV :: "string \<Rightarrow> string" where
  "unescapeCSV field =
     (if field \<noteq> [] \<and> hd field = DQUOTE \<and> last field = DQUOTE
      then unDouble (butlast (tl field)) else field)"

text \<open>The scanner of a data line: the values so far, the value being read, and
  whether the scanner is within quotes.\<close>

fun parseLine :: "string \<Rightarrow> string list \<Rightarrow> string \<Rightarrow> bool \<Rightarrow> string list" where
  "parseLine [] values currentVal inQuotes = values @ [unescapeCSV (trim currentVal)]"
| "parseLine (c # cs) values currentVal inQuotes =
     (if c = DQUOTE then parseLine cs values currentVal (\<not> inQuotes)
      else if c = COMMA \<and> \<not> inQuotes
           then parseLine cs (values @ [unescapeCSV (trim currentVal)]) [] inQuotes
      else parseLine cs values (currentVal @ [c]) inQuotes)"

definition getPersonIdFromName :: "Person list \<Rightarrow> string \<Rightarrow> assignment" where
  "getPersonIdFromName people name =
     (case find (\<lambda>p. toLowerCase (person_name p) = toLowerCase name) people of
        Some person \<Rightarrow> PersonId (person_id person)
      | None \<Rightarrow>
          if name = ''Holiday Period'' \<or> name = ''No one available'' \<or> name = ''Unassigned''
             \<or> name = []
          then (if name = [] then Null else Status name)
          else Null)"

text \<open>The warnings of a row that is skipped, and the errors that end an import.\<close>

datatype rowWarning = IncorrectColumns nat | InvalidDateFormat

datatype importError = FileEmpty | NoDataRows | InvalidHeaders | NoValidData

definition errorMessage :: "importError \<Rightarrow> string" where
  "errorMessage e =
     (case e of
        FileEmpty \<Rightarrow> ''File is empty or could not be read.''
      | NoDataRows \<Rightarrow> ''CSV file must contain headers and at least one data row.''
      | InvalidHeaders \<Rightarrow>
          ''Invalid CSV headers. Expected: '' @ joinWith '', '' CSV_HEADERS
      | NoValidData \<Rightarrow> ''No valid schedule data could be imported from the CSV.'')"

text \<open>
  One data line. After the check of the header every column is at its own position,
  so the values are read at positions 0, 1, 2 and 4.
\<close>

definition importRow :: "platform \<Rightarrow> State \<Rightarrow> string \<Rightarrow> rowWarning + Week" where
  "importRow P st line =
     (let vals = parseLine line [] [] False in
      if length vals \<noteq> length CSV_HEADERS then Inl (IncorrectColumns (length vals))
      else
        (let start_date = newDate P (vals ! 0 @ ''T00:00:00Z'');
             end_date = newDate P (vals ! 1 @ ''T00:00:00Z'')
         in if start_date = None \<or> end_date = None then Inl InvalidDateFormat
            else
              (let assignedToValue = getPersonIdFromName (st_people st) (vals ! 2);
                   inPeriod = (case getUTCFullYear start_date of
                                 None \<Rightarrow> False
                               | Some y \<Rightarrow> isWeekInHolidayPeriod start_date end_date y)
               in Inr \<lparr> startDate = start_date,
                        endDate = end_date,
                        assignedTo = (if inPeriod then Status ''Holiday Period'' else assignedToValue),
                        hasHoliday = weekContainsHoliday P start_date end_date (st_holidays st),
                        isHolidayPeriod = inPeriod,
                        week_notes = vals ! 4 \<rparr>)))"

text \<open>The rows with their numbers: the weeks kept and the warnings of the rows skipped.\<close>

definition importedWeeks :: "platform \<Rightarrow> State \<Rightarrow> string list \<Rightarrow> Week list" where
  "importedWeeks P st dataLines =
     concat (map (\<lambda>line. case importRow P st line of Inl w \<Rightarrow> [] | Inr week \<Rightarrow> [week]) dataLines)"

definition importWarnings :: "platform \<Rightarrow> State \<Rightarrow> string list \<Rightarrow> (nat \<times> rowWarning) list" where
  "importWarnings P st dataLines =
     concat (map (\<lambda>(i, line). case importRow P st line of Inl w \<Rightarrow> [(i + 1, w)] | Inr week \<Rightarrow> [])
               (zip [0..<length dataLines] dataLines))"

definition headersValid :: "string list \<Rightarrow> bool" where
  "headersValid headers =
     (length headers = length CSV_HEADERS
      \<and> list_all (\<lambda>(h, i). headers ! i = h) (zip CSV_HEADERS [0..<length CSV_HEADERS]))"

text \<open>The lines of the file that are not blank, the names of its header line, and
  its data lines.\<close>

definition csvLines :: "string \<Rightarrow> string list" where
  "csvLines csvContent = filter (\<lambda>line. trim line \<noteq> []) (splitLines csvContent)"

definition csvHeaders :: "string \<Rightarrow> string list" where
  "csvHeaders csvContent = map trim (splitCommaFrom (hd (csvLines csvContent)) [])"

definition csvDataLines :: "string \<Rightarrow> string list" where
  "csvDataLines csvContent = tl (csvLines csvContent)"

text \<open>
  The handler of the file that was read. An error ends the import before the schedule
  is set. Otherwise the schedule is set to the imported weeks, and the effect that
  follows every change of the schedule recounts the counters from it (the call of
  \<^verbatim>\<open>recalculateAssignments\<close> in the handler itself still reads the schedule of the
  render before): the state returned is the state after that effect, with the
  warnings of the rows skipped.
\<close>

definition importScheduleCSV ::
  "platform \<Rightarrow> State \<Rightarrow> string \<Rightarrow> importError + (State \<times> (nat \<times> rowWarning) list)" where
  "importScheduleCSV P st csvContent =
     (if csvContent = [] then Inl FileEmpty
      else if length (csvLines csvContent) < 2 then Inl NoDataRows
      else if \<not> headersValid (csvHeaders csvContent) then Inl InvalidHeaders
      else
        (let importedSchedule = importedWeeks P st (csvDataLines csvContent) in
         if importedSchedule = [] then Inl NoValidData
         else Inr (recalculateAssignments (st\<lparr> st_schedule := importedSchedule \<rparr>),
                   importWarnings P st (csvDataLines csvContent))))"

text \<open>The state after the handler, and the message it shows when the import failed.\<close>

definition afterImport :: "platform \<Rightarrow> State \<Rightarrow> string \<Rightarrow> State \<times> string option" where
  "afterImport P st csvContent =
     (case importScheduleCSV P st csvContent of
        Inl e \<Rightarrow> (st, Some (errorMessage e))
      | Inr (st', warnings) \<Rightarrow> (st', None))"

subsection \<open>Facts about the import\<close>

lemma headersValid_iff: "headersValid headers \<longleftrightarrow> headers = CSV_HEADERS"
proof
  assume "headersValid headers"
  then have l: "length headers = length CSV_HEADERS"
    and n: "\<forall>i<length CSV_HEADERS. headers ! i = CSV_HEADERS ! i"
    by (simp_all add: headersValid_def list_all_length)
  show "headers = CSV_HEADERS"
    by (rule nth_equalityI) (simp_all add: l n)
next
  assume "headers = CSV_HEADERS"
  then show "headersValid headers"
    by (simp add: headersValid_def list_all_length)
qed

lemma importedWeeks_append:
  "importedWeeks P st (xs @ ys) = importedWeeks P st xs @ importedWeeks P st ys"
  by (simp add: importedWeeks_def)

lemma importedWeeks_skip: "importRow P st line = Inl w \<Longrightarrow> importedWeeks P st [line] = []"
  by (simp add: importedWeeks_def)

lemma set_importedWeeks:
  "set (importedWeeks P st ls) = {week. \<exists>line\<in>set ls. importRow P st line = Inr week}"
  by (auto simp: importedWeeks_def split: sum.splits)

lemma set_importWarnings:
  "set (importWarnings P st ls) = {(Suc i, w) | i w. i < length ls \<and> importRow P st (ls ! i) = Inl w}"
  by (auto simp: importWarnings_def set_zip split: sum.splits)

lemma importRow_columns:
  "length (parseLine line [] [] False) \<noteq> 5 \<Longrightarrow>
   importRow P st line = Inl (IncorrectColumns (length (parseLine line [] [] False)))"
  by (simp add: importRow_def CSV_HEADERS_def Let_def)

lemma importRow_dates:
  "length (parseLine line [] [] False) = 5 \<Longrightarrow>
   newDate P (parseLine line [] [] False ! 0 @ ''T00:00:00Z'') = None
     \<or> newDate P (parseLine line [] [] False ! 1 @ ''T00:00:00Z'') = None \<Longrightarrow>
   importRow P st line = Inl InvalidDateFormat"
  by (auto simp: importRow_def CSV_HEADERS_def Let_def)

lemma importRow_week:
  assumes "importRow P st line = Inr week"
  shows "\<exists>y. length (parseLine line [] [] False) = 5
     \<and> startDate week = newDate P (parseLine line [] [] False ! 0 @ ''T00:00:00Z'')
     \<and> endDate week = newDate P (parseLine line [] [] False ! 1 @ ''T00:00:00Z'')
     \<and> getUTCFullYear (startDate week) = Some y
     \<and> isHolidayPeriod week = isWeekInHolidayPeriod (startDate week) (endDate week) y
     \<and> assignedTo week =
         (if isWeekInHolidayPeriod (startDate week) (endDate week) y
          then Status ''Holiday Period''
          else getPersonIdFromName (st_people st) (parseLine line [] [] False ! 2))
     \<and> hasHoliday week = weekContainsHoliday P (startDate week) (endDate week) (st_holidays st)
     \<and> week_notes week = parseLine line [] [] False ! 4"
proof -
  define vals where "vals = parseLine line [] [] False"
  define s where "s = newDate P (vals ! 0 @ ''T00:00:00Z'')"
  define e where "e = newDate P (vals ! 1 @ ''T00:00:00Z'')"
  have r: "importRow P st line =
     (if length vals \<noteq> 5 then Inl (IncorrectColumns (length vals))
      else if s = None \<or> e = None then Inl InvalidDateFormat
      else Inr \<lparr> startDate = s, endDate = e,
             assignedTo = (if (case getUTCFullYear s of None \<Rightarrow> False
                                | Some y \<Rightarrow> isWeekInHolidayPeriod s e y)
                           then Status ''Holiday Period''
                           else getPersonIdFromName (st_people st) (vals ! 2)),
             hasHoliday = weekContainsHoliday P s e (st_holidays st),
             isHolidayPeriod = (case getUTCFullYear s of None \<Rightarrow> False
                                | Some y \<Rightarrow> isWeekInHolidayPeriod s e y),
             week_notes = vals ! 4 \<rparr>)"
    unfolding importRow_def Let_def vals_def s_def e_def by (simp add: CSV_HEADERS_def)
  from assms have v: "length vals = 5" "s \<noteq> None" "e \<noteq> None"
    unfolding r by (simp_all split: if_splits)
  then obtain t where t: "s = Some t" by auto
  have y: "getUTCFullYear s = Some (YearFromDay (Day t))"
    by (simp add: t getUTCFullYear_def)
  have w: "week = \<lparr> startDate = s, endDate = e,
      assignedTo = (if isWeekInHolidayPeriod s e (YearFromDay (Day t)) then Status ''Holiday Period''
                    else getPersonIdFromName (st_people st) (vals ! 2)),
      hasHoliday = weekContainsHoliday P s e (st_holidays st),
      isHolidayPeriod = isWeekInHolidayPeriod s e (YearFromDay (Day t)),
      week_notes = vals ! 4 \<rparr>"
    using assms v unfolding r y by simp
  show ?thesis
    unfolding vals_def [symmetric] s_def [symmetric] e_def [symmetric]
    by (rule exI [where x = "YearFromDay (Day t)"]) (simp add: w v y)
qed

lemma import_schedule:
  assumes "importScheduleCSV P st csvContent = Inr (st', warnings)"
  shows "st_schedule st' = importedWeeks P st (csvDataLines csvContent)"
    and "warnings = importWarnings P st (csvDataLines csvContent)"
  using assms
  by (auto simp: importScheduleCSV_def Let_def recalculateAssignments_def split: if_splits)
section \<open>What the import does with a row in the holiday period\<close>

text \<open>The file with one data row, of a week in the holiday period of 2025 and with the
  name of a person in its third column.\<close>

definition holidayRowCSV :: string where
  "holidayRowCSV = ''Week Start Date,Week End Date,Assigned To,Holidays,Notes'' @ [LF]
     @ ''2025-12-23,2025-12-29,Person 1,,swap''"

text \<open>
  C10. When an import sets a schedule, the weeks of the schedule are the weeks of the
  rows retained, in the order of the rows. The week of every row retained has the
  dates of the first two columns of the row, and with \<open>y\<close> the year of its start date:
  it is flagged as in the holiday period iff its dates overlap the holiday period of
  \<open>y\<close>; if they do its assignment is the sentinel \<^verbatim>\<open>"Holiday Period"\<close>, whatever the row
  has in its third column; if they do not, its assignment is what the third column
  names.
\<close>

theorem import_holiday_period:
  assumes "importScheduleCSV P st csvContent = Inr (st', warnings)"
  shows "st_schedule st' =
       concat (map (\<lambda>line. case importRow P st line of Inl w \<Rightarrow> [] | Inr week \<Rightarrow> [week])
                 (csvDataLines csvContent))
     \<and> (\<forall>line week. importRow P st line = Inr week \<longrightarrow>
          (\<exists>y. startDate week = newDate P (parseLine line [] [] False ! 0 @ ''T00:00:00Z'')
             \<and> endDate week = newDate P (parseLine line [] [] False ! 1 @ ''T00:00:00Z'')
             \<and> getUTCFullYear (startDate week) = Some y
             \<and> isHolidayPeriod week = isWeekInHolidayPeriod (startDate week) (endDate week) y
             \<and> (isWeekInHolidayPeriod (startDate week) (endDate week) y \<longrightarrow>
                  assignedTo week = Status ''Holiday Period'')
             \<and> (\<not> isWeekInHolidayPeriod (startDate week) (endDate week) y \<longrightarrow>
                  assignedTo week =
                    getPersonIdFromName (st_people st) (parseLine line [] [] False ! 2))))"
proof (intro conjI allI impI)
  show "st_schedule st' =
       concat (map (\<lambda>line. case importRow P st line of Inl w \<Rightarrow> [] | Inr week \<Rightarrow> [week])
                 (csvDataLines csvContent))"
    using import_schedule(1) [OF assms] by (simp add: importedWeeks_def)
next
  fix line week assume "importRow P st line = Inr week"
  from importRow_week [OF this] obtain y where f:
    "startDate week = newDate P (parseLine line [] [] False ! 0 @ ''T00:00:00Z'')"
    "endDate week = newDate P (parseLine line [] [] False ! 1 @ ''T00:00:00Z'')"
    "getUTCFullYear (startDate week) = Some y"
    "isHolidayPeriod week = isWeekInHolidayPeriod (startDate week) (endDate week) y"
    "assignedTo week =
         (if isWeekInHolidayPeriod (startDate week) (endDate week) y
          then Status ''Holiday Period''
          else getPersonIdFromName (st_people st) (parseLine line [] [] False ! 2))"
    by blast
  have g: "(isWeekInHolidayPeriod (startDate week) (endDate week) y \<longrightarrow>
                  assignedTo week = Status ''Holiday Period'')
             \<and> (\<not> isWeekInHolidayPeriod (startDate week) (endDate week) y \<longrightarrow>
                  assignedTo week =
                    getPersonIdFromName (st_people st) (parseLine line [] [] False ! 2))"
    unfolding f(5) by simp
  note c = conjI [OF f(1) conjI [OF f(2) conjI [OF f(3) conjI [OF f(4) g]]]]
  show "\<exists>y. startDate week = newDate P (parseLine line [] [] False ! 0 @ ''T00:00:00Z'')
             \<and> endDate week = newDate P (parseLine line [] [] False ! 1 @ ''T00:00:00Z'')
             \<and> getUTCFullYear (startDate week) = Some y
             \<and> isHolidayPeriod week = isWeekInHolidayPeriod (startDate week) (endDate week) y
             \<and> (isWeekInHolidayPeriod (startDate week) (endDate week) y \<longrightarrow>
                  assignedTo week = Status ''Holiday Period'')
             \<and> (\<not> isWeekInHolidayPeriod (startDate week) (endDate week) y \<longrightarrow>
                  assignedTo week =
                    getPersonIdFromName (st_people st) (parseLine line [] [] False ! 2))"
    by (rule exI [where x = y]) (rule c)
qed

text \<open>The row of 2025-12-23 to 2025-12-29 names person 1, and the week imported from
  it is assigned the sentinel.\<close>

theorem import_holiday_period_witness:
  "\<exists>st' warnings week.
     importScheduleCSV utcPlatform decemberState holidayRowCSV = Inr (st', warnings)
     \<and> csvDataLines holidayRowCSV = [''2025-12-23,2025-12-29,Person 1,,swap'']
     \<and> importRow utcPlatform decemberState ''2025-12-23,2025-12-29,Person 1,,swap'' = Inr week
     \<and> st_schedule st' = [week]
     \<and> getPersonIdFromName (st_people decemberState)
          (parseLine ''2025-12-23,2025-12-29,Person 1,,swap'' [] [] False ! 2) = PersonId 1
     \<and> startDate week = Some (20445 * msPerDay) \<and> endDate week = Some (20451 * msPerDay)
     \<and> isWeekInHolidayPeriod (startDate week) (endDate week) 2025
     \<and> isHolidayPeriod week
     \<and> assignedTo week = Status ''Holiday Period''"
proof -
  define row where "row = ''2025-12-23,2025-12-29,Person 1,,swap''"
  define week where "week =
    \<lparr> startDate = Some (20445 * msPerDay), endDate = Some (20451 * msPerDay),
      assignedTo = Status ''Holiday Period'', hasHoliday = False, isHolidayPeriod = True,
      week_notes = ''swap'' \<rparr>"
  define st' where "st' = recalculateAssignments (decemberState\<lparr> st_schedule := [week] \<rparr>)"
  have ls: "csvLines holidayRowCSV =
      [''Week Start Date,Week End Date,Assigned To,Holidays,Notes'', row]"
    by (simp add: csvLines_def holidayRowCSV_def splitLines_def LF_def CR_def trim_def
        isWhiteSpace_def row_def)
  have dl: "csvDataLines holidayRowCSV = [row]"
    by (simp add: csvDataLines_def ls)
  have hd: "csvHeaders holidayRowCSV = CSV_HEADERS"
    by (simp add: csvHeaders_def ls COMMA_def trim_def isWhiteSpace_def CSV_HEADERS_def)
  have pl: "parseLine row [] [] False = [''2025-12-23'', ''2025-12-29'', ''Person 1'', [], ''swap'']"
    by (simp add: row_def COMMA_def DQUOTE_def trim_def isWhiteSpace_def unescapeCSV_def)
  have d1: "newDate utcPlatform ''2025-12-23T00:00:00Z'' = Some (20445 * msPerDay)"
    by (simp add: newDate_def isoDate_def digitsValue_def digitValue_def DaysInMonth_def
      monthStart_def InLeapYear_2025 MakeDay_2025)
  have d2: "newDate utcPlatform ''2025-12-29T00:00:00Z'' = Some (20451 * msPerDay)"
    by (simp add: newDate_def isoDate_def digitsValue_def digitValue_def DaysInMonth_def
      monthStart_def InLeapYear_2025 MakeDay_2025)
  have y: "getUTCFullYear (Some (20445 * msPerDay)) = Some 2025"
    by (simp add: YearFromDay_2025)
  have hp: "isWeekInHolidayPeriod (Some (20445 * msPerDay)) (Some (20451 * msPerDay)) 2025"
    by (simp add: isWeekInHolidayPeriod_eq period_2025)
  have ir: "importRow utcPlatform decemberState row = Inr week"
    by (simp add: importRow_def pl CSV_HEADERS_def d1 d2 YearFromDay_2025 hp week_def
        decemberState_def weekContainsHoliday_def Let_def)
  have ne: "holidayRowCSV \<noteq> []" by (simp add: holidayRowCSV_def)
  have g: "importScheduleCSV utcPlatform decemberState holidayRowCSV =
      Inr (st', importWarnings utcPlatform decemberState [row])"
    by (simp add: importScheduleCSV_def ne ls hd headersValid_iff dl importedWeeks_def ir st'_def)
  have sc: "st_schedule st' = [week]"
    by (simp add: st'_def recalculateAssignments_def)
  have nm: "getPersonIdFromName (st_people decemberState) (parseLine row [] [] False ! 2) = PersonId 1"
    by (simp add: pl getPersonIdFromName_def decemberState_def threePeople_def)
  have s: "startDate week = Some (20445 * msPerDay)" and e: "endDate week = Some (20451 * msPerDay)"
    by (simp_all add: week_def)
  from import_holiday_period [OF g] ir
  obtain y' where p: "getUTCFullYear (startDate week) = Some y'"
    "isHolidayPeriod week = isWeekInHolidayPeriod (startDate week) (endDate week) y'"
    "isWeekInHolidayPeriod (startDate week) (endDate week) y' \<longrightarrow>
       assignedTo week = Status ''Holiday Period''"
    by blast
  have y': "y' = 2025" using p(1) unfolding s y by simp
  have hw: "isWeekInHolidayPeriod (startDate week) (endDate week) 2025"
    unfolding s e by (rule hp)
  have ih: "isHolidayPeriod week" using p(2) hw unfolding y' by simp
  have a: "assignedTo week = Status ''Holiday Period''" using p(3) hw unfolding y' by simp
  note c = conjI [OF g conjI [OF dl conjI [OF ir conjI [OF sc conjI [OF nm conjI [OF s
    conjI [OF e conjI [OF hw conjI [OF ih a]]]]]]]]]
  show ?thesis
    unfolding row_def [symmetric]
    by (intro exI) (rule c)
qed

section \<open>Rows that are skipped\<close>

text \<open>A row with a defect, in the words of the specification: its number of columns
  is not 5, or its start date or its end date does not parse. And the warning for it.\<close>

definition rowDefective :: "platform \<Rightarrow> string \<Rightarrow> bool" where
  "rowDefective P line =
     (length (parseLine line [] [] False) \<noteq> 5
      \<or> newDate P (parseLine line [] [] False ! 0 @ ''T00:00:00Z'') = None
      \<or> newDate P (parseLine line [] [] False ! 1 @ ''T00:00:00Z'') = None)"

definition warningFor :: "string \<Rightarrow> rowWarning" where
  "warningFor line =
     (if length (parseLine line [] [] False) \<noteq> 5
      then IncorrectColumns (length (parseLine line [] [] False))
      else InvalidDateFormat)"

lemma importRow_defective:
  "rowDefective P line \<Longrightarrow> importRow P st line = Inl (warningFor line)"
  unfolding rowDefective_def warningFor_def
  by (auto simp: importRow_columns importRow_dates)

lemma importRow_retained:
  "\<not> rowDefective P line \<Longrightarrow> \<exists>week. importRow P st line = Inr week"
  unfolding rowDefective_def
  by (simp add: importRow_def Let_def CSV_HEADERS_def)

lemma importedWeeks_filter:
  "map Inr (importedWeeks P st ls) =
     map (importRow P st) (filter (\<lambda>line. \<not> rowDefective P line) ls)"
proof (induction ls)
  case Nil
  show ?case by (simp add: importedWeeks_def)
next
  case (Cons l ls)
  have a: "importedWeeks P st (l # ls) = importedWeeks P st [l] @ importedWeeks P st ls"
    using importedWeeks_append [of P st "[l]" ls] by simp
  show ?case
  proof (cases "rowDefective P l")
    case True
    then show ?thesis
      by (simp add: a importedWeeks_skip [OF importRow_defective] Cons.IH)
  next
    case False
    from importRow_retained [OF this, of st] obtain week where "importRow P st l = Inr week" ..
    then show ?thesis
      using False by (simp add: a Cons.IH) (simp add: importedWeeks_def)
  qed
qed

lemma importWarnings_filter:
  "importWarnings P st ls =
     map (\<lambda>k. (Suc k, warningFor (ls ! k)))
       (filter (\<lambda>k. rowDefective P (ls ! k)) [0..<length ls])"
proof (induction ls rule: rev_induct)
  case Nil
  show ?case by (simp add: importWarnings_def)
next
  case (snoc l ls)
  have z: "zip [0..<length (ls @ [l])] (ls @ [l]) = zip [0..<length ls] ls @ [(length ls, l)]"
    by simp
  have f: "filter (\<lambda>k. rowDefective P ((ls @ [l]) ! k)) [0..<length ls]
      = filter (\<lambda>k. rowDefective P (ls ! k)) [0..<length ls]"
    by (rule filter_cong) (simp_all add: nth_append)
  have m: "map (\<lambda>k. (Suc k, warningFor ((ls @ [l]) ! k)))
             (filter (\<lambda>k. rowDefective P (ls ! k)) [0..<length ls])
      = map (\<lambda>k. (Suc k, warningFor (ls ! k)))
             (filter (\<lambda>k. rowDefective P (ls ! k)) [0..<length ls])"
    by (rule map_cong) (simp_all add: nth_append)
  have w: "importWarnings P st (ls @ [l]) = importWarnings P st ls
      @ (case importRow P st l of Inl w \<Rightarrow> [(Suc (length ls), w)] | Inr week \<Rightarrow> [])"
    unfolding importWarnings_def z by (simp split: sum.split)
  show ?case
  proof (cases "rowDefective P l")
    case True
    show ?thesis
      unfolding w snoc.IH
      by (simp add: importRow_defective [OF True] True f m)
  next
    case False
    from importRow_retained [OF this, of st] obtain week where "importRow P st l = Inr week" ..
    then show ?thesis
      unfolding w snoc.IH
      using False by (simp add: f m)
  qed
qed

text \<open>The file of three rows: one of four columns, one with a start date that does not
  parse, and one without defect.\<close>

definition defectRowsCSV :: string where
  "defectRowsCSV = ''Week Start Date,Week End Date,Assigned To,Holidays,Notes'' @ [LF]
     @ ''2025-12-02,2025-12-08,Person 1,'' @ [LF]
     @ ''next week,2025-12-15,Person 2,,'' @ [LF]
     @ ''2025-12-09,2025-12-15,Person 3,,''"

text \<open>
  C8. When the header of the file is valid and one data row at least has no defect,
  the import does not fail: it sets a schedule and gives warnings. The warnings are one
  for each row with a defect, in the order of the rows, with the number of the row
  (from 1) and its defect: the number of columns when it is not 5, the date format
  otherwise. The weeks of the schedule are the weeks of the rows without defect, all of
  them and in the order of the rows.
\<close>

theorem defective_rows_skipped:
  assumes "headersValid (csvHeaders csvContent)"
    and "\<exists>line\<in>set (csvDataLines csvContent). \<not> rowDefective P line"
  shows "\<exists>st' warnings.
     importScheduleCSV P st csvContent = Inr (st', warnings)
     \<and> warnings =
         map (\<lambda>k. (Suc k, warningFor (csvDataLines csvContent ! k)))
           (filter (\<lambda>k. rowDefective P (csvDataLines csvContent ! k))
              [0..<length (csvDataLines csvContent)])
     \<and> map Inr (st_schedule st') =
         map (importRow P st) (filter (\<lambda>line. \<not> rowDefective P line) (csvDataLines csvContent))"
proof -
  from assms(2) obtain line where l: "line \<in> set (csvDataLines csvContent)"
    "\<not> rowDefective P line" by blast
  have d: "csvDataLines csvContent \<noteq> []" using l(1) by auto
  then have n: "\<not> length (csvLines csvContent) < 2"
    by (cases "csvLines csvContent") (simp_all add: csvDataLines_def)
  have e: "csvContent \<noteq> []"
    using d by (auto simp: csvDataLines_def csvLines_def splitLines_def trim_def)
  have "filter (\<lambda>line. \<not> rowDefective P line) (csvDataLines csvContent) \<noteq> []"
    using l by (auto simp: filter_empty_conv)
  then have "map Inr (importedWeeks P st (csvDataLines csvContent)) \<noteq> ([] :: (rowWarning + Week) list)"
    unfolding importedWeeks_filter by simp
  then have w: "importedWeeks P st (csvDataLines csvContent) \<noteq> []" by simp
  define st' where
    "st' = recalculateAssignments (st\<lparr> st_schedule := importedWeeks P st (csvDataLines csvContent) \<rparr>)"
  have g: "importScheduleCSV P st csvContent =
      Inr (st', importWarnings P st (csvDataLines csvContent))"
    by (simp add: importScheduleCSV_def e n assms(1) w st'_def Let_def)
  have s: "st_schedule st' = importedWeeks P st (csvDataLines csvContent)"
    by (simp add: st'_def recalculateAssignments_def)
  have m: "map Inr (st_schedule st') =
         map (importRow P st) (filter (\<lambda>line. \<not> rowDefective P line) (csvDataLines csvContent))"
    unfolding s by (rule importedWeeks_filter)
  note c = conjI [OF g conjI [OF importWarnings_filter m]]
  show ?thesis by (intro exI) (rule c)
qed

text \<open>Of the three rows the first two are skipped, with a warning each, and the third
  is the one week of the schedule.\<close>

theorem defective_rows_skipped_witness:
  "\<exists>st' warnings.
     importScheduleCSV utcPlatform decemberState defectRowsCSV = Inr (st', warnings)
     \<and> csvDataLines defectRowsCSV =
         [''2025-12-02,2025-12-08,Person 1,'', ''next week,2025-12-15,Person 2,,'',
          ''2025-12-09,2025-12-15,Person 3,,'']
     \<and> warnings = [(1, IncorrectColumns 4), (2, InvalidDateFormat)]
     \<and> st_schedule st' = [decemberWeek 20431 (PersonId 3) False]"
proof -
  define r1 where "r1 = ''2025-12-02,2025-12-08,Person 1,''"
  define r2 where "r2 = ''next week,2025-12-15,Person 2,,''"
  define r3 where "r3 = ''2025-12-09,2025-12-15,Person 3,,''"
  have ls: "csvLines defectRowsCSV =
      [''Week Start Date,Week End Date,Assigned To,Holidays,Notes'', r1, r2, r3]"
    by (simp add: csvLines_def defectRowsCSV_def splitLines_def LF_def CR_def trim_def
        isWhiteSpace_def r1_def r2_def r3_def)
  have dl: "csvDataLines defectRowsCSV = [r1, r2, r3]"
    by (simp add: csvDataLines_def ls)
  have hd: "csvHeaders defectRowsCSV = CSV_HEADERS"
    by (simp add: csvHeaders_def ls COMMA_def trim_def isWhiteSpace_def CSV_HEADERS_def)
  have h1: "headersValid (csvHeaders defectRowsCSV)"
    by (simp add: hd headersValid_iff)
  have p1: "parseLine r1 [] [] False = [''2025-12-02'', ''2025-12-08'', ''Person 1'', []]"
    by (simp add: r1_def COMMA_def DQUOTE_def trim_def isWhiteSpace_def unescapeCSV_def)
  have p2: "parseLine r2 [] [] False = [''next week'', ''2025-12-15'', ''Person 2'', [], []]"
    by (simp add: r2_def COMMA_def DQUOTE_def trim_def isWhiteSpace_def unescapeCSV_def)
  have p3: "parseLine r3 [] [] False = [''2025-12-09'', ''2025-12-15'', ''Person 3'', [], []]"
    by (simp add: r3_def COMMA_def DQUOTE_def trim_def isWhiteSpace_def unescapeCSV_def)
  have d0: "newDate utcPlatform ''next weekT00:00:00Z'' = None"
    by (simp add: newDate_def isoDate_def utcPlatform_def)
  have d1: "newDate utcPlatform ''2025-12-09T00:00:00Z'' = Some (20431 * msPerDay)"
    by (simp add: newDate_def isoDate_def digitsValue_def digitValue_def DaysInMonth_def
      monthStart_def InLeapYear_2025 MakeDay_2025)
  have d2: "newDate utcPlatform ''2025-12-15T00:00:00Z'' = Some (20437 * msPerDay)"
    by (simp add: newDate_def isoDate_def digitsValue_def digitValue_def DaysInMonth_def
      monthStart_def InLeapYear_2025 MakeDay_2025)
  have f1: "rowDefective utcPlatform r1" "warningFor r1 = IncorrectColumns 4"
    by (simp_all add: rowDefective_def warningFor_def p1)
  have f2: "rowDefective utcPlatform r2" "warningFor r2 = InvalidDateFormat"
    by (simp_all add: rowDefective_def warningFor_def p2 d0)
  have f3: "\<not> rowDefective utcPlatform r3"
    by (simp add: rowDefective_def p3 d1 d2)
  have hp: "\<not> isWeekInHolidayPeriod (Some (20431 * msPerDay)) (Some (20437 * msPerDay)) 2025"
    by (simp add: isWeekInHolidayPeriod_eq period_2025)
  have ir: "importRow utcPlatform decemberState r3 = Inr (decemberWeek 20431 (PersonId 3) False)"
    by (simp add: importRow_def p3 CSV_HEADERS_def d1 d2 YearFromDay_2025 hp decemberWeek_def
        decemberState_def weekContainsHoliday_def Let_def getPersonIdFromName_def threePeople_def
        toLowerCase_def lowerChar_def upperLetters_def lowerLetters_def)
  have h2: "\<exists>line\<in>set (csvDataLines defectRowsCSV). \<not> rowDefective utcPlatform line"
    by (simp add: dl f3)
  from defective_rows_skipped [OF h1 h2, of decemberState]
  obtain st' warnings where g:
    "importScheduleCSV utcPlatform decemberState defectRowsCSV = Inr (st', warnings)"
    and w: "warnings =
         map (\<lambda>k. (Suc k, warningFor (csvDataLines defectRowsCSV ! k)))
           (filter (\<lambda>k. rowDefective utcPlatform (csvDataLines defectRowsCSV ! k))
              [0..<length (csvDataLines defectRowsCSV)])"
    and m: "map Inr (st_schedule st') =
         map (importRow utcPlatform decemberState)
           (filter (\<lambda>line. \<not> rowDefective utcPlatform line) (csvDataLines defectRowsCSV))"
    by blast
  have w': "warnings = [(1, IncorrectColumns 4), (2, InvalidDateFormat)]"
    unfolding w dl by (simp add: f1 f2 f3)
  have "map Inr (st_schedule st') =
      [Inr (decemberWeek 20431 (PersonId 3) False) :: rowWarning + Week]"
    unfolding m dl by (simp add: f1 f2 f3 ir)
  then have s: "st_schedule st' = [decemberWeek 20431 (PersonId 3) False]"
    by (auto simp: map_eq_Cons_conv)
  note c = conjI [OF g conjI [OF dl conjI [OF w' s]]]
  show ?thesis
    unfolding r1_def [symmetric] r2_def [symmetric] r3_def [symmetric]
    by (intro exI) (rule c)
qed
section \<open>Imports that fail\<close>

lemma importedWeeks_empty:
  "importedWeeks P st ls = [] \<longleftrightarrow> (\<forall>line\<in>set ls. rowDefective P line)"
proof -
  have "importedWeeks P st ls = [] \<longleftrightarrow>
      map Inr (importedWeeks P st ls) = ([] :: (rowWarning + Week) list)"
    by simp
  also have "\<dots> \<longleftrightarrow> (\<forall>line\<in>set ls. rowDefective P line)"
    unfolding importedWeeks_filter by (simp add: filter_empty_conv)
  finally show ?thesis .
qed

text \<open>A file whose header has its first two names in the wrong order, and a file whose
  header has a space after every comma, as the message for an invalid header prints
  the names.\<close>

definition swappedHeaderCSV :: string where
  "swappedHeaderCSV = ''Week End Date,Week Start Date,Assigned To,Holidays,Notes'' @ [LF]
     @ ''2025-12-15,2025-12-09,Person 3,,''"

definition spacedHeaderCSV :: string where
  "spacedHeaderCSV = ''Week Start Date, Week End Date, Assigned To, Holidays, Notes'' @ [LF]
     @ ''2025-12-09,2025-12-15,Person 3,,''"

text \<open>
  C7, as the code has it. The import fails, with the message of the first of these
  that holds, and the state after the handler is the state before it: the file is
  empty; fewer than two of its lines are not blank; the fields of its first line that
  is not blank, split at the commas and each trimmed of the white space around it, are
  not the five column names in their order; every data row has a defect.
\<close>

theorem fatal_import_keeps_state:
  assumes "csvContent = [] \<or> length (csvLines csvContent) < 2
     \<or> csvHeaders csvContent \<noteq> CSV_HEADERS
     \<or> (\<forall>line\<in>set (csvDataLines csvContent). rowDefective P line)"
  shows "\<exists>e. importScheduleCSV P st csvContent = Inl e
     \<and> e = (if csvContent = [] then FileEmpty
            else if length (csvLines csvContent) < 2 then NoDataRows
            else if csvHeaders csvContent \<noteq> CSV_HEADERS then InvalidHeaders
            else NoValidData)
     \<and> afterImport P st csvContent = (st, Some (errorMessage e))
     \<and> errorMessage e =
         (if csvContent = [] then ''File is empty or could not be read.''
          else if length (csvLines csvContent) < 2
            then ''CSV file must contain headers and at least one data row.''
          else if csvHeaders csvContent \<noteq> CSV_HEADERS
            then ''Invalid CSV headers. Expected: Week Start Date, Week End Date, Assigned To, Holidays, Notes''
          else ''No valid schedule data could be imported from the CSV.'')"
proof -
  define e where "e = (if csvContent = [] then FileEmpty
            else if length (csvLines csvContent) < 2 then NoDataRows
            else if csvHeaders csvContent \<noteq> CSV_HEADERS then InvalidHeaders
            else NoValidData)"
  have g: "importScheduleCSV P st csvContent = Inl e"
    using assms
    by (auto simp: importScheduleCSV_def e_def headersValid_iff Let_def importedWeeks_empty)
  have a: "afterImport P st csvContent = (st, Some (errorMessage e))"
    by (simp add: afterImport_def g)
  have m: "errorMessage e =
         (if csvContent = [] then ''File is empty or could not be read.''
          else if length (csvLines csvContent) < 2
            then ''CSV file must contain headers and at least one data row.''
          else if csvHeaders csvContent \<noteq> CSV_HEADERS
            then ''Invalid CSV headers. Expected: Week Start Date, Week End Date, Assigned To, Holidays, Notes''
          else ''No valid schedule data could be imported from the CSV.'')"
    by (simp add: e_def errorMessage_def CSV_HEADERS_def)
  note c = conjI [OF g conjI [OF e_def conjI [OF a m]]]
  show ?thesis by (rule exI [where x = e]) (rule c)
qed

text \<open>The file with the names of its header in the wrong order is refused and leaves
  the state as it was.\<close>

theorem fatal_import_keeps_state_witness:
  "csvHeaders swappedHeaderCSV \<noteq> CSV_HEADERS
   \<and> importScheduleCSV utcPlatform decemberState swappedHeaderCSV = Inl InvalidHeaders
   \<and> afterImport utcPlatform decemberState swappedHeaderCSV =
       (decemberState,
        Some ''Invalid CSV headers. Expected: Week Start Date, Week End Date, Assigned To, Holidays, Notes'')"
proof -
  have ne: "swappedHeaderCSV \<noteq> []" by (simp add: swappedHeaderCSV_def)
  have ls: "csvLines swappedHeaderCSV =
      [''Week End Date,Week Start Date,Assigned To,Holidays,Notes'',
       ''2025-12-15,2025-12-09,Person 3,,'']"
    by (simp add: csvLines_def swappedHeaderCSV_def splitLines_def LF_def CR_def trim_def
        isWhiteSpace_def)
  have hd: "csvHeaders swappedHeaderCSV \<noteq> CSV_HEADERS"
    by (simp add: csvHeaders_def ls COMMA_def trim_def isWhiteSpace_def CSV_HEADERS_def)
  from fatal_import_keeps_state [of swappedHeaderCSV utcPlatform decemberState]
  show ?thesis
    by (simp add: hd ne ls)
qed

text \<open>
  The claim as it reads fails: the header with a space after every comma is not the
  line of the five names that the export writes, and the file is imported.
\<close>

theorem spaced_header_accepted:
  "hd (csvLines spacedHeaderCSV) \<noteq> joinWith [COMMA] CSV_HEADERS
   \<and> (\<exists>st' warnings.
        importScheduleCSV utcPlatform decemberState spacedHeaderCSV = Inr (st', warnings)
        \<and> afterImport utcPlatform decemberState spacedHeaderCSV = (st', None)
        \<and> st_schedule st' = [decemberWeek 20431 (PersonId 3) False])
   \<and> st_schedule decemberState = []"
proof -
  define r3 where "r3 = ''2025-12-09,2025-12-15,Person 3,,''"
  have ne: "spacedHeaderCSV \<noteq> []" by (simp add: spacedHeaderCSV_def)
  have ls: "csvLines spacedHeaderCSV =
      [''Week Start Date, Week End Date, Assigned To, Holidays, Notes'', r3]"
    by (simp add: csvLines_def spacedHeaderCSV_def splitLines_def LF_def CR_def trim_def
        isWhiteSpace_def r3_def)
  have dl: "csvDataLines spacedHeaderCSV = [r3]"
    by (simp add: csvDataLines_def ls)
  have hd: "csvHeaders spacedHeaderCSV = CSV_HEADERS"
    by (simp add: csvHeaders_def ls COMMA_def trim_def isWhiteSpace_def CSV_HEADERS_def)
  have h: "hd (csvLines spacedHeaderCSV) \<noteq> joinWith [COMMA] CSV_HEADERS"
    by (simp add: ls CSV_HEADERS_def COMMA_def)
  have p3: "parseLine r3 [] [] False = [''2025-12-09'', ''2025-12-15'', ''Person 3'', [], []]"
    by (simp add: r3_def COMMA_def DQUOTE_def trim_def isWhiteSpace_def unescapeCSV_def)
  have d1: "newDate utcPlatform ''2025-12-09T00:00:00Z'' = Some (20431 * msPerDay)"
    by (simp add: newDate_def isoDate_def digitsValue_def digitValue_def DaysInMonth_def
      monthStart_def InLeapYear_2025 MakeDay_2025)
  have d2: "newDate utcPlatform ''2025-12-15T00:00:00Z'' = Some (20437 * msPerDay)"
    by (simp add: newDate_def isoDate_def digitsValue_def digitValue_def DaysInMonth_def
      monthStart_def InLeapYear_2025 MakeDay_2025)
  have hp: "\<not> isWeekInHolidayPeriod (Some (20431 * msPerDay)) (Some (20437 * msPerDay)) 2025"
    by (simp add: isWeekInHolidayPeriod_eq period_2025)
  have ir: "importRow utcPlatform decemberState r3 = Inr (decemberWeek 20431 (PersonId 3) False)"
    by (simp add: importRow_def p3 CSV_HEADERS_def d1 d2 YearFromDay_2025 hp decemberWeek_def
        decemberState_def weekContainsHoliday_def Let_def getPersonIdFromName_def threePeople_def
        toLowerCase_def lowerChar_def upperLetters_def lowerLetters_def)
  define st' where "st' = recalculateAssignments
      (decemberState\<lparr> st_schedule := [decemberWeek 20431 (PersonId 3) False] \<rparr>)"
  have g: "importScheduleCSV utcPlatform decemberState spacedHeaderCSV =
      Inr (st', importWarnings utcPlatform decemberState [r3])"
    by (simp add: importScheduleCSV_def ne ls hd headersValid_iff dl importedWeeks_def ir st'_def)
  have a: "afterImport utcPlatform decemberState spacedHeaderCSV = (st', None)"
    by (simp add: afterImport_def g)
  have s: "st_schedule st' = [decemberWeek 20431 (PersonId 3) False]"
    by (simp add: st'_def recalculateAssignments_def)
  have o: "st_schedule decemberState = []" by (simp add: decemberState_def)
  have x: "\<exists>st' warnings.
        importScheduleCSV utcPlatform decemberState spacedHeaderCSV = Inr (st', warnings)
        \<and> afterImport utcPlatform decemberState spacedHeaderCSV = (st', None)
        \<and> st_schedule st' = [decemberWeek 20431 (PersonId 3) False]"
    by (intro exI) (rule conjI [OF g conjI [OF a s]])
  show ?thesis by (rule conjI [OF h conjI [OF x o]])
qed



end
